(* ===== verification/Prelude.thy ===== *)
theory Prelude
  imports Main "HOL-Library.Word"
begin

text \<open>
  Shared vocabulary of the development: bytes, Go errors, the outcome of a Go call, state
  passing for code that mutates memory or hardware, the built-in \<open>copy\<close>, and the generic
  lemmas on lists that the component theories use.

  A Go function that can fail returns \<open>(value, error)\<close>; here it returns a \<open>res\<close>:
  \<open>Ok v\<close> for a nil error, \<open>Err e\<close> for an error value, and \<open>Halt msg\<close> when control
  does not come back to the caller (a panic, or \<open>log.Fatal\<close>). Code with effects on a state
  \<open>'s\<close> has the type \<open>('s, 'a) io\<close>; \<open>bindS\<close> is the early return
  \<open>if err != nil { return err }\<close>.
\<close>

section \<open>Collections of facts\<close>

named_theorems bytes_simps \<open>equations on byte strings and their lengths\<close>
named_theorems io_simps \<open>equations of the state-passing combinators\<close>
named_theorems keeps_rules \<open>introduction rules for invariant preservation\<close>

section \<open>Bytes, errors and outcomes\<close>

type_synonym byte = "8 word"
type_synonym bytes = "byte list"

text \<open>
  \<open>ErrorsNew\<close> is an error made from a text alone, \<open>Errorf\<close> one that formats another error
  into its text with \<open>%v\<close> (which \<open>errors.As\<close> does not see through), \<open>OperationError\<close>
  the error type of package \<open>rpmb\<close>, \<open>EOF\<close> is \<open>io.EOF\<close>, and \<open>External\<close> an
  error created by code outside this repository.
\<close>

datatype error =
    ErrorsNew string
  | Errorf string error
  | OperationError "16 word"
  | EOF
  | External string

datatype 'a res = Ok 'a | Err error | Halt string

fun is_Ok :: "'a res \<Rightarrow> bool" where
  "is_Ok (Ok _) = True"
| "is_Ok _ = False"

fun map_res :: "('a \<Rightarrow> 'b) \<Rightarrow> 'a res \<Rightarrow> 'b res" where
  "map_res f (Ok x) = Ok (f x)"
| "map_res f (Err e) = Err e"
| "map_res f (Halt m) = Halt m"

lemma is_Ok_iff: "is_Ok r \<longleftrightarrow> (\<exists>x. r = Ok x)"
  by (cases r) auto

section \<open>State passing\<close>

type_synonym ('s, 'a) io = "'s \<Rightarrow> 'a res \<times> 's"

definition retS :: "'a \<Rightarrow> ('s, 'a) io" where
  "retS x = (\<lambda>s. (Ok x, s))"

definition failS :: "error \<Rightarrow> ('s, 'a) io" where
  "failS e = (\<lambda>s. (Err e, s))"

definition haltS :: "string \<Rightarrow> ('s, 'a) io" where
  "haltS m = (\<lambda>s. (Halt m, s))"

definition getS :: "('s \<Rightarrow> 'a) \<Rightarrow> ('s, 'a) io" where
  "getS f = (\<lambda>s. (Ok (f s), s))"

definition modifyS :: "('s \<Rightarrow> 's) \<Rightarrow> ('s, unit) io" where
  "modifyS f = (\<lambda>s. (Ok (), f s))"

definition bindS :: "('s, 'a) io \<Rightarrow> ('a \<Rightarrow> ('s, 'b) io) \<Rightarrow> ('s, 'b) io" where
  "bindS m f = (\<lambda>s. case m s of
      (Ok x, s') \<Rightarrow> f x s'
    | (Err e, s') \<Rightarrow> (Err e, s')
    | (Halt p, s') \<Rightarrow> (Halt p, s'))"

text \<open>\<open>tryS m h\<close> hands the error of \<open>m\<close> (or \<open>None\<close>) to the caller: the shape
  \<open>v, err := m(); \<dots>\<close> where the code looks at \<open>err\<close> itself.\<close>

definition tryS :: "('s, 'a) io \<Rightarrow> ((error + 'a) \<Rightarrow> ('s, 'b) io) \<Rightarrow> ('s, 'b) io" where
  "tryS m h = (\<lambda>s. case m s of
      (Ok x, s') \<Rightarrow> h (Inr x) s'
    | (Err e, s') \<Rightarrow> h (Inl e) s'
    | (Halt p, s') \<Rightarrow> (Halt p, s'))"

text \<open>\<open>fmt.Errorf("\<dots>%v", err)\<close> around a failing call.\<close>

definition wrapS :: "string \<Rightarrow> ('s, 'a) io \<Rightarrow> ('s, 'a) io" where
  "wrapS msg m = tryS m (\<lambda>r. case r of Inl e \<Rightarrow> failS (Errorf msg e) | Inr x \<Rightarrow> retS x)"

text \<open>A call of a pure function that can fail.\<close>

definition liftRes :: "'a res \<Rightarrow> ('s, 'a) io" where
  "liftRes r = (\<lambda>s. (r, s))"

text \<open>Run a computation on a part of the state.\<close>

definition zoomS :: "('s \<Rightarrow> 't) \<Rightarrow> ('t \<Rightarrow> 's \<Rightarrow> 's) \<Rightarrow> ('t, 'a) io \<Rightarrow> ('s, 'a) io" where
  "zoomS get put m = (\<lambda>s. case m (get s) of (r, t) \<Rightarrow> (r, put t s))"

lemma retS_apply [simp, io_simps]: "retS x s = (Ok x, s)"
  by (simp add: retS_def)

lemma failS_apply [simp, io_simps]: "failS e s = (Err e, s)"
  by (simp add: failS_def)

lemma haltS_apply [simp, io_simps]: "haltS m s = (Halt m, s)"
  by (simp add: haltS_def)

lemma getS_apply [simp, io_simps]: "getS f s = (Ok (f s), s)"
  by (simp add: getS_def)

lemma modifyS_apply [simp, io_simps]: "modifyS f s = (Ok (), f s)"
  by (simp add: modifyS_def)

lemma bindS_apply [io_simps]:
  "bindS m f s = (case m s of
      (Ok x, s') \<Rightarrow> f x s'
    | (Err e, s') \<Rightarrow> (Err e, s')
    | (Halt p, s') \<Rightarrow> (Halt p, s'))"
  by (simp add: bindS_def)

lemma tryS_apply [io_simps]:
  "tryS m h s = (case m s of
      (Ok x, s') \<Rightarrow> h (Inr x) s'
    | (Err e, s') \<Rightarrow> h (Inl e) s'
    | (Halt p, s') \<Rightarrow> (Halt p, s'))"
  by (simp add: tryS_def)

lemma wrapS_apply [io_simps]:
  "wrapS msg m s = (case m s of
      (Ok x, s') \<Rightarrow> (Ok x, s')
    | (Err e, s') \<Rightarrow> (Err (Errorf msg e), s')
    | (Halt p, s') \<Rightarrow> (Halt p, s'))"
  by (simp add: wrapS_def tryS_apply split: res.splits prod.splits)

lemma liftRes_apply [simp, io_simps]: "liftRes r s = (r, s)"
  by (simp add: liftRes_def)

lemma zoomS_apply [io_simps]:
  "zoomS get put m s = (case m (get s) of (r, t) \<Rightarrow> (r, put t s))"
  by (simp add: zoomS_def)

lemma bindS_retS [simp]: "bindS (retS x) f = f x"
  by (simp add: bindS_def fun_eq_iff)

lemma bindS_failS [simp]: "bindS (failS e) f = failS e"
  by (simp add: bindS_def fun_eq_iff)

lemma bindS_assoc: "bindS (bindS m f) g = bindS m (\<lambda>x. bindS (f x) g)"
  by (simp add: bindS_def fun_eq_iff split: res.splits prod.splits)

text \<open>Inversion: a sequence of calls succeeds only through the success of each call.\<close>

lemma bindS_OkD:
  "bindS m f s = (Ok y, s') \<Longrightarrow> \<exists>x t. m s = (Ok x, t) \<and> f x t = (Ok y, s')"
  by (auto simp: bindS_def split: prod.splits res.splits)

lemma bindS_OkE:
  assumes "bindS m f s = (Ok y, s')"
  obtains x t where "m s = (Ok x, t)" and "f x t = (Ok y, s')"
  using bindS_OkD [OF assms] by blast

lemma wrapS_Ok_iff [simp]: "wrapS msg m s = (Ok x, s') \<longleftrightarrow> m s = (Ok x, s')"
  by (simp add: wrapS_apply split: res.splits prod.splits)

section \<open>Preservation\<close>

text \<open>\<open>keeps I m\<close>: whatever \<open>m\<close> returns, an error included, the state it leaves satisfies
  \<open>I\<close> if the state it started from does. \<open>leaves f m\<close>: the view \<open>f\<close> of the state is the
  same before and after.\<close>

definition keeps :: "('s \<Rightarrow> bool) \<Rightarrow> ('s, 'a) io \<Rightarrow> bool" where
  "keeps I m \<longleftrightarrow> (\<forall>s. I s \<longrightarrow> I (snd (m s)))"

definition leaves :: "('s \<Rightarrow> 'v) \<Rightarrow> ('s, 'a) io \<Rightarrow> bool" where
  "leaves f m \<longleftrightarrow> (\<forall>s. f (snd (m s)) = f s)"

lemma keepsD: "keeps I m \<Longrightarrow> I s \<Longrightarrow> m s = (r, s') \<Longrightarrow> I s'"
  by (metis keeps_def snd_conv)

lemma leavesD: "leaves f m \<Longrightarrow> m s = (r, s') \<Longrightarrow> f s' = f s"
  by (metis leaves_def snd_conv)

lemma leaves_keeps: "leaves f m \<longleftrightarrow> (\<forall>v. keeps (\<lambda>s. f s = v) m)"
  by (auto simp: leaves_def keeps_def)

lemma keeps_retS [keeps_rules]: "keeps I (retS x)"
  and keeps_failS [keeps_rules]: "keeps I (failS e)"
  and keeps_haltS [keeps_rules]: "keeps I (haltS p)"
  and keeps_getS [keeps_rules]: "keeps I (getS f)"
  by (simp_all add: keeps_def)

lemma keeps_modifyS [keeps_rules]: "(\<And>s. I s \<Longrightarrow> I (f s)) \<Longrightarrow> keeps I (modifyS f)"
  by (simp add: keeps_def)

lemma keeps_bindS [keeps_rules]:
  assumes "keeps I m" and "\<And>x. keeps I (f x)"
  shows "keeps I (bindS m f)"
  using assms by (auto simp: keeps_def bindS_def split: prod.splits res.splits)

lemma keeps_tryS [keeps_rules]:
  assumes "keeps I m" and "\<And>r. keeps I (h r)"
  shows "keeps I (tryS m h)"
  using assms by (auto simp: keeps_def tryS_def split: prod.splits res.splits)

lemma keeps_wrapS [keeps_rules]: "keeps I m \<Longrightarrow> keeps I (wrapS msg m)"
  by (auto simp: wrapS_def intro!: keeps_rules split: sum.splits)

lemma keeps_if [keeps_rules]:
  "(b \<Longrightarrow> keeps I m) \<Longrightarrow> (\<not> b \<Longrightarrow> keeps I m') \<Longrightarrow> keeps I (if b then m else m')"
  by simp

lemma leaves_retS [keeps_rules]: "leaves f (retS x)"
  and leaves_failS [keeps_rules]: "leaves f (failS e)"
  and leaves_haltS [keeps_rules]: "leaves f (haltS p)"
  and leaves_getS [keeps_rules]: "leaves f (getS g)"
  by (simp_all add: leaves_def)

lemma leaves_modifyS [keeps_rules]: "(\<And>s. f (g s) = f s) \<Longrightarrow> leaves f (modifyS g)"
  by (simp add: leaves_def)

lemma leaves_bindS [keeps_rules]:
  "leaves f m \<Longrightarrow> (\<And>x. leaves f (g x)) \<Longrightarrow> leaves f (bindS m g)"
  by (simp add: leaves_keeps keeps_bindS)

lemma leaves_tryS [keeps_rules]:
  "leaves f m \<Longrightarrow> (\<And>r. leaves f (h r)) \<Longrightarrow> leaves f (tryS m h)"
  by (simp add: leaves_keeps keeps_tryS)

lemma leaves_wrapS [keeps_rules]: "leaves f m \<Longrightarrow> leaves f (wrapS msg m)"
  by (simp add: leaves_keeps keeps_wrapS)

lemma leaves_if [keeps_rules]:
  "(b \<Longrightarrow> leaves f m) \<Longrightarrow> (\<not> b \<Longrightarrow> leaves f m') \<Longrightarrow> leaves f (if b then m else m')"
  by simp

section \<open>Go built-ins on slices\<close>

text \<open>The destination after \<open>copy(dst, src)\<close>: the first \<open>min(len(dst), len(src))\<close> bytes
  come from the source, the rest stay.\<close>

definition go_copy :: "'a list \<Rightarrow> 'a list \<Rightarrow> 'a list" where
  "go_copy dst src = take (length dst) src @ drop (length src) dst"

lemma length_go_copy [simp, bytes_simps]: "length (go_copy dst src) = length dst"
  by (simp add: go_copy_def)

lemma go_copy_same_length [simp, bytes_simps]: "length dst = length src \<Longrightarrow> go_copy dst src = src"
  by (simp add: go_copy_def)

lemma go_copy_Nil [simp, bytes_simps]: "go_copy dst [] = dst"
  by (simp add: go_copy_def)

lemma go_copy_shorter: "length dst \<le> length src \<Longrightarrow> go_copy dst src = take (length dst) src"
  by (simp add: go_copy_def)

lemma go_copy_longer: "length src \<le> length dst \<Longrightarrow> go_copy dst src = src @ drop (length src) dst"
  by (simp add: go_copy_def)

text \<open>Zero padding on the right, the result of \<open>make([]byte, n)\<close> followed by \<open>copy\<close>.\<close>

definition zeros :: "nat \<Rightarrow> bytes" where
  "zeros n = replicate n 0"

lemma length_zeros [simp, bytes_simps]: "length (zeros n) = n"
  by (simp add: zeros_def)

lemma drop_zeros [simp, bytes_simps]: "drop k (zeros n) = zeros (n - k)"
  by (simp add: zeros_def)

lemma take_zeros [simp, bytes_simps]: "take k (zeros n) = zeros (min n k)"
  by (simp add: zeros_def min.commute)

lemma go_copy_zeros: "length src \<le> n \<Longrightarrow> go_copy (zeros n) src = src @ zeros (n - length src)"
  by (simp add: go_copy_longer)

text \<open>Go's integer division truncates toward zero.\<close>

definition go_div :: "int \<Rightarrow> int \<Rightarrow> int" where
  "go_div a b = sgn a * sgn b * (\<bar>a\<bar> div \<bar>b\<bar>)"

definition go_rem :: "int \<Rightarrow> int \<Rightarrow> int" where
  "go_rem a b = a - go_div a b * b"

lemma go_div_nonneg [simp]: "0 \<le> a \<Longrightarrow> 0 < b \<Longrightarrow> go_div a b = a div b"
  by (cases "a = 0") (simp_all add: go_div_def)

lemma go_rem_nonneg [simp]: "0 \<le> a \<Longrightarrow> 0 < b \<Longrightarrow> go_rem a b = a mod b"
  by (simp add: go_rem_def minus_div_mult_eq_mod)

end
