(* ===== verification/Go_Std.thy ===== *)
theory Go_Std
  imports Prelude
begin

unbundle bit_operations_syntax

text \<open>
  The part of Go's standard library that the repository calls, as executable functions:
  \<open>encoding/binary\<close> (big endian), \<open>crypto/sha256\<close>, \<open>crypto/hmac\<close>,
  \<open>encoding/hex\<close>, \<open>encoding/gob\<close> for a single string, \<open>bytes.IndexByte\<close>,
  \<open>strings.TrimPrefix\<close> and \<open>strings.EqualFold\<close>.
\<close>

section \<open>Strings as bytes\<close>

definition byte_of_char :: "char \<Rightarrow> byte" where
  "byte_of_char c = word_of_nat (of_char c)"

definition char_of_byte :: "byte \<Rightarrow> char" where
  "char_of_byte b = char_of (unat b)"

definition bytes_of_string :: "string \<Rightarrow> bytes" where
  "bytes_of_string s = map byte_of_char s"

definition string_of_bytes :: "bytes \<Rightarrow> string" where
  "string_of_bytes bs = map char_of_byte bs"

lemma char_of_byte_of_char [simp]: "char_of_byte (byte_of_char c) = c"
proof -
  have "of_char c < (256 :: nat)" by simp
  then show ?thesis by (simp add: char_of_byte_def byte_of_char_def unat_of_nat)
qed

lemma string_of_bytes_of_string [simp]: "string_of_bytes (bytes_of_string s) = s"
  by (simp add: string_of_bytes_def bytes_of_string_def comp_def)

lemma length_bytes_of_string [simp, bytes_simps]: "length (bytes_of_string s) = length s"
  by (simp add: bytes_of_string_def)

section \<open>encoding/binary: big endian\<close>

definition put_be16 :: "16 word \<Rightarrow> bytes" where
  "put_be16 w = [ucast (drop_bit 8 w), ucast w]"

definition put_be32 :: "32 word \<Rightarrow> bytes" where
  "put_be32 w = [ucast (drop_bit 24 w), ucast (drop_bit 16 w), ucast (drop_bit 8 w), ucast w]"

definition put_be64 :: "64 word \<Rightarrow> bytes" where
  "put_be64 w = put_be32 (ucast (drop_bit 32 w)) @ put_be32 (ucast w)"

text \<open>The reads index the slice and panic when it is too short; callers here pass fixed arrays.\<close>

definition be16 :: "bytes \<Rightarrow> 16 word" where
  "be16 bs = push_bit 8 (ucast (bs ! 0)) OR ucast (bs ! 1)"

definition be32 :: "bytes \<Rightarrow> 32 word" where
  "be32 bs = push_bit 24 (ucast (bs ! 0)) OR push_bit 16 (ucast (bs ! 1))
     OR push_bit 8 (ucast (bs ! 2)) OR ucast (bs ! 3)"

lemma length_put_be [simp, bytes_simps]:
  "length (put_be16 w) = 2" "length (put_be32 x) = 4" "length (put_be64 y) = 8"
  by (simp_all add: put_be16_def put_be32_def put_be64_def)

lemma be16_put_be16 [simp]: "be16 (put_be16 w) = w"
  by (rule bit_word_eqI) (auto simp: be16_def put_be16_def bit_simps)

lemma be32_put_be32 [simp]: "be32 (put_be32 w) = w"
proof (rule bit_word_eqI)
  fix n assume "n < LENGTH(32)"
  then consider "n < 8" | "8 \<le> n" "n < 16" | "16 \<le> n" "n < 24" | "24 \<le> n" "n < 32" by force
  then show "bit (be32 (put_be32 w)) n \<longleftrightarrow> bit w n"
    by cases (simp_all add: be32_def put_be32_def bit_simps less_diff_conv2)
qed

text \<open>The most significant byte comes first.\<close>

lemma unat_be32:
  "unat (be32 bs) = ((unat (bs ! 0) * 256 + unat (bs ! 1)) * 256 + unat (bs ! 2)) * 256 + unat (bs ! 3)"
proof -
  let ?w = "\<lambda>i. ucast (bs ! i) :: 32 word"
  have b: "unat (bs ! i) < 256" for i using unsigned_less [of "bs ! i", where 'a = nat] by simp
  have n: "\<not> bit (?w i) k" if "8 \<le> k" for i k using that by (auto simp: bit_simps dest: bit_imp_le_length)
  have "push_bit 24 (?w 0) + (push_bit 16 (?w 1) + (push_bit 8 (?w 2) + ?w 3)) = be32 bs"
  proof -
    have "push_bit 8 (?w 2) + ?w 3 = push_bit 8 (?w 2) OR ?w 3"
      by (rule disjunctive_add) (metis bit_push_bit_iff n)
    moreover have "push_bit 16 (?w 1) + (push_bit 8 (?w 2) OR ?w 3) = push_bit 16 (?w 1) OR (push_bit 8 (?w 2) OR ?w 3)"
      by (rule disjunctive_add) (use n in \<open>force simp: bit_push_bit_iff bit_or_iff\<close>)
    moreover have "push_bit 24 (?w 0) + (push_bit 16 (?w 1) OR (push_bit 8 (?w 2) OR ?w 3))
        = push_bit 24 (?w 0) OR (push_bit 16 (?w 1) OR (push_bit 8 (?w 2) OR ?w 3))"
      by (rule disjunctive_add) (use n in \<open>force simp: bit_push_bit_iff bit_or_iff\<close>)
    ultimately show ?thesis by (simp add: be32_def or.assoc)
  qed
  then have "be32 bs = push_bit 24 (?w 0) + (push_bit 16 (?w 1) + (push_bit 8 (?w 2) + ?w 3))" by simp
  also have "\<dots> = word_of_nat (((unat (bs ! 0) * 256 + unat (bs ! 1)) * 256 + unat (bs ! 2)) * 256 + unat (bs ! 3))"
    by (simp add: push_bit_eq_mult algebra_simps unsigned_ucast_eq)
  finally have "unat (be32 bs) = take_bit 32 (((unat (bs ! 0) * 256 + unat (bs ! 1)) * 256 + unat (bs ! 2)) * 256 + unat (bs ! 3))"
    by (simp only: unsigned_of_nat) simp
  moreover have "((unat (bs ! 0) * 256 + unat (bs ! 1)) * 256 + unat (bs ! 2)) * 256 + unat (bs ! 3) < 2 ^ 32"
    using b [of 0] b [of 1] b [of 2] b [of 3] by simp
  ultimately show ?thesis by (simp only: take_bit_nat_eq_self)
qed

lemma put_be16_inject [simp]: "put_be16 v = put_be16 w \<longleftrightarrow> v = w"
  by (metis be16_put_be16)

lemma put_be32_inject [simp]: "put_be32 v = put_be32 w \<longleftrightarrow> v = w"
  by (metis be32_put_be32)

section \<open>crypto/sha256\<close>

text \<open>The hash of the Secure Hash Standard. Its constants are the leading 32 bits of the
  fractional parts of the cube roots of the first 64 primes and of the square roots of the first
  eight.\<close>

definition sha_k :: "32 word list" where
  "sha_k = [
    1116352408, 1899447441, 3049323471, 3921009573, 961987163, 1508970993,
    2453635748, 2870763221, 3624381080, 310598401, 607225278, 1426881987,
    1925078388, 2162078206, 2614888103, 3248222580, 3835390401, 4022224774,
    264347078, 604807628, 770255983, 1249150122, 1555081692, 1996064986,
    2554220882, 2821834349, 2952996808, 3210313671, 3336571891, 3584528711,
    113926993, 338241895, 666307205, 773529912, 1294757372, 1396182291,
    1695183700, 1986661051, 2177026350, 2456956037, 2730485921, 2820302411,
    3259730800, 3345764771, 3516065817, 3600352804, 4094571909, 275423344,
    430227734, 506948616, 659060556, 883997877, 958139571, 1322822218,
    1537002063, 1747873779, 1955562222, 2024104815, 2227730452, 2361852424,
    2428436474, 2756734187, 3204031479, 3329325298]"

definition sha_h :: "32 word list" where
  "sha_h = [
    1779033703, 3144134277, 1013904242, 2773480762, 1359893119, 2600822924, 528734635, 1541459225]"

text \<open>The working variables \<open>a\<close> to \<open>h\<close> of a block, and the extension of its sixteen words
  to the message schedule of sixty-four.\<close>

type_synonym sha_state = "32 word \<times> 32 word \<times> 32 word \<times> 32 word
  \<times> 32 word \<times> 32 word \<times> 32 word \<times> 32 word"

definition sha_init :: sha_state where
  "sha_init = (let h = sha_h in (h ! 0, h ! 1, h ! 2, h ! 3, h ! 4, h ! 5, h ! 6, h ! 7))"

fun sha_ext :: "nat \<Rightarrow> 32 word list \<Rightarrow> 32 word list" where
  "sha_ext 0 ws = ws"
| "sha_ext (Suc n) ws =
     (let t = length ws; x = ws ! (t - 15); y = ws ! (t - 2);
          s0 = word_rotr 7 x XOR word_rotr 18 x XOR drop_bit 3 x;
          s1 = word_rotr 17 y XOR word_rotr 19 y XOR drop_bit 10 y
      in sha_ext n (ws @ [s1 + ws ! (t - 7) + s0 + ws ! (t - 16)]))"

fun sha_round :: "sha_state \<Rightarrow> 32 word \<times> 32 word \<Rightarrow> sha_state" where
  "sha_round (a, b, c, d, e, f, g, h) (k, w) =
     (let s1 = word_rotr 6 e XOR word_rotr 11 e XOR word_rotr 25 e;
          ch = (e AND f) XOR (NOT e AND g);
          t1 = h + s1 + ch + k + w;
          s0 = word_rotr 2 a XOR word_rotr 13 a XOR word_rotr 22 a;
          maj = (a AND b) XOR (a AND c) XOR (b AND c);
          t2 = s0 + maj
      in (t1 + t2, a, b, c, d + t1, e, f, g))"

fun sha_add :: "sha_state \<Rightarrow> sha_state \<Rightarrow> sha_state" where
  "sha_add (a, b, c, d, e, f, g, h) (a', b', c', d', e', f', g', h') =
     (a + a', b + b', c + c', d + d', e + e', f + f', g + g', h + h')"

definition sha_block :: "sha_state \<Rightarrow> bytes \<Rightarrow> sha_state" where
  "sha_block st blk =
     (let ws = sha_ext 48 (map (\<lambda>i. be32 (drop (4 * i) blk)) [0..<16])
      in sha_add st (foldl sha_round st (zip sha_k ws)))"

definition sha_pad :: "bytes \<Rightarrow> bytes" where
  "sha_pad m = m @ [0x80] @ zeros ((119 - length m mod 64) mod 64)
     @ put_be64 (of_nat (8 * length m))"

fun sha_blocks :: "nat \<Rightarrow> sha_state \<Rightarrow> bytes \<Rightarrow> sha_state" where
  "sha_blocks 0 st m = st"
| "sha_blocks (Suc n) st m = sha_blocks n (sha_block st (take 64 m)) (drop 64 m)"

fun sha_digest :: "sha_state \<Rightarrow> bytes" where
  "sha_digest (a, b, c, d, e, f, g, h) = concat (map put_be32 [a, b, c, d, e, f, g, h])"

definition sha256 :: "bytes \<Rightarrow> bytes" where
  "sha256 m = (let p = sha_pad m in sha_digest (sha_blocks (length p div 64) sha_init p))"

lemma length_sha256 [simp, bytes_simps]: "length (sha256 m) = 32"
proof -
  have "length (sha_digest st) = 32" for st
    by (cases st rule: sha_digest.cases) simp
  then show ?thesis by (simp add: sha256_def Let_def)
qed

section \<open>crypto/hmac over SHA-256\<close>

definition hmac_key :: "bytes \<Rightarrow> bytes" where
  "hmac_key key = (let k = (if 64 < length key then sha256 key else key)
                   in k @ zeros (64 - length k))"

definition hmac_sha256 :: "bytes \<Rightarrow> bytes \<Rightarrow> bytes" where
  "hmac_sha256 key msg =
     (let k = hmac_key key
      in sha256 (map (\<lambda>b. b XOR 0x5c) k @ sha256 (map (\<lambda>b. b XOR 0x36) k @ msg)))"

lemma length_hmac_sha256 [simp, bytes_simps]: "length (hmac_sha256 key msg) = 32"
  by (simp add: hmac_sha256_def Let_def)

section \<open>encoding/hex\<close>

definition hex_val :: "char \<Rightarrow> nat option" where
  "hex_val c = (let n = of_char c in
     if 48 \<le> n \<and> n \<le> 57 then Some (n - 48)
     else if 97 \<le> n \<and> n \<le> 102 then Some (n - 87)
     else if 65 \<le> n \<and> n \<le> 70 then Some (n - 55)
     else None)"

text \<open>\<open>hex.DecodeString\<close>: pairs of digits; an odd digit left over is \<open>ErrLength\<close>.\<close>

fun hex_decode :: "string \<Rightarrow> bytes res" where
  "hex_decode [] = Ok []"
| "hex_decode [c] = (case hex_val c of
     None \<Rightarrow> Err (External ''encoding/hex: invalid byte'')
   | Some _ \<Rightarrow> Err (External ''encoding/hex: odd length hex string''))"
| "hex_decode (c # d # cs) = (case (hex_val c, hex_val d) of
     (Some h, Some l) \<Rightarrow> map_res (\<lambda>bs. word_of_nat (16 * h + l) # bs) (hex_decode cs)
   | _ \<Rightarrow> Err (External ''encoding/hex: invalid byte''))"

lemma hex_decode_length: "hex_decode s = Ok bs \<Longrightarrow> length s = 2 * length bs"
proof (induction s arbitrary: bs rule: hex_decode.induct)
  case (3 c d cs)
  then show ?case by (cases "hex_decode cs") (auto split: option.splits)
qed (auto split: option.splits)

section \<open>bytes and strings\<close>

text \<open>\<open>bytes.IndexByte\<close>: the first position of a byte, or \<open>-1\<close>.\<close>

fun index_byte :: "bytes \<Rightarrow> byte \<Rightarrow> int" where
  "index_byte [] c = -1"
| "index_byte (b # bs) c =
     (if b = c then 0 else (let i = index_byte bs c in if i < 0 then -1 else i + 1))"

lemma index_byte_cases: "index_byte bs c = -1 \<or> 0 \<le> index_byte bs c"
  by (induction bs) (auto simp: Let_def)

lemma index_byte_absent: "c \<notin> set bs \<Longrightarrow> index_byte (bs @ ds) c =
    (if index_byte ds c < 0 then -1 else int (length bs) + index_byte ds c)"
  using index_byte_cases [of ds c] by (induction bs) (auto simp: Let_def)

lemma index_byte_absent_Nil: "c \<notin> set bs \<Longrightarrow> index_byte bs c = -1"
  using index_byte_absent [of c bs "[]"] by simp

definition trim_prefix :: "string \<Rightarrow> string \<Rightarrow> string" where
  "trim_prefix s p = (if take (length p) s = p then drop (length p) s else s)"

text \<open>\<open>strings.EqualFold\<close> against an ASCII text with no letter \<open>k\<close> or \<open>s\<close> (the only
  ASCII letters with a non-ASCII simple folding) is equality of the ASCII lower case.\<close>

definition ascii_lower :: "char \<Rightarrow> char" where
  "ascii_lower c = (let n = of_char c :: nat in if 65 \<le> n \<and> n \<le> 90 then char_of (n + 32) else c)"

definition equal_fold :: "string \<Rightarrow> string \<Rightarrow> bool" where
  "equal_fold s t \<longleftrightarrow> map ascii_lower s = map ascii_lower t"

section \<open>encoding/gob for one string\<close>

text \<open>
  An unsigned integer below 128 is one byte; a larger one is a negated byte count followed by
  its big endian bytes. A top-level string is the message length, the type id 6 as a signed
  integer (12), a zero field delta, the length of the text and the text.
\<close>

fun be_digits :: "nat \<Rightarrow> bytes" where
  "be_digits n = (if n < 256 then [word_of_nat n] else be_digits (n div 256) @ [word_of_nat (n mod 256)])"

declare be_digits.simps [simp del]

definition gob_uint :: "nat \<Rightarrow> bytes" where
  "gob_uint n = (if n < 128 then [word_of_nat n]
     else (let ds = be_digits n in word_of_int (- int (length ds)) # ds))"

definition gob_encode_string :: "string \<Rightarrow> bytes" where
  "gob_encode_string s =
     (let body = [12, 0] @ gob_uint (length s) @ bytes_of_string s
      in gob_uint (length body) @ body)"

definition unexpected_eof :: error where
  "unexpected_eof = External ''unexpected EOF''"

definition gob_read_uint :: "bytes \<Rightarrow> (nat \<times> bytes) res" where
  "gob_read_uint bs = (case bs of
     [] \<Rightarrow> Err EOF
   | b # r \<Rightarrow>
       if b < 128 then Ok (unat b, r)
       else (let n = 256 - unat b in
         if 8 < n then Err (External ''gob: encoded unsigned integer out of range'')
         else if length r < n then Err unexpected_eof
         else Ok (foldl (\<lambda>a d. 256 * a + unat d) 0 (take n r), drop n r)))"

text \<open>\<open>gob.NewDecoder(r).Decode(&s)\<close> for a string \<open>s\<close>. A message of length zero makes
  the read of the type id hit \<open>io.EOF\<close>. A negative type id (an odd number here) starts a
  type definition, which the encoder of a string never sends and this model refuses.\<close>

definition gob_decode_string :: "bytes \<Rightarrow> string res" where
  "gob_decode_string bs = (case gob_read_uint bs of
     Ok (len, r) \<Rightarrow>
       if 2 ^ 30 \<le> len then Err (External ''gob: bad count'')
       else if length r < len then Err unexpected_eof
       else (case gob_read_uint (take len r) of
         Ok (id2, r1) \<Rightarrow>
           if id2 \<noteq> 12 then Err (External ''gob: type mismatch'')
           else (case gob_read_uint r1 of
             Ok (delta, r2) \<Rightarrow>
               if delta \<noteq> 0 then Err (External ''gob: decode: corrupted data: non-zero delta for singleton'')
               else (case gob_read_uint r2 of
                 Ok (n, r3) \<Rightarrow>
                   if length r3 < n then Err (External ''gob: invalid string length'')
                   else Ok (string_of_bytes (take n r3))
               | Err e \<Rightarrow> Err unexpected_eof | Halt p \<Rightarrow> Halt p)
           | Err e \<Rightarrow> Err unexpected_eof | Halt p \<Rightarrow> Halt p)
       | Err e \<Rightarrow> Err e | Halt p \<Rightarrow> Halt p)
   | Err e \<Rightarrow> Err e | Halt p \<Rightarrow> Halt p)"

lemma gob_read_uint_small:
  "n < 128 \<Longrightarrow> gob_read_uint (word_of_nat n # r) = Ok (n, r)"
  by (simp add: gob_read_uint_def word_less_nat_alt unat_of_nat)

lemma gob_uint_small: "n < 128 \<Longrightarrow> gob_uint n = [word_of_nat n]"
  by (simp add: gob_uint_def)

lemma gob_encode_string_short:
  "length s \<le> 124 \<Longrightarrow> gob_encode_string s =
     word_of_nat (length s + 3) # 12 # 0 # word_of_nat (length s) # bytes_of_string s"
  by (simp add: gob_encode_string_def gob_uint_small)

lemma length_gob_encode_string:
  "length s \<le> 124 \<Longrightarrow> length (gob_encode_string s) = length s + 4"
  by (simp add: gob_encode_string_short)

text \<open>Decoding undoes encoding, whatever follows the message.\<close>

lemma gob_decode_encode:
  assumes "length s \<le> 124"
  shows "gob_decode_string (gob_encode_string s @ rest) = Ok s"
proof -
  have len: "gob_read_uint (word_of_nat (length s + 3) # xs) = Ok (length s + 3, xs)" for xs
    using assms by (intro gob_read_uint_small) simp
  have id: "gob_read_uint (12 # xs) = Ok (12, xs)" and delta: "gob_read_uint (0 # xs) = Ok (0, xs)" for xs
    using gob_read_uint_small [of 12 xs] gob_read_uint_small [of 0 xs] by simp_all
  have n: "gob_read_uint (word_of_nat (length s) # xs) = Ok (length s, xs)" for xs
    using assms by (intro gob_read_uint_small) simp
  show ?thesis
    using assms
    by (simp add: gob_encode_string_short gob_decode_string_def len id delta n take_Cons'
        del: of_nat_add)
qed

text \<open>A region of zeros is an empty stream: this is how a blank RPMB sector is recognised.\<close>

lemma gob_decode_zeros: "0 < n \<Longrightarrow> gob_decode_string (zeros n) = Err EOF"
proof -
  assume "0 < n"
  then obtain m where "n = Suc m" by (cases n) auto
  moreover have "gob_read_uint (0 # xs) = Ok (0, xs)" for xs
    using gob_read_uint_small [of 0 xs] by simp
  ultimately show ?thesis
    by (simp add: gob_decode_string_def zeros_def) (simp add: gob_read_uint_def)
qed

text \<open>Messages of other lengths: the two length fields take a byte each below 128 and two or more from there
  on, so a text of more than 250 characters needs more than 256 bytes.\<close>

lemma gob_uint_byte: "128 \<le> n \<Longrightarrow> n < 256 \<Longrightarrow> gob_uint n = [255, word_of_nat n]"
  by (simp add: gob_uint_def be_digits.simps [of n])

lemma length_gob_uint: "1 \<le> length (gob_uint n)" "n < 256 \<Longrightarrow> length (gob_uint n) \<le> 2" "128 \<le> n \<Longrightarrow> 2 \<le> length (gob_uint n)"
proof -
  have "1 \<le> length (be_digits n)" by (simp add: be_digits.simps [of n])
  then show "1 \<le> length (gob_uint n)" "128 \<le> n \<Longrightarrow> 2 \<le> length (gob_uint n)" by (simp_all add: gob_uint_def Let_def)
  show "length (gob_uint n) \<le> 2" if "n < 256" using that by (cases "n < 128") (simp_all add: gob_uint_small gob_uint_byte)
qed

lemma gob_read_gob_uint:
  assumes "n < 256"
  shows "gob_read_uint (gob_uint n @ xs) = Ok (n, xs)"
proof (cases "n < 128")
  case True
  then show ?thesis using gob_read_uint_small [of n xs] by (simp add: gob_uint_small)
next
  case False
  with assms show ?thesis by (simp add: gob_uint_byte gob_read_uint_def unsigned_of_nat word_less_nat_alt take_bit_eq_mod)
qed

lemma gob_decode_cut:
  assumes "m < 256" and "length r < m"
  shows "gob_decode_string (gob_uint m @ r) = Err unexpected_eof"
  using assms gob_read_gob_uint [OF assms(1), of r] by (simp add: gob_decode_string_def)

lemma gob_encode_string_bounds:
  "length s \<le> 250 \<Longrightarrow> length (gob_encode_string s) \<le> 256" "250 < length s \<Longrightarrow> 256 < length (gob_encode_string s)"
  "length s + 4 \<le> length (gob_encode_string s)"
proof -
  let ?b = "[12, 0] @ gob_uint (length s) @ bytes_of_string s"
  have len: "length (gob_encode_string s) = length (gob_uint (length ?b)) + length ?b" "length ?b = 2 + length (gob_uint (length s)) + length s"
    by (simp_all add: gob_encode_string_def Let_def)
  show "length (gob_encode_string s) \<le> 256" if "length s \<le> 250"
    using that len length_gob_uint(2) [of "length s"] length_gob_uint(2) [of "length ?b"] by linarith
  show "256 < length (gob_encode_string s)" if "250 < length s"
    using that len length_gob_uint(3) [of "length s"] length_gob_uint(3) [of "length ?b"] by linarith
  show "length s + 4 \<le> length (gob_encode_string s)"
    using len length_gob_uint(1) [of "length s"] length_gob_uint(1) [of "length ?b"] by linarith
qed

text \<open>A truncated message is an error other than \<open>io.EOF\<close>.\<close>

lemma gob_decode_truncated:
  assumes "length s \<le> 250" and "2 \<le> k" and "k < length (gob_encode_string s)"
  shows "gob_decode_string (take k (gob_encode_string s)) = Err unexpected_eof"
proof -
  let ?b = "[12, 0] @ gob_uint (length s) @ bytes_of_string s"
  have enc: "gob_encode_string s = gob_uint (length ?b) @ ?b" by (simp add: gob_encode_string_def Let_def)
  have small: "length ?b < 256" using assms(1) length_gob_uint(2) [of "length s"] by simp
  then have h: "length (gob_uint (length ?b)) \<le> k" using length_gob_uint(2) [of "length ?b"] assms(2) by linarith
  then have "take k (gob_encode_string s) = gob_uint (length ?b) @ take (k - length (gob_uint (length ?b))) ?b" by (simp add: enc)
  moreover have "length (take (k - length (gob_uint (length ?b))) ?b) < length ?b" using assms(3) h unfolding enc by simp
  ultimately show ?thesis using gob_decode_cut [OF small] by presburger
qed

end
