(* ===== verification/Rpmb_Frame.thy ===== *)
theory Rpmb_Frame
  imports Go_Std
begin

text \<open>
  The data of package \<open>rpmb\<close> (\<open>src/rpmb/op.go\<close>): the message types and result codes, the
  request configuration and the 512-byte data frame with its byte layout. A Go array is a list
  whose length \<open>frame_ok\<close> states. The last section gives the layout lemmas: the frame codec is
  a bijection, and the authenticated part (the last 284 bytes) is every field but the stuff
  bytes and the MAC itself.
\<close>

section \<open>Constants\<close>

definition FrameLength :: nat where "FrameLength = 512"

definition macOffset :: nat where "macOffset = 284"

definition AuthenticationKeyProgramming :: byte where "AuthenticationKeyProgramming = 1"

definition WriteCounterRead :: byte where "WriteCounterRead = 2"

definition AuthenticatedDataWrite :: byte where "AuthenticatedDataWrite = 3"

definition AuthenticatedDataRead :: byte where "AuthenticatedDataRead = 4"

definition ResultReadRequest :: byte where "ResultReadRequest = 5"

definition AuthenticatedDeviceConfigurationWrite :: byte where
  "AuthenticatedDeviceConfigurationWrite = 6"

definition AuthenticatedDeviceConfigurationRead :: byte where
  "AuthenticatedDeviceConfigurationRead = 7"

lemmas message_types = AuthenticationKeyProgramming_def WriteCounterRead_def
  AuthenticatedDataWrite_def AuthenticatedDataRead_def ResultReadRequest_def
  AuthenticatedDeviceConfigurationWrite_def AuthenticatedDeviceConfigurationRead_def

definition OperationOK :: "16 word" where "OperationOK = 0"

definition GeneralFailure :: "16 word" where "GeneralFailure = 1"

definition AuthenticationFailure :: "16 word" where "AuthenticationFailure = 2"

definition CounterFailure :: "16 word" where "CounterFailure = 3"

definition AddressFailure :: "16 word" where "AddressFailure = 4"

definition WriteFailure :: "16 word" where "WriteFailure = 5"

definition ReadFailure :: "16 word" where "ReadFailure = 6"

definition AuthenticationKeyNotYetProgrammed :: "16 word" where
  "AuthenticationKeyNotYetProgrammed = 7"

lemmas result_codes = OperationOK_def GeneralFailure_def AuthenticationFailure_def
  CounterFailure_def AddressFailure_def WriteFailure_def ReadFailure_def
  AuthenticationKeyNotYetProgrammed_def

section \<open>Request configuration and data frame\<close>

record Config =
  RequestMAC :: bool
  ResponseMAC :: bool
  RandomNonce :: bool
  ResultRead :: bool

definition zero_config :: Config where
  "zero_config = \<lparr>RequestMAC = False, ResponseMAC = False, RandomNonce = False, ResultRead = False\<rparr>"

record DataFrame =
  StuffBytes :: bytes
  KeyMAC :: bytes
  Data :: bytes
  Nonce :: bytes
  WriteCounter :: bytes
  Address :: bytes
  BlockCount :: bytes
  Result :: bytes
  Resp :: byte
  Req :: byte

definition zero_frame :: DataFrame where
  "zero_frame = \<lparr>StuffBytes = zeros 196, KeyMAC = zeros 32, Data = zeros 256, Nonce = zeros 16,
     WriteCounter = zeros 4, Address = zeros 2, BlockCount = zeros 2, Result = zeros 2,
     Resp = 0, Req = 0\<rparr>"

text \<open>The array lengths of the Go type.\<close>

definition frame_ok :: "DataFrame \<Rightarrow> bool" where
  "frame_ok d \<longleftrightarrow> length (StuffBytes d) = 196 \<and> length (KeyMAC d) = 32 \<and> length (Data d) = 256
     \<and> length (Nonce d) = 16 \<and> length (WriteCounter d) = 4 \<and> length (Address d) = 2
     \<and> length (BlockCount d) = 2 \<and> length (Result d) = 2"

text \<open>\<open>DataFrame.Counter\<close> and \<open>DataFrame.Bytes\<close> (\<open>binary.Write\<close> of a struct of byte
  arrays is their concatenation).\<close>

definition frame_Counter :: "DataFrame \<Rightarrow> 32 word" where
  "frame_Counter d = be32 (WriteCounter d)"

definition Bytes :: "DataFrame \<Rightarrow> bytes" where
  "Bytes d = StuffBytes d @ KeyMAC d @ Data d @ Nonce d @ WriteCounter d @ Address d
     @ BlockCount d @ Result d @ [Resp d, Req d]"

text \<open>\<open>binary.Read\<close> of a frame: \<open>io.EOF\<close> on an empty reader, an unexpected end on a short one.\<close>

definition read_frame :: "bytes \<Rightarrow> DataFrame res" where
  "read_frame buf =
     (if buf = [] then Err EOF
      else if length buf < 512 then Err unexpected_eof
      else Ok \<lparr>StuffBytes = take 196 buf, KeyMAC = take 32 (drop 196 buf),
               Data = take 256 (drop 228 buf), Nonce = take 16 (drop 484 buf),
               WriteCounter = take 4 (drop 500 buf), Address = take 2 (drop 504 buf),
               BlockCount = take 2 (drop 506 buf), Result = take 2 (drop 508 buf),
               Resp = buf ! 510, Req = buf ! 511\<rparr>)"

text \<open>The bytes a MAC covers: \<open>[FrameLength-macOffset:]\<close>.\<close>

definition mac_part :: "bytes \<Rightarrow> bytes" where
  "mac_part buf = drop (FrameLength - macOffset) buf"

section \<open>Layout lemmas\<close>

lemma frame_ok_zero_frame [simp]: "frame_ok zero_frame"
  by (simp add: frame_ok_def zero_frame_def)

lemma frame_ok_update [simp]:
  "frame_ok d \<Longrightarrow> length x = 32 \<Longrightarrow> frame_ok (d\<lparr>KeyMAC := x\<rparr>)"
  "frame_ok d \<Longrightarrow> length x = 16 \<Longrightarrow> frame_ok (d\<lparr>Nonce := x\<rparr>)"
  "frame_ok d \<Longrightarrow> length x = 256 \<Longrightarrow> frame_ok (d\<lparr>Data := x\<rparr>)"
  "frame_ok d \<Longrightarrow> length x = 4 \<Longrightarrow> frame_ok (d\<lparr>WriteCounter := x\<rparr>)"
  "frame_ok d \<Longrightarrow> length x = 2 \<Longrightarrow> frame_ok (d\<lparr>Address := x\<rparr>)"
  "frame_ok d \<Longrightarrow> length x = 2 \<Longrightarrow> frame_ok (d\<lparr>BlockCount := x\<rparr>)"
  "frame_ok d \<Longrightarrow> length x = 2 \<Longrightarrow> frame_ok (d\<lparr>Result := x\<rparr>)"
  "frame_ok d \<Longrightarrow> frame_ok (d\<lparr>Resp := b\<rparr>)"
  "frame_ok d \<Longrightarrow> frame_ok (d\<lparr>Req := b\<rparr>)"
  by (simp_all add: frame_ok_def)

lemma length_Bytes [simp, bytes_simps]: "frame_ok d \<Longrightarrow> length (Bytes d) = FrameLength"
  by (simp add: Bytes_def frame_ok_def FrameLength_def)

lemma mac_part_Bytes:
  "frame_ok d \<Longrightarrow> mac_part (Bytes d) = Data d @ Nonce d @ WriteCounter d @ Address d
     @ BlockCount d @ Result d @ [Resp d, Req d]"
  by (simp add: mac_part_def Bytes_def frame_ok_def FrameLength_def macOffset_def)

lemma length_mac_part_Bytes: "frame_ok d \<Longrightarrow> length (mac_part (Bytes d)) = macOffset"
  by (simp add: mac_part_def FrameLength_def macOffset_def)

lemma read_frame_Bytes [simp]: "frame_ok d \<Longrightarrow> read_frame (Bytes d) = Ok d"
proof -
  assume ok: "frame_ok d"
  then have len: "length (Bytes d) = 512" by (simp add: FrameLength_def)
  then have ne: "Bytes d \<noteq> []" by auto
  have "Bytes d ! 510 = Resp d" "Bytes d ! 511 = Req d"
    using ok by (simp_all add: Bytes_def frame_ok_def nth_append)
  with ok len ne show ?thesis
    by (simp add: read_frame_def) (simp add: Bytes_def frame_ok_def)
qed

lemma read_frame_ok:
  assumes "length buf = FrameLength" and "read_frame buf = Ok d"
  shows "frame_ok d" and "Bytes d = buf"
proof -
  have len: "length buf = 512" using assms(1) by (simp add: FrameLength_def)
  then have d: "d = \<lparr>StuffBytes = take 196 buf, KeyMAC = take 32 (drop 196 buf),
               Data = take 256 (drop 228 buf), Nonce = take 16 (drop 484 buf),
               WriteCounter = take 4 (drop 500 buf), Address = take 2 (drop 504 buf),
               BlockCount = take 2 (drop 506 buf), Result = take 2 (drop 508 buf),
               Resp = buf ! 510, Req = buf ! 511\<rparr>"
    using assms(2) by (auto simp: read_frame_def split: if_splits)
  show "frame_ok d" using len by (simp add: d frame_ok_def)
  have tl: "drop 510 buf = [buf ! 510, buf ! 511]"
    using len by (simp add: Cons_nth_drop_Suc [symmetric])
  have split: "take n (drop k buf) @ drop (n + k) buf = drop k buf" for n k
    by (metis append_take_drop_id drop_drop)
  have "Bytes d = take 196 buf @ drop 196 buf"
    using split [of 32 196] split [of 256 228] split [of 16 484] split [of 4 500]
      split [of 2 504] split [of 2 506] split [of 2 508]
    by (simp add: d Bytes_def tl [symmetric])
  then show "Bytes d = buf" by simp
qed

lemma read_frame_total:
  "length buf = FrameLength \<Longrightarrow> \<exists>d. read_frame buf = Ok d"
  by (auto simp: read_frame_def FrameLength_def)

text \<open>Two frames agree on the authenticated part exactly when they agree on every field
  behind the MAC.\<close>

lemma mac_part_eq_iff:
  assumes "frame_ok d" and "frame_ok e"
  shows "mac_part (Bytes d) = mac_part (Bytes e) \<longleftrightarrow>
    Data d = Data e \<and> Nonce d = Nonce e \<and> WriteCounter d = WriteCounter e
    \<and> Address d = Address e \<and> BlockCount d = BlockCount e \<and> Result d = Result e
    \<and> Resp d = Resp e \<and> Req d = Req e"
  using assms by (auto simp: mac_part_Bytes frame_ok_def)

end
