(* ===== verification/Versions.thy ===== *)
theory Versions
  imports Prelude
begin

text \<open>
  Semantic versions and anti-rollback checks. The \<open>semver\<close> package is outside the repository:
  a record of the operations used, with the documented laws of precedence in the locale
  \<open>semver_ops\<close>. \<open>check_version\<close> is the text that \<open>checkVersion\<close> has in both
  \<open>src/trusted_os/rpmb.go\<close> and \<open>src/trusted_os/rpmb_fake.go\<close>, over the two methods it
  calls. \<open>version_store\<close> says what these must promise for rollback protection, which is then
  proved for every sequence of checks.
\<close>

section \<open>Semantic versions\<close>

record 'v semver =
  NewVersion :: "string \<Rightarrow> 'v res"
  Version_String :: "'v \<Rightarrow> string"
  LessThan :: "'v \<Rightarrow> 'v \<Rightarrow> bool"
  Equal :: "'v \<Rightarrow> 'v \<Rightarrow> bool"

locale semver_ops =
  fixes sv :: "'v semver"
  assumes parse_print: "NewVersion sv s = Ok v \<Longrightarrow> NewVersion sv (Version_String sv v) = Ok v"
    and parse_zero: "is_Ok (NewVersion sv ''0.0.0'')"
    and less_irrefl: "\<not> LessThan sv a a"
    and less_trans: "LessThan sv a b \<Longrightarrow> LessThan sv b c \<Longrightarrow> LessThan sv a c"
    and less_weak: "LessThan sv a c \<Longrightarrow> LessThan sv a b \<or> LessThan sv b c"
    and equal_iff: "Equal sv a b \<longleftrightarrow> \<not> LessThan sv a b \<and> \<not> LessThan sv b a"

section \<open>The check\<close>

definition parseVersion :: "'v semver \<Rightarrow> string \<Rightarrow> 'v res" where
  "parseVersion sv s = NewVersion sv s"

declare parseVersion_def [simp]

definition check_version ::
  "'v semver \<Rightarrow> ('o \<Rightarrow> ('s, 'v) io) \<Rightarrow> ('o \<Rightarrow> 'v \<Rightarrow> ('s, unit) io) \<Rightarrow> 'o \<Rightarrow> string \<Rightarrow> ('s, unit) io" where
  "check_version sv expected update offset s =
     bindS (liftRes (parseVersion sv s)) (\<lambda>runningVersion.
     bindS (expected offset) (\<lambda>expectedVersion.
       if LessThan sv runningVersion expectedVersion then failS (ErrorsNew ''version mismatch'')
       else if Equal sv expectedVersion runningVersion then retS ()
       else if LessThan sv expectedVersion runningVersion then update offset runningVersion
       else retS ()))"

text \<open>Checks in sequence, and which of them passed.\<close>

fun check_seq :: "('o \<Rightarrow> string \<Rightarrow> ('s, unit) io) \<Rightarrow> ('o \<times> string) list \<Rightarrow> 's \<Rightarrow> bool list" where
  "check_seq check [] s = []"
| "check_seq check ((offset, v) # vs) s =
     (case check offset v s of (r, s') \<Rightarrow> is_Ok r # check_seq check vs s')"

lemma length_check_seq [simp]: "length (check_seq check vs s) = length vs"
  by (induction vs arbitrary: s) (auto split: prod.splits)

text \<open>The state after them.\<close>

fun check_after :: "('o \<Rightarrow> string \<Rightarrow> ('s, unit) io) \<Rightarrow> ('o \<times> string) list \<Rightarrow> 's \<Rightarrow> 's" where
  "check_after check [] s = s"
| "check_after check ((offset, v) # vs) s = check_after check vs (snd (check offset v s))"

section \<open>Abstract version registers\<close>

text \<open>What rollback protection is meant to be: one register per sector, which holds the most recent
  version accepted so far and only ever advances.\<close>

definition register_check :: "'v semver \<Rightarrow> 'o \<Rightarrow> string \<Rightarrow> ('o \<Rightarrow> 'v) \<Rightarrow> bool \<times> ('o \<Rightarrow> 'v)" where
  "register_check sv x str reg =
     (case NewVersion sv str of
        Ok v \<Rightarrow> if LessThan sv v (reg x) then (False, reg)
                else (True, if LessThan sv (reg x) v then reg(x := v) else reg)
      | _ \<Rightarrow> (False, reg))"

fun register_run :: "'v semver \<Rightarrow> ('o \<times> string) list \<Rightarrow> ('o \<Rightarrow> 'v) \<Rightarrow> bool list \<times> ('o \<Rightarrow> 'v)" where
  "register_run sv [] reg = ([], reg)"
| "register_run sv ((x, str) # vs) reg =
     (case register_check sv x str reg of (ok, reg1) \<Rightarrow>
      case register_run sv vs reg1 of (oks, reg2) \<Rightarrow> (ok # oks, reg2))"

section \<open>What the store promises, and what follows\<close>

text \<open>\<open>room s\<close> is the number of further updates the store can take.\<close>

locale version_store = semver_ops sv
  for sv :: "'v semver" +
  fixes expected :: "'o \<Rightarrow> ('s, 'v) io"
    and update :: "'o \<Rightarrow> 'v \<Rightarrow> ('s, unit) io"
    and stored :: "'s \<Rightarrow> 'o \<Rightarrow> 'v res"
    and ready :: "'s \<Rightarrow> bool"
    and room :: "'s \<Rightarrow> nat"
    and storable :: "'v \<Rightarrow> bool"
  assumes expected_law: "ready s \<Longrightarrow>
      \<exists>s'. expected x s = (stored s x, s') \<and> ready s' \<and> stored s' = stored s \<and> room s' = room s"
    and update_law: "ready s \<Longrightarrow> 0 < room s \<Longrightarrow> storable v \<Longrightarrow> NewVersion sv (Version_String sv v) = Ok v \<Longrightarrow>
      \<exists>s'. update x v s = (Ok (), s') \<and> ready s' \<and> stored s' = (stored s)(x := Ok v)
        \<and> room s \<le> Suc (room s')"
begin

abbreviation "lt \<equiv> LessThan sv"
abbreviation "check \<equiv> check_version sv expected update"

lemma lt_asym: "lt a b \<Longrightarrow> \<not> lt b a"
  using less_trans less_irrefl by blast

text \<open>One check against a readable entry.\<close>

lemma check_ok:
  assumes "ready s" and "0 < room s" and "NewVersion sv str = Ok v" and "storable v"
    and "stored s x = Ok e"
  shows "\<exists>s'. check x str s = (if lt v e then Err (ErrorsNew ''version mismatch'') else Ok (), s')
    \<and> ready s' \<and> room s \<le> Suc (room s')
    \<and> stored s' = (if lt e v then (stored s)(x := Ok v) else stored s)"
proof -
  obtain s1 where s1: "expected x s = (Ok e, s1)" "ready s1" "stored s1 = stored s" "room s1 = room s"
    using expected_law [OF assms(1), of x] assms(5) by auto
  obtain s2 where s2: "update x v s1 = (Ok (), s2)" "ready s2" "stored s2 = (stored s1)(x := Ok v)"
      "room s1 \<le> Suc (room s2)"
    using update_law [OF s1(2), of v x] assms(2,4) s1(4) parse_print [OF assms(3)] by auto
  from s1 s2 assms(3) show ?thesis
    by (auto simp: check_version_def bindS_apply equal_iff dest: lt_asym)
qed

lemma check_older:
  assumes "ready s" and "NewVersion sv str = Ok v" and "stored s x = Ok e" and "lt v e"
  shows "\<exists>s'. check x str s = (Err (ErrorsNew ''version mismatch''), s') \<and> ready s' \<and> stored s' = stored s \<and> room s' = room s"
  using expected_law [OF assms(1), of x] assms(2-4) by (auto simp: check_version_def bindS_apply)

lemma check_unreadable:
  assumes "ready s" and "NewVersion sv str = Ok v" and "\<not> is_Ok (stored s x)"
  shows "\<exists>r s'. check x str s = (r, s') \<and> \<not> is_Ok r \<and> ready s' \<and> stored s' = stored s \<and> room s' = room s"
proof -
  obtain s1 where "expected x s = (stored s x, s1)" "ready s1" "stored s1 = stored s" "room s1 = room s"
    using expected_law [OF assms(1)] by blast
  with assms(2,3) show ?thesis
    by (cases "stored s x") (auto simp: check_version_def bindS_apply)
qed

lemma check_unparsable: "\<not> is_Ok (NewVersion sv str) \<Longrightarrow> snd (check x str s) = s \<and> \<not> is_Ok (fst (check x str s))"
  by (cases "NewVersion sv str") (auto simp: check_version_def bindS_apply)

lemma check_step:
  assumes "ready s" and "0 < room s" and "\<And>v. NewVersion sv str = Ok v \<Longrightarrow> storable v"
    and "check x str s = (r, s')"
  shows "ready s' \<and> room s \<le> Suc (room s') \<and> (\<forall>y. y \<noteq> x \<longrightarrow> stored s' y = stored s y)
    \<and> (\<forall>e. stored s x = Ok e \<longrightarrow> (\<exists>e'. stored s' x = Ok e' \<and> \<not> lt e' e))
    \<and> (is_Ok r \<longrightarrow> (\<exists>v e e'. NewVersion sv str = Ok v \<and> stored s x = Ok e \<and> \<not> lt v e
        \<and> stored s' x = Ok e' \<and> \<not> lt e' v))"
proof (cases "is_Ok (NewVersion sv str)")
  case False
  with check_unparsable [OF this, of x s] assms show ?thesis by (auto simp: less_irrefl)
next
  case True
  then obtain v where v: "NewVersion sv str = Ok v" by (auto simp: is_Ok_iff)
  show ?thesis
  proof (cases "is_Ok (stored s x)")
    case False
    with check_unreadable [OF assms(1) v False] assms(4) show ?thesis by auto
  next
    case True
    then obtain e where e: "stored s x = Ok e" by (auto simp: is_Ok_iff)
    from check_ok [OF assms(1,2) v assms(3) [OF v] e] assms(4) v e show ?thesis
      by (auto simp: less_irrefl dest: lt_asym split: if_splits)
  qed
qed

text \<open>The store refines the registers: one check, then any sequence.\<close>

lemma check_refines:
  assumes "ready s" and "0 < room s" and "\<And>v. NewVersion sv str = Ok v \<Longrightarrow> storable v"
    and "x \<in> X" and "\<And>y. y \<in> X \<Longrightarrow> stored s y = Ok (reg y)"
    and "check x str s = (r, s')" and "register_check sv x str reg = (ok, reg')"
  shows "ready s' \<and> room s \<le> Suc (room s') \<and> is_Ok r = ok \<and> (\<forall>y \<in> X. stored s' y = Ok (reg' y))"
proof (cases "is_Ok (NewVersion sv str)")
  case False
  with check_unparsable [OF this, of x s] assms(1,5-7) show ?thesis
    by (cases "NewVersion sv str") (auto simp: register_check_def)
next
  case True
  then obtain v where v: "NewVersion sv str = Ok v" by (auto simp: is_Ok_iff)
  from check_ok [OF assms(1,2) v assms(3) [OF v] assms(5) [OF assms(4)]] assms(5-7) v show ?thesis
    by (auto simp: register_check_def dest: lt_asym split: if_splits)
qed

lemma checks_refine_registers:
  assumes "ready s" and "length vs \<le> room s"
    and "\<And>x str v. (x, str) \<in> set vs \<Longrightarrow> NewVersion sv str = Ok v \<Longrightarrow> storable v"
    and "fst ` set vs \<subseteq> X" and "\<And>x. x \<in> X \<Longrightarrow> stored s x = Ok (reg x)"
  shows "check_seq check vs s = fst (register_run sv vs reg)
    \<and> (\<forall>x \<in> X. stored (check_after check vs s) x = Ok (snd (register_run sv vs reg) x))"
  using assms
proof (induction vs arbitrary: s reg)
  case (Cons c vs)
  obtain x str where c: "c = (x, str)" by (cases c)
  obtain r s1 where run: "check x str s = (r, s1)" by (cases "check x str s")
  obtain ok reg1 where reg1: "register_check sv x str reg = (ok, reg1)" by (cases "register_check sv x str reg")
  have st: "\<And>v. NewVersion sv str = Ok v \<Longrightarrow> storable v" using Cons.prems(3) [of x str] by (simp add: c)
  have "0 < room s" "x \<in> X" using Cons.prems(2,4) by (auto simp: c)
  note step = check_refines [OF Cons.prems(1) this(1) st this(2) Cons.prems(5) run reg1]
  have "check_seq check vs s1 = fst (register_run sv vs reg1)
      \<and> (\<forall>x \<in> X. stored (check_after check vs s1) x = Ok (snd (register_run sv vs reg1) x))"
    by (rule Cons.IH) (use step Cons.prems(2-4) in \<open>auto simp: c\<close>)
  with step run reg1 show ?case by (simp add: c split: prod.split)
qed simp

lemma check_floor:
  assumes "ready s" and "length vs \<le> room s"
    and "\<And>x str v. (x, str) \<in> set vs \<Longrightarrow> NewVersion sv str = Ok v \<Longrightarrow> storable v"
    and "stored s x = Ok e" and "j < length vs" and "vs ! j = (x, str)" and "check_seq check vs s ! j"
  shows "\<exists>b. NewVersion sv str = Ok b \<and> \<not> lt b e"
  using assms
proof (induction vs arbitrary: s e j)
  case (Cons c vs)
  obtain y str1 where c: "c = (y, str1)" by (cases c)
  obtain r s1 where run: "check y str1 s = (r, s1)" by (cases "check y str1 s")
  have st: "\<And>v. NewVersion sv str1 = Ok v \<Longrightarrow> storable v" using Cons.prems(3) [of y str1] by (simp add: c)
  have room: "0 < room s" using Cons.prems(2) by simp
  note step = check_step [OF Cons.prems(1) room st run]
  show ?case
  proof (cases j)
    case 0
    with Cons.prems step run show ?thesis by (auto simp: c)
  next
    case (Suc k)
    obtain e1 where e1: "stored s1 x = Ok e1" "\<not> lt e1 e"
      using step Cons.prems(4) less_irrefl by (cases "y = x") auto
    have "\<exists>b. NewVersion sv str = Ok b \<and> \<not> lt b e1"
    proof (rule Cons.IH [of s1 e1 k])
      show "ready s1" "length vs \<le> room s1" using step Cons.prems(2) by auto
      show "\<And>x str v. (x, str) \<in> set vs \<Longrightarrow> NewVersion sv str = Ok v \<Longrightarrow> storable v"
        using Cons.prems(3) by auto
    qed (use e1 Cons.prems(5-7) Suc run in \<open>auto simp: c\<close>)
    with e1(2) show ?thesis using less_weak by blast
  qed
qed simp

lemma accepted_never_older:
  assumes "ready s" and "length vs \<le> room s"
    and "\<And>x str v. (x, str) \<in> set vs \<Longrightarrow> NewVersion sv str = Ok v \<Longrightarrow> storable v"
    and "i < j" and "j < length vs" and "vs ! i = (x, old)" and "vs ! j = (x, new)"
    and "check_seq check vs s ! i" and "check_seq check vs s ! j"
  shows "\<exists>a b. NewVersion sv old = Ok a \<and> NewVersion sv new = Ok b \<and> \<not> lt b a"
  using assms
proof (induction vs arbitrary: s i j)
  case (Cons c vs)
  obtain y str1 where c: "c = (y, str1)" by (cases c)
  obtain r s1 where run: "check y str1 s = (r, s1)" by (cases "check y str1 s")
  have st: "\<And>v. NewVersion sv str1 = Ok v \<Longrightarrow> storable v" using Cons.prems(3) [of y str1] by (simp add: c)
  have room: "0 < room s" using Cons.prems(2) by simp
  note step = check_step [OF Cons.prems(1) room st run]
  then have s1: "ready s1" "length vs \<le> room s1" using Cons.prems(2) by auto
  have st': "\<And>x str v. (x, str) \<in> set vs \<Longrightarrow> NewVersion sv str = Ok v \<Longrightarrow> storable v"
    using Cons.prems(3) by auto
  obtain j' where j: "j = Suc j'" using Cons.prems(4) by (cases j) auto
  show ?case
  proof (cases i)
    case 0
    then obtain a e' where a: "NewVersion sv old = Ok a" "stored s1 x = Ok e'" "\<not> lt e' a"
      using step Cons.prems(6,8) run by (auto simp: c)
    have "\<exists>b. NewVersion sv new = Ok b \<and> \<not> lt b e'"
      by (rule check_floor [where j = j', OF s1 st' a(2)]) (use Cons.prems(5,7,9) j run in \<open>auto simp: c\<close>)
    with a show ?thesis using less_weak by blast
  next
    case (Suc i')
    show ?thesis
      by (rule Cons.IH [where i = i' and j = j', OF s1 st']) (use Cons.prems(4-9) j Suc run in \<open>auto simp: c\<close>)
  qed
qed simp

end

section \<open>Versions of three digits\<close>

text \<open>A small instance for concrete runs: one digit each for major, minor and patch.\<close>

definition digit_of :: "char \<Rightarrow> nat" where "digit_of c = of_char c - 48"

definition is_digit :: "char \<Rightarrow> bool" where "is_digit c \<longleftrightarrow> 48 \<le> (of_char c :: nat) \<and> (of_char c :: nat) \<le> 57"

fun tiny_NewVersion :: "string \<Rightarrow> (nat \<times> nat \<times> nat) res" where
  "tiny_NewVersion [a, d1, b, d2, c] =
     (if d1 = CHR ''.'' \<and> d2 = CHR ''.'' \<and> is_digit a \<and> is_digit b \<and> is_digit c
      then Ok (digit_of a, digit_of b, digit_of c)
      else Err (External ''invalid version''))"
| "tiny_NewVersion _ = Err (External ''invalid version'')"

definition tiny_String :: "nat \<times> nat \<times> nat \<Rightarrow> string" where
  "tiny_String v = (case v of (a, b, c) \<Rightarrow>
     [char_of (a + 48), CHR ''.'', char_of (b + 48), CHR ''.'', char_of (c + 48)])"

definition tiny_less :: "nat \<times> nat \<times> nat \<Rightarrow> nat \<times> nat \<times> nat \<Rightarrow> bool" where
  "tiny_less v w = (case (v, w) of ((a, b, c), (a', b', c')) \<Rightarrow>
     a < a' \<or> a = a' \<and> (b < b' \<or> b = b' \<and> c < c'))"

definition tiny_semver :: "(nat \<times> nat \<times> nat) semver" where
  "tiny_semver = \<lparr>NewVersion = tiny_NewVersion, Version_String = tiny_String, LessThan = tiny_less,
     Equal = (=)\<rparr>"

lemma tiny_digit: "is_digit c \<Longrightarrow> char_of (digit_of c + 48) = c"
  by (simp add: is_digit_def digit_of_def)

lemma tiny_parse_print: "tiny_NewVersion s = Ok v \<Longrightarrow> tiny_NewVersion (tiny_String v) = Ok v"
  by (induction s rule: tiny_NewVersion.induct) (auto simp: tiny_String_def tiny_digit split: if_splits)

interpretation tiny: semver_ops tiny_semver
  by unfold_locales
    (auto simp: tiny_semver_def tiny_parse_print tiny_less_def is_digit_def digit_of_def split: prod.splits)

end
