(* ===== verification/Rollback_Fake.thy ===== *)
theory Rollback_Fake
  imports Rpmb_Frame Versions
begin

text \<open>
  The in-memory replacement of rollback protection (\<open>src/trusted_os/rpmb_fake.go\<close>, build tag
  \<open>fake_rpmb\<close>): sixteen sectors of 256 bytes and a counter. Indexing a sector that does not
  exist panics.
\<close>

section \<open>Definitions\<close>

definition sectorLength :: nat where "sectorLength = 256"

definition numSectors :: nat where "numSectors = 16"

definition fake_versionLength :: nat where "fake_versionLength = 32"

definition fake_osVersionSector :: "16 word" where "fake_osVersionSector = 1"

definition fake_taVersionSector :: "16 word" where "fake_taVersionSector = 2"

definition fake_taUserSector :: "16 word" where "fake_taUserSector = 3"

text \<open>The sectors in use exist and are different.\<close>

lemma fake_sectors:
  "distinct [fake_osVersionSector, fake_taVersionSector, fake_taUserSector]"
  "x \<in> {fake_osVersionSector, fake_taVersionSector, fake_taUserSector} \<Longrightarrow> unat x < numSectors"
  by (auto simp: fake_osVersionSector_def fake_taVersionSector_def fake_taUserSector_def numSectors_def)

record fakeRPMB =
  fr_mem :: "bytes list"
  fr_counter :: "32 word"

definition fake_newRPMB :: "fakeRPMB res" where
  "fake_newRPMB = Ok \<lparr>fr_mem = replicate numSectors (zeros sectorLength), fr_counter = 0\<rparr>"

definition fake_init :: "(fakeRPMB, unit) io" where
  "fake_init = retS ()"

definition index_panic :: string where "index_panic = ''index out of range''"

definition fake_expectedVersion :: "'v semver \<Rightarrow> 16 word \<Rightarrow> (fakeRPMB, 'v) io" where
  "fake_expectedVersion sv offset s =
     (if length (fr_mem s) \<le> unat offset then (Halt index_panic, s)
      else (NewVersion sv (string_of_bytes (take fake_versionLength (fr_mem s ! unat offset))), s))"

definition fake_updateVersion :: "'v semver \<Rightarrow> 16 word \<Rightarrow> 'v \<Rightarrow> (fakeRPMB, unit) io" where
  "fake_updateVersion sv offset version s =
     (if length (fr_mem s) \<le> unat offset then (Halt index_panic, s)
      else (Ok (), s\<lparr>fr_mem := (fr_mem s)[unat offset :=
                      go_copy (fr_mem s ! unat offset) (bytes_of_string (Version_String sv version))],
                    fr_counter := fr_counter s + 1\<rparr>))"

definition fake_checkVersion :: "'v semver \<Rightarrow> 16 word \<Rightarrow> string \<Rightarrow> (fakeRPMB, unit) io" where
  "fake_checkVersion sv = check_version sv (fake_expectedVersion sv) (fake_updateVersion sv)"

text \<open>As for the real partition: the error, and the caller's buffer and counter after the call.\<close>

definition fake_transfer ::
  "16 word \<Rightarrow> bytes \<Rightarrow> 32 word option \<Rightarrow> bool \<Rightarrow> (fakeRPMB, error option \<times> bytes \<times> 32 word option) io" where
  "fake_transfer sector buf n write s =
     (if FrameLength div 2 < length buf
      then (Ok (Some (ErrorsNew ''transfer size must not exceed 256 bytes''), buf, n), s)
      else if length (fr_mem s) \<le> unat sector then (Halt index_panic, s)
      else
        let s' = (if write
                  then s\<lparr>fr_mem := (fr_mem s)[unat sector := go_copy (fr_mem s ! unat sector) buf],
                         fr_counter := fr_counter s + 1\<rparr>
                  else s);
            buf' = (if write then buf else go_copy buf (fr_mem s ! unat sector))
        in (Ok (None, buf', map_option (\<lambda>_. fr_counter s') n), s'))"

section \<open>Lemmas\<close>

definition fake_rpmb_ok :: "fakeRPMB \<Rightarrow> bool" where
  "fake_rpmb_ok s \<longleftrightarrow> length (fr_mem s) = 16 \<and> (\<forall>b \<in> set (fr_mem s). length b = 256)"

lemmas fake_ops_defs = fake_updateVersion_def fake_expectedVersion_def fake_transfer_def

lemma keeps_fake_ok [keeps_rules]:
  "keeps fake_rpmb_ok (fake_transfer sector buf n write)"
  "keeps fake_rpmb_ok (fake_expectedVersion sv offset)"
  "keeps fake_rpmb_ok (fake_updateVersion sv offset v)"
  by (auto simp: keeps_def fake_ops_defs fake_rpmb_ok_def Let_def set_update_subsetI
      dest!: subsetD [OF set_update_subset_insert])

lemma keeps_liftRes [keeps_rules]: "keeps I (liftRes r)"
  by (simp add: keeps_def)

section \<open>Properties\<close>

text \<open>The fake partition keeps its shape (sixteen sectors of 256 bytes) under every operation,
  from the moment it is created.\<close>

lemma fake_rpmb_invariant:
  "(\<forall>s. fake_newRPMB = Ok s \<longrightarrow> fake_rpmb_ok s) \<and> keeps fake_rpmb_ok fake_init
    \<and> keeps fake_rpmb_ok (fake_checkVersion sv offset str)
    \<and> keeps fake_rpmb_ok (fake_transfer sector buf n write)"
  by (auto simp: fake_newRPMB_def fake_rpmb_ok_def numSectors_def sectorLength_def fake_init_def
      fake_checkVersion_def check_version_def intro!: keeps_rules)

lemma fake_rpmb_invariant_example:
  "fake_rpmb_ok (snd (fake_transfer 3 [1, 2] None True \<lparr>fr_mem = replicate 16 (zeros 256), fr_counter = 0\<rparr>))"
proof -
  let ?s = "\<lparr>fr_mem = replicate 16 (zeros 256), fr_counter = 0\<rparr>"
  have "fake_newRPMB = Ok ?s" by (simp add: fake_newRPMB_def numSectors_def sectorLength_def)
  with fake_rpmb_invariant [of tiny_semver 2 "''1.0.0''" 3 "[1, 2]" None True] show ?thesis
    by (simp add: keeps_def)
qed

text \<open>Data transfers of the fake partition. A write followed by a read of the same sector returns
  the written bytes, and the counter comes back with every successful transfer.\<close>

lemma fake_transfer_roundtrip:
  assumes "fake_rpmb_ok s" and "unat sector < 16" and "length buf \<le> 256" and "length buf2 = length buf"
  shows "\<exists>s1. fake_transfer sector buf (Some a) True s = (Ok (None, buf, Some (fr_counter s + 1)), s1)
    \<and> fake_transfer sector buf2 (Some b) False s1 = (Ok (None, buf, Some (fr_counter s + 1)), s1)"
  using assms
  by (auto simp: fake_transfer_def fake_rpmb_ok_def FrameLength_def go_copy_def)

definition demo_fake :: fakeRPMB where
  "demo_fake = \<lparr>fr_mem = replicate 16 (zeros 256), fr_counter = 0\<rparr>"

lemma demo_fake_ok: "fake_rpmb_ok demo_fake"
  by (simp add: demo_fake_def fake_rpmb_ok_def)

text \<open>With a \<open>semver\<close> parser that refuses texts containing a NUL character, the fake
  partition's version checks always fail and change nothing on a sector whose first 32 bytes
  contain a zero byte, a freshly created partition included.\<close>

lemma fake_checkVersion_fails:
  assumes "\<And>str. CHR 0x00 \<in> set str \<Longrightarrow> \<not> is_Ok (NewVersion sv str)"
    and "unat offset < length (fr_mem s)" and "0 \<in> set (take 32 (fr_mem s ! unat offset))"
  shows "\<not> is_Ok (fst (fake_checkVersion sv offset str s)) \<and> snd (fake_checkVersion sv offset str s) = s"
proof -
  have nul: "char_of_byte 0 = CHR 0x00" by (simp add: char_of_byte_def char_of_def)
  have "CHR 0x00 \<in> set (string_of_bytes (take 32 (fr_mem s ! unat offset)))"
    using imageI [OF assms(3), of char_of_byte] unfolding nul string_of_bytes_def set_map .
  then have "\<not> is_Ok (fst (fake_expectedVersion sv offset s)) \<and> snd (fake_expectedVersion sv offset s) = s"
    using assms(1,2) by (simp add: fake_expectedVersion_def fake_versionLength_def)
  then show ?thesis
    by (auto simp: fake_checkVersion_def check_version_def bindS_apply split: res.splits prod.splits)
qed

lemma tiny_rejects_NUL: "CHR 0x00 \<in> set str \<Longrightarrow> \<not> is_Ok (NewVersion tiny_semver str)"
  by (induction str rule: tiny_NewVersion.induct) (auto simp: tiny_semver_def is_digit_def)

lemma fake_checkVersion_fails_example:
  "\<not> is_Ok (fst (fake_checkVersion tiny_semver 2 ''1.2.3'' demo_fake))
    \<and> snd (fake_checkVersion tiny_semver 2 ''1.2.3'' demo_fake) = demo_fake"
  by (rule fake_checkVersion_fails [OF tiny_rejects_NUL]) (simp_all add: demo_fake_def zeros_def)

end
