(* ===== verification/Card.thy ===== *)
theory Card
  imports Prelude
begin

text \<open>
  The storage interface of the Trusted OS: the Go interface \<open>Card\<close> of
  \<open>src/trusted_os/flash.go\<close> as a record of operations on a world \<open>'w\<close>, and what its
  clients rely on, as two locales over a byte image of the medium. \<open>card_frame\<close> speaks of any
  outcome, a failed or interrupted write included: bytes outside the written blocks stay, and a
  write that reports success has stored its data. \<open>block_card\<close> adds that reads and writes
  inside the capacity succeed.
\<close>

section \<open>The interface\<close>

text \<open>The fields of the driver's \<open>CardInfo\<close> that the repository uses.\<close>

record CardInfo =
  MMC :: bool
  BlockSize :: int
  Blocks :: int

record 'w Card =
  card_Read :: "int \<Rightarrow> int \<Rightarrow> ('w, bytes) io"
  card_WriteBlocks :: "int \<Rightarrow> bytes \<Rightarrow> ('w, unit) io"
  card_Info :: "'w \<Rightarrow> CardInfo"
  card_Detect :: "('w, unit) io"

section \<open>Byte images\<close>

type_synonym image = "int \<Rightarrow> byte"

definition get_bytes :: "image \<Rightarrow> int \<Rightarrow> nat \<Rightarrow> bytes" where
  "get_bytes m a n = map (\<lambda>i. m (a + int i)) [0..<n]"

definition put_bytes :: "image \<Rightarrow> int \<Rightarrow> bytes \<Rightarrow> image" where
  "put_bytes m a bs = (\<lambda>x. if a \<le> x \<and> x < a + int (length bs) then bs ! nat (x - a) else m x)"

lemma length_get_bytes [simp, bytes_simps]: "length (get_bytes m a n) = n"
  by (simp add: get_bytes_def)

lemma nth_get_bytes [simp]: "i < n \<Longrightarrow> get_bytes m a n ! i = m (a + int i)"
  by (simp add: get_bytes_def)

lemma put_bytes_Nil [simp]: "put_bytes m a [] = m"
  by (auto simp add: put_bytes_def fun_eq_iff)

lemma put_bytes_outside [simp]:
  "x < a \<or> a + int (length bs) \<le> x \<Longrightarrow> put_bytes m a bs x = m x"
  by (auto simp: put_bytes_def)

lemma put_bytes_append:
  "put_bytes (put_bytes m a xs) (a + int (length xs)) ys = put_bytes m a (xs @ ys)"
  by (auto simp: put_bytes_def fun_eq_iff nth_append nat_less_iff nat_diff_distrib'
      intro!: arg_cong [where f = "(!) ys"])

lemma get_put_bytes:
  assumes "n \<le> length bs"
  shows "get_bytes (put_bytes m a bs) a n = take n bs"
  using assms by (intro nth_equalityI) (simp_all add: put_bytes_def)

lemma get_bytes_cong:
  assumes "\<And>x. a \<le> x \<Longrightarrow> x < a + int n \<Longrightarrow> m' x = m x"
  shows "get_bytes m' a n = get_bytes m a n"
  using assms by (intro nth_equalityI) simp_all

lemma get_put_disjoint:
  assumes "a + int n \<le> b \<or> b + int (length bs) \<le> a"
  shows "get_bytes (put_bytes m b bs) a n = get_bytes m a n"
  using assms by (intro get_bytes_cong) (auto simp: put_bytes_def)

lemma get_bytes_append:
  "get_bytes m a (n + k) = get_bytes m a n @ get_bytes m (a + int n) k"
  by (rule nth_equalityI) (auto simp: nth_append of_nat_diff)

section \<open>Block arithmetic\<close>

lemma block_div_iff: "x div 512 = k \<longleftrightarrow> k * 512 \<le> x \<and> x < k * 512 + 512" for x k :: int
proof -
  have "x = x div 512 * 512 + x mod 512" and "0 \<le> x mod 512" and "x mod 512 < 512" by simp_all
  then show ?thesis by linarith
qed

lemma block_mod: "k * 512 \<le> x \<Longrightarrow> x < k * 512 + 512 \<Longrightarrow> x mod 512 = x - k * 512" for x k :: int
proof -
  assume "k * 512 \<le> x" and "x < k * 512 + 512"
  then have "x div 512 = k" by (simp add: block_div_iff)
  then show ?thesis using minus_div_mult_eq_mod [of x 512] by simp
qed

lemma whole_blocks:
  "length xs mod 512 = 0 \<Longrightarrow> int (length xs) mod 512 = 0"
  "0 < k \<Longrightarrow> k mod 512 = 0 \<Longrightarrow> 512 \<le> (k :: int)"
  "k mod 512 = 0 \<Longrightarrow> k div 512 * 512 = k"
  by (simp_all add: zmod_int [symmetric, of _ 512, simplified] zdvd_imp_le mod_0_imp_dvd)

section \<open>Contracts\<close>

locale card_frame =
  fixes C :: "'w Card"
    and img :: "'w \<Rightarrow> image"
    and inv :: "'w \<Rightarrow> bool"
  assumes read_frame_law: "inv w \<Longrightarrow> card_Read C off len w = (r, w') \<Longrightarrow>
      inv w' \<and> img w' = img w \<and> card_Info C w' = card_Info C w"
    and write_frame_law: "inv w \<Longrightarrow> length data mod 512 = 0 \<Longrightarrow>
      card_WriteBlocks C lba data w = (q, w') \<Longrightarrow>
      inv w' \<and> card_Info C w' = card_Info C w
      \<and> (\<forall>x. x < lba * 512 \<or> lba * 512 + int (length data) \<le> x \<longrightarrow> img w' x = img w x)"
    and write_done_law: "inv w \<Longrightarrow> length data mod 512 = 0 \<Longrightarrow>
      card_WriteBlocks C lba data w = (Ok u, w') \<Longrightarrow> img w' = put_bytes (img w) (lba * 512) data"

locale block_card = card_frame +
  fixes cap :: int
  assumes block_size: "inv w \<Longrightarrow> BlockSize (card_Info C w) = 512"
    and read_law: "inv w \<Longrightarrow> 0 \<le> off \<Longrightarrow> off mod 512 = 0 \<Longrightarrow> off + int n \<le> cap * 512 \<Longrightarrow>
      off < cap * 512 \<Longrightarrow>
      \<exists>w'. card_Read C off (int n) w = (Ok (get_bytes (img w) off n), w')"
    and write_law: "inv w \<Longrightarrow> 0 \<le> lba \<Longrightarrow> lba < cap \<Longrightarrow> length data mod 512 = 0 \<Longrightarrow>
      lba * 512 + int (length data) \<le> cap * 512 \<Longrightarrow>
      \<exists>w'. card_WriteBlocks C lba data w = (Ok (), w')"
begin

lemma write_ok:
  assumes "inv w" "0 \<le> lba" "lba < cap" "length data mod 512 = 0"
    "lba * 512 + int (length data) \<le> cap * 512"
  obtains w' where "card_WriteBlocks C lba data w = (Ok (), w')" and "inv w'"
    and "img w' = put_bytes (img w) (lba * 512) data" and "card_Info C w' = card_Info C w"
  using write_law [OF assms] write_frame_law [OF assms(1,4)] write_done_law [OF assms(1,4)] by blast

lemma read_ok:
  assumes "inv w" "0 \<le> off" "off mod 512 = 0" "off + int n \<le> cap * 512" "off < cap * 512"
  obtains w' where "card_Read C off (int n) w = (Ok (get_bytes (img w) off n), w')" and "inv w'"
    and "img w' = img w" and "card_Info C w' = card_Info C w"
  using read_law [OF assms] read_frame_law [OF assms(1)] by blast

end

section \<open>A medium\<close>

text \<open>The card of the board is outside this repository; the simplest medium that meets both
  contracts is a byte image with the geometry that \<open>src/trusted_os/flash.go\<close> records for it
  (block size 512, 30576640 blocks).\<close>

definition mediumBlocks :: int where "mediumBlocks = 30576640"

definition medium_Read :: "int \<Rightarrow> int \<Rightarrow> (image, bytes) io" where
  "medium_Read off len w =
     (if off < 0 \<or> len < 0 \<or> mediumBlocks * 512 < off + len
      then (Err (External ''read outside the card''), w)
      else (Ok (get_bytes w off (nat len)), w))"

definition medium_WriteBlocks :: "int \<Rightarrow> bytes \<Rightarrow> (image, unit) io" where
  "medium_WriteBlocks lba data w =
     (if lba < 0 \<or> mediumBlocks * 512 < lba * 512 + int (length data)
      then (Err (External ''write outside the card''), w)
      else (Ok (), put_bytes w (lba * 512) data))"

definition medium :: "image Card" where
  "medium = \<lparr>card_Read = medium_Read, card_WriteBlocks = medium_WriteBlocks,
     card_Info = (\<lambda>_. \<lparr>MMC = True, BlockSize = 512, Blocks = mediumBlocks\<rparr>), card_Detect = retS ()\<rparr>"

interpretation md: block_card medium "\<lambda>w. w" "\<lambda>_. True" mediumBlocks
  by unfold_locales
    (auto simp: medium_def medium_Read_def medium_WriteBlocks_def split: if_splits)

end
