(* ===== verification/Flash.thy ===== *)
theory Flash
  imports Card Go_Std
begin

text \<open>
  Firmware storage (\<open>src/trusted_os/flash.go\<close>): the eMMC layout, reading the installed
  firmware, the chunked block writer \<open>flash\<close>, A/B updates of applet and OS, and the crash log.
  Outside the repository are the card, the boot loader's configuration codec (record
  \<open>boot_codec\<close>), and the firmware bundle verifiers; they are parameters. The blinking LED of
  \<open>flashFirmware\<close> (\<open>blinkenLights\<close>) has no effect on storage; it is in theory \<open>System\<close>.
\<close>

section \<open>Layout\<close>

definition expectedBlockSize :: int where "expectedBlockSize = 512"

definition otaLimit :: int where "otaLimit = 31457280"

definition taConfBlock :: int where "taConfBlock = 0x200000"

definition taBlockA :: int where "taBlockA = 0x200050"

definition taBlockB :: int where "taBlockB = 0x2FD050"

definition osConfBlock :: int where "osConfBlock = 0x5000"

definition osBlockA :: int where "osBlockA = 0x5050"

definition osBlockB :: int where "osBlockB = 0x102828"

definition crashLogBlock :: int where "crashLogBlock = 0x1D20000"

definition crashLogNumBlocks :: int where "crashLogNumBlocks = 0x800"

definition batchSize :: int where "batchSize = 2048"

lemmas layout_defs = expectedBlockSize_def taConfBlock_def taBlockA_def taBlockB_def
  osConfBlock_def osBlockA_def osBlockB_def crashLogBlock_def crashLogNumBlocks_def batchSize_def

text \<open>\<open>FirmwareType\<close> is an integer type with two named values.\<close>

type_synonym FirmwareType = int

definition Firmware_Applet :: FirmwareType where "Firmware_Applet = 0"

definition Firmware_OS :: FirmwareType where "Firmware_OS = 1"

definition FirmwareType_String :: "FirmwareType \<Rightarrow> string res" where
  "FirmwareType_String ft =
     (if ft = Firmware_Applet then Ok ''applet''
      else if ft = Firmware_OS then Ok ''OS''
      else Halt ''Unknown FirmwareType'')"

section \<open>Data\<close>

text \<open>The fields of \<open>config.ProofBundle\<close>, \<open>config.Config\<close> and \<open>firmware.Bundle\<close> that this
  code reads and writes.\<close>

record ProofBundle =
  pb_Checkpoint :: bytes
  pb_Manifest :: bytes
  pb_LogIndex :: "64 word"
  pb_InclusionProof :: "bytes list"

record BootConfig =
  cfg_Size :: int
  cfg_Offset :: int
  cfg_Bundle :: ProofBundle

record Bundle =
  fb_Checkpoint :: bytes
  fb_Index :: "64 word"
  fb_InclusionProof :: "bytes list"
  fb_Manifest :: bytes
  fb_Firmware :: bytes

record boot_codec =
  MaxLength :: int
  cfg_Encode :: "BootConfig \<Rightarrow> bytes res"
  cfg_Decode :: "bytes \<Rightarrow> BootConfig res"

record otaBuffer =
  ota_total :: "32 word"
  ota_seq :: "32 word"
  ota_sig :: bytes
  ota_buf :: bytes
  ota_bundle :: "ProofBundle option"

text \<open>The package variables of this file next to the world; later components extend the record.\<close>

record 'w flash_state =
  world :: 'w
  appletLoadedFromBlock :: int
  osLoadedFromBlock :: int

definition onWorld :: "('w, 'a) io \<Rightarrow> (('w, 'z) flash_state_scheme, 'a) io" where
  "onWorld m = zoomS world (\<lambda>w s. s\<lparr>world := w\<rparr>) m"

section \<open>Reading\<close>

definition readConfig :: "boot_codec \<Rightarrow> 'w Card \<Rightarrow> int \<Rightarrow> ('w, BootConfig) io" where
  "readConfig K C configBlock =
     bindS (card_Read C (configBlock * expectedBlockSize) (MaxLength K)) (\<lambda>buf.
     liftRes (cfg_Decode K buf))"

definition blockSizeError :: error where
  "blockSizeError = ErrorsNew ''h/w invariant error - expected MMC blocksize''"

definition determineLoadedOSBlock ::
  "boot_codec \<Rightarrow> 'w Card \<Rightarrow> (('w, 'z) flash_state_scheme, unit) io" where
  "determineLoadedOSBlock K C =
     bindS (getS (\<lambda>s. BlockSize (card_Info C (world s)))) (\<lambda>blockSize.
     if blockSize \<noteq> expectedBlockSize then failS blockSizeError
     else bindS (wrapS ''failed to read OS config'' (onWorld (readConfig K C osConfBlock))) (\<lambda>conf.
       modifyS (\<lambda>s. s\<lparr>osLoadedFromBlock := go_div (cfg_Offset conf) expectedBlockSize\<rparr>)))"

definition read :: "boot_codec \<Rightarrow> 'w Card \<Rightarrow> (('w, 'z) flash_state_scheme, Bundle) io" where
  "read K C =
     bindS (getS (\<lambda>s. BlockSize (card_Info C (world s)))) (\<lambda>blockSize.
     if blockSize \<noteq> expectedBlockSize then failS blockSizeError
     else bindS (wrapS ''failed to read applet config'' (onWorld (readConfig K C taConfBlock))) (\<lambda>conf.
       bindS (wrapS ''failed to read firmware''
                (onWorld (card_Read C (cfg_Offset conf) (cfg_Size conf)))) (\<lambda>fw.
       bindS (modifyS (\<lambda>s. s\<lparr>appletLoadedFromBlock := go_div (cfg_Offset conf) expectedBlockSize\<rparr>)) (\<lambda>_.
       retS \<lparr>fb_Checkpoint = pb_Checkpoint (cfg_Bundle conf),
             fb_Index = pb_LogIndex (cfg_Bundle conf),
             fb_InclusionProof = pb_InclusionProof (cfg_Bundle conf),
             fb_Manifest = pb_Manifest (cfg_Bundle conf),
             fb_Firmware = fw\<rparr>))))"

section \<open>The block writer\<close>

definition bytesPerChunk :: nat where
  "bytesPerChunk = nat (expectedBlockSize * batchSize)"

text \<open>One round of the loop: the chunk to write and the rest of the buffer. A final chunk is
  rounded up to one block more than it fills.\<close>

definition flash_chunk :: "bytes \<Rightarrow> bytes \<times> bytes" where
  "flash_chunk buf =
     (if bytesPerChunk \<le> length buf then (take bytesPerChunk buf, drop bytesPerChunk buf)
      else let roundedUpSize = (length buf div 512 + 1) * 512
           in (go_copy (zeros roundedUpSize) buf, []))"

lemma bytesPerChunk_eq [simp]: "bytesPerChunk = 1048576"
  by (simp add: bytesPerChunk_def layout_defs)

function flash_loop :: "'w Card \<Rightarrow> int \<Rightarrow> int \<Rightarrow> bytes \<Rightarrow> ('w, unit) io" where
  "flash_loop C lba blocks buf w =
     (if buf = [] then (Ok (), w)
      else case card_WriteBlocks C (lba + blocks) (fst (flash_chunk buf)) w of
        (Ok _, w') \<Rightarrow> flash_loop C lba (blocks + int (length (fst (flash_chunk buf))) div 512)
                        (snd (flash_chunk buf)) w'
      | (Err e, w') \<Rightarrow> (Err e, w')
      | (Halt p, w') \<Rightarrow> (Halt p, w'))"
  by pat_completeness auto
termination
  by (relation "measure (\<lambda>(C, lba, blocks, buf, w). length buf)")
    (auto simp: flash_chunk_def Let_def)

declare flash_loop.simps [simp del]

definition flash :: "'w Card \<Rightarrow> bytes \<Rightarrow> int \<Rightarrow> ('w, unit) io" where
  "flash C buf lba =
     bindS (getS (\<lambda>w. BlockSize (card_Info C w))) (\<lambda>blockSize.
     if blockSize \<noteq> expectedBlockSize then failS blockSizeError
     else flash_loop C lba 0 buf)"

section \<open>Updates\<close>

text \<open>The blocks \<open>flashFirmware\<close> writes for a firmware type: configuration and image.\<close>

definition flash_target :: "('w, 'z) flash_state_scheme \<Rightarrow> FirmwareType \<Rightarrow> (int \<times> int) option" where
  "flash_target s t =
     (if t = Firmware_Applet
      then Some (taConfBlock, if appletLoadedFromBlock s = taBlockA then taBlockB else taBlockA)
      else if t = Firmware_OS
      then Some (osConfBlock, if osLoadedFromBlock s = osBlockA then osBlockB else osBlockA)
      else None)"

definition flashFirmware ::
  "boot_codec \<Rightarrow> 'w Card option \<Rightarrow> FirmwareType \<Rightarrow> bytes \<Rightarrow> ProofBundle
   \<Rightarrow> (('w, 'z) flash_state_scheme, unit) io" where
  "flashFirmware K storage t elf pb = (case storage of
      None \<Rightarrow> failS (ErrorsNew ''Flashing error: missing Storage'')
    | Some C \<Rightarrow>
        bindS (getS (\<lambda>s. flash_target s t)) (\<lambda>target. case target of
          None \<Rightarrow> failS (ErrorsNew ''unknown firmware type'')
        | Some (confBlock, elfBlock) \<Rightarrow>
            bindS (liftRes (cfg_Encode K \<lparr>cfg_Size = int (length elf),
                     cfg_Offset = elfBlock * expectedBlockSize, cfg_Bundle = pb\<rparr>)) (\<lambda>confEnc.
            bindS (wrapS ''flashing error'' (onWorld (flash C elf elfBlock))) (\<lambda>_.
            wrapS ''signature flashing error'' (onWorld (flash C confEnc confBlock))))))"

text \<open>The results of an update that failed while it wrote the configuration: the second error of
  \<open>flashFirmware\<close>, or a write that never returned.\<close>

fun conf_write_failed :: "'a res \<Rightarrow> bool" where
  "conf_write_failed (Err (Errorf msg e)) \<longleftrightarrow> msg = ''signature flashing error''"
| "conf_write_failed (Halt p) \<longleftrightarrow> True"
| "conf_write_failed _ \<longleftrightarrow> False"

definition bundle_of :: "bytes \<Rightarrow> ProofBundle \<Rightarrow> Bundle" where
  "bundle_of elf pb = \<lparr>fb_Checkpoint = pb_Checkpoint pb, fb_Index = pb_LogIndex pb,
     fb_InclusionProof = pb_InclusionProof pb, fb_Manifest = pb_Manifest pb, fb_Firmware = elf\<rparr>"

text \<open>\<open>verify\<close> is the \<open>Verify\<close> method of \<open>AppletBundleVerifier\<close> or \<open>OSBundleVerifier\<close>.\<close>

definition updateApplet ::
  "boot_codec \<Rightarrow> (Bundle \<Rightarrow> 'm res) \<Rightarrow> 'w Card option \<Rightarrow> bytes \<Rightarrow> ProofBundle
   \<Rightarrow> (('w, 'z) flash_state_scheme, unit) io" where
  "updateApplet K verify storage taELF pb =
     bindS (liftRes (verify (bundle_of taELF pb))) (\<lambda>_.
     flashFirmware K storage Firmware_Applet taELF pb)"

definition updateOS ::
  "boot_codec \<Rightarrow> (Bundle \<Rightarrow> 'm res) \<Rightarrow> 'w Card option \<Rightarrow> bytes \<Rightarrow> ProofBundle
   \<Rightarrow> (('w, 'z) flash_state_scheme, unit) io" where
  "updateOS K verify storage osELF pb =
     bindS (liftRes (verify (bundle_of osELF pb))) (\<lambda>_.
     flashFirmware K storage Firmware_OS osELF pb)"

section \<open>The crash log\<close>

definition maxLogSize :: nat where
  "maxLogSize = nat (crashLogNumBlocks * expectedBlockSize)"

definition storeAppletCrashLog :: "'w Card \<Rightarrow> bytes \<Rightarrow> ('w, unit) io" where
  "storeAppletCrashLog C l =
     (let ll = length l;
          l' = (if maxLogSize < ll then drop (ll - maxLogSize) l
                else if ll < maxLogSize then l @ zeros (maxLogSize - ll)
                else l)
      in card_WriteBlocks C crashLogBlock l')"

definition retrieveLastCrashLog :: "'w Card \<Rightarrow> ('w, bytes) io" where
  "retrieveLastCrashLog C =
     bindS (card_Read C (crashLogBlock * expectedBlockSize) (int maxLogSize)) (\<lambda>r.
     let p = index_byte r 0 in retS (if 0 < p then take (nat p) r else r))"

section \<open>Lemmas: what the block writer writes\<close>

lemma onWorld_apply: "onWorld m s = (case m (world s) of (r, w) \<Rightarrow> (r, s\<lparr>world := w\<rparr>))"
  by (simp add: onWorld_def zoomS_apply)

text \<open>The bytes that reach the medium: the buffer and its padding.\<close>

definition flash_pad :: "nat \<Rightarrow> nat" where
  "flash_pad n = (let r = n mod bytesPerChunk in if r = 0 then 0 else (r div 512 + 1) * 512 - r)"

definition flash_image :: "bytes \<Rightarrow> bytes" where
  "flash_image buf = buf @ zeros (flash_pad (length buf))"

lemma flash_image_Nil [simp]: "flash_image [] = []"
  by (simp add: flash_image_def flash_pad_def zeros_def)

lemma flash_pad_bounds: "flash_pad n \<le> 512" "0 < n mod 1048576 \<Longrightarrow> 0 < flash_pad n"
proof -
  let ?r = "n mod 1048576"
  have r: "?r = ?r div 512 * 512 + ?r mod 512" "?r mod 512 < 512" by simp_all
  then show "flash_pad n \<le> 512" by (auto simp: flash_pad_def Let_def)
  show "0 < ?r \<Longrightarrow> 0 < flash_pad n" using r by (auto simp: flash_pad_def Let_def)
qed

lemma flash_image_fits:
  assumes "length buf < k * 512"
  shows "length (flash_image buf) \<le> k * 512"
proof -
  let ?n = "length buf" and ?r = "length buf mod 1048576"
  have n: "?n = ?n div 1048576 * 2048 * 512 + ?r" by simp
  have r: "?r = ?r div 512 * 512 + ?r mod 512" by simp
  have len: "length (flash_image buf) = ?n + flash_pad ?n" by (simp add: flash_image_def)
  show ?thesis
  proof (cases "?r = 0")
    case True
    with assms len show ?thesis by (simp add: flash_pad_def)
  next
    case False
    let ?q = "?n div 1048576 * 2048 + ?r div 512"
    have pad: "flash_pad ?n = ?r div 512 * 512 + 512 - ?r" using False by (simp add: flash_pad_def Let_def)
    have "?q * 512 = ?n div 1048576 * 2048 * 512 + ?r div 512 * 512" by (rule add_mult_distrib)
    then have q: "?n = ?q * 512 + ?r mod 512" using n r by linarith
    with assms have "?q * 512 < k * 512" by linarith
    then have "?q + 1 \<le> k" by simp
    then have "(?q + 1) * 512 \<le> k * 512" by (rule mult_le_mono1)
    moreover have "(?q + 1) * 512 = ?q * 512 + 512" by simp
    moreover have "?r mod 512 < 512" by simp
    ultimately show ?thesis using len pad q r by linarith
  qed
qed

lemma flash_image_step:
  assumes "buf \<noteq> []"
  shows "flash_image buf = fst (flash_chunk buf) @ flash_image (snd (flash_chunk buf))"
proof (cases "1048576 \<le> length buf")
  case True
  then have "flash_pad (length buf) = flash_pad (length buf - 1048576)"
    by (simp add: flash_pad_def Let_def le_mod_geq)
  with True show ?thesis by (simp add: flash_chunk_def flash_image_def)
next
  case False
  let ?n = "length buf"
  have n: "?n = ?n div 512 * 512 + ?n mod 512" "?n mod 512 < 512" by simp_all
  from False assms have "flash_pad ?n = (?n div 512 + 1) * 512 - ?n" by (simp add: flash_pad_def Let_def)
  moreover have "(?n div 512 + 1) * 512 = ?n div 512 * 512 + 512" by simp
  then have "?n \<le> (?n div 512 + 1) * 512" using n by linarith
  ultimately show ?thesis using False
    by (simp add: flash_chunk_def flash_image_def [of buf] Let_def go_copy_zeros)
qed

lemma flash_chunk_blocks: "length (fst (flash_chunk buf)) mod 512 = 0"
  by (simp add: flash_chunk_def Let_def)

lemma flash_chunk_advance:
  "int (length (fst (flash_chunk buf))) div 512 * 512 = int (length (fst (flash_chunk buf)))"
  by (rule whole_blocks(3)) (rule whole_blocks(1), rule flash_chunk_blocks)

lemma flash_loop_Nil [simp]: "flash_loop C lba blocks [] w = (Ok (), w)"
  by (simp add: flash_loop.simps)

lemma flash_apply:
  "flash C buf lba w = (if BlockSize (card_Info C w) \<noteq> 512 then (Err blockSizeError, w)
     else flash_loop C lba 0 buf w)"
  by (simp add: flash_def bindS_apply expectedBlockSize_def)

section \<open>Lemmas: writing through a card\<close>

context card_frame
begin

text \<open>Whatever the outcome, the loop keeps the invariant and touches only the blocks of the
  image; if it reports success it has written the whole image.\<close>

lemma flash_loop_frame:
  assumes "inv w" and "flash_loop C lba blocks buf w = (q, w')"
  shows "inv w' \<and> card_Info C w' = card_Info C w
    \<and> (\<forall>x. x < (lba + blocks) * 512 \<or> (lba + blocks) * 512 + int (length (flash_image buf)) \<le> x
          \<longrightarrow> img w' x = img w x)
    \<and> (q = Ok () \<longrightarrow> img w' = put_bytes (img w) ((lba + blocks) * 512) (flash_image buf))"
  using assms
proof (induction "length buf" arbitrary: blocks buf w rule: less_induct)
  case less
  show ?case
  proof (cases "buf = []")
    case True
    with less.prems show ?thesis by simp
  next
    case False
    let ?c = "fst (flash_chunk buf)" and ?r = "snd (flash_chunk buf)"
    let ?a = "(lba + blocks) * 512"
    let ?b = "blocks + int (length ?c) div 512"
    have adv: "(lba + ?b) * 512 = ?a + int (length ?c)"
      using flash_chunk_advance [of buf] by (simp add: algebra_simps)
    have image: "flash_image buf = ?c @ flash_image ?r" using False by (rule flash_image_step)
    obtain q1 v where wr: "card_WriteBlocks C (lba + blocks) ?c w = (q1, v)"
      by (cases "card_WriteBlocks C (lba + blocks) ?c w")
    note fr = write_frame_law [OF less.prems(1) flash_chunk_blocks wr]
    show ?thesis
    proof (cases "q1 = Ok ()")
      case True
      with wr less.prems(2) False have rest: "flash_loop C lba ?b ?r v = (q, w')"
        by (simp add: flash_loop.simps [of C lba blocks buf])
      have "length ?r < length buf" using False by (auto simp: flash_chunk_def Let_def)
      note IH0 = less.hyps [OF this conjunct1 [OF fr] rest, unfolded adv]
      then have IH: "inv w' \<and> card_Info C w' = card_Info C v"
          "\<forall>x. x < ?a + int (length ?c) \<or> ?a + int (length ?c) + int (length (flash_image ?r)) \<le> x
            \<longrightarrow> img w' x = img v x"
          "q = Ok () \<longrightarrow> img w' = put_bytes (img v) (?a + int (length ?c)) (flash_image ?r)"
        by blast+
      have "img v = put_bytes (img w) ?a ?c"
        using write_done_law [OF less.prems(1) flash_chunk_blocks] wr True by simp
      with IH fr show ?thesis by (simp add: image put_bytes_append)
    next
      case False
      with wr less.prems(2) \<open>buf \<noteq> []\<close> have "w' = v" "q \<noteq> Ok ()"
        by (auto simp: flash_loop.simps [of C lba blocks buf] split: res.splits)
      with fr show ?thesis by (auto simp: image)
    qed
  qed
qed

lemma flash_frame:
  assumes "inv w" and "flash C buf lba w = (q, w')"
  shows "inv w' \<and> card_Info C w' = card_Info C w
    \<and> (\<forall>x. x < lba * 512 \<or> lba * 512 + int (length (flash_image buf)) \<le> x \<longrightarrow> img w' x = img w x)
    \<and> (q = Ok () \<longrightarrow> img w' = put_bytes (img w) (lba * 512) (flash_image buf))"
  using assms flash_loop_frame [of w lba 0 buf q w'] by (auto simp: flash_apply split: if_splits)

text \<open>The two-phase write of an update, on the byte image: whatever stops it, bytes outside the
  target slot and the configuration stay, and the configuration changes only after the whole
  image is in the slot.\<close>

lemma flashFirmware_stages:
  assumes inv: "inv (world s)" and t: "flash_target s t = Some (confBlock, elfBlock)"
    and conf: "cfg_Encode K \<lparr>cfg_Size = int (length elf), cfg_Offset = elfBlock * 512, cfg_Bundle = pb\<rparr>
      = Ok enc"
    and run: "flashFirmware K (Some C) t elf pb s = (q, s')"
  obtains w1 q1 where "flash C elf elfBlock (world s) = (q1, w1)"
    and "q1 \<noteq> Ok () \<longrightarrow> world s' = w1 \<and> q \<noteq> Ok ()"
    and "q1 = Ok () \<longrightarrow> (\<exists>q2. flash C enc confBlock w1 = (q2, world s') \<and> (q = Ok () \<longleftrightarrow> q2 = Ok ())
        \<and> (q = Ok () \<or> conf_write_failed q))"
    and "s' = s\<lparr>world := world s'\<rparr>"
proof -
  obtain q1 w1 where f: "flash C elf elfBlock (world s) = (q1, w1)"
    by (cases "flash C elf elfBlock (world s)")
  obtain q2 w2 where g: "flash C enc confBlock w1 = (q2, w2)"
    by (cases "flash C enc confBlock w1")
  have eq: "flashFirmware K (Some C) t elf pb s =
     (case q1 of Ok _ \<Rightarrow> (case q2 of Ok _ \<Rightarrow> (Ok (), s\<lparr>world := w2\<rparr>)
         | Err e \<Rightarrow> (Err (Errorf ''signature flashing error'' e), s\<lparr>world := w2\<rparr>)
         | Halt p \<Rightarrow> (Halt p, s\<lparr>world := w2\<rparr>))
      | Err e \<Rightarrow> (Err (Errorf ''flashing error'' e), s\<lparr>world := w1\<rparr>)
      | Halt p \<Rightarrow> (Halt p, s\<lparr>world := w1\<rparr>))"
    using t conf f g
    by (simp add: flashFirmware_def bindS_apply wrapS_apply onWorld_apply expectedBlockSize_def
        split: res.splits)
  show ?thesis
    using run f g unfolding eq
    by (intro that [of q1 w1]) (auto split: res.splits)
qed

end

section \<open>Slots\<close>

text \<open>The slot a firmware is not running from has room for \<open>slotBytes\<close> bytes before the next
  region of the layout starts.\<close>

definition slotBytes :: int where "slotBytes = 0xFD000 * 512"

lemma flash_target_cases:
  assumes "flash_target s t = Some (confBlock, elfBlock)"
  shows "(confBlock = taConfBlock \<and> t = Firmware_Applet
           \<and> (elfBlock = taBlockB \<and> appletLoadedFromBlock s = taBlockA
              \<or> elfBlock = taBlockA \<and> appletLoadedFromBlock s \<noteq> taBlockA))
      \<or> (confBlock = osConfBlock \<and> t = Firmware_OS
           \<and> (elfBlock = osBlockB \<and> osLoadedFromBlock s = osBlockA
              \<or> elfBlock = osBlockA \<and> osLoadedFromBlock s \<noteq> osBlockA))"
  using assms by (auto simp: flash_target_def split: if_splits)

context block_card
begin

lemma flash_loop_total:
  assumes "inv w" and "0 \<le> lba + blocks"
    and "(lba + blocks) * 512 + int (length (flash_image buf)) \<le> cap * 512"
  shows "\<exists>w'. flash_loop C lba blocks buf w = (Ok (), w')"
  using assms
proof (induction "length buf" arbitrary: blocks buf w rule: less_induct)
  case less
  show ?case
  proof (cases "buf = []")
    case True
    then show ?thesis by simp
  next
    case False
    let ?c = "fst (flash_chunk buf)" and ?r = "snd (flash_chunk buf)"
    let ?b = "blocks + int (length ?c) div 512"
    have image: "flash_image buf = ?c @ flash_image ?r" using False by (rule flash_image_step)
    have adv: "(lba + ?b) * 512 = (lba + blocks) * 512 + int (length ?c)"
      using flash_chunk_advance [of buf] by (simp add: algebra_simps)
    have ne: "0 < length ?c"
      using False by (simp add: flash_chunk_def Let_def del: length_greater_0_conv)
    have fits: "(lba + blocks) * 512 + int (length ?c) \<le> cap * 512"
      using less.prems(3) by (simp add: image)
    with ne have "(lba + blocks) * 512 < cap * 512" by linarith
    then have "lba + blocks < cap" by simp
    from write_ok [OF less.prems(1,2) this flash_chunk_blocks fits] obtain v where
      v: "card_WriteBlocks C (lba + blocks) ?c w = (Ok (), v)" "inv v" by blast
    have "length ?r < length buf" using False by (auto simp: flash_chunk_def Let_def)
    moreover have "(lba + ?b) * 512 + int (length (flash_image ?r)) \<le> cap * 512"
      unfolding adv using less.prems(3) by (simp add: image)
    moreover have "0 \<le> lba + ?b" using less.prems(2) by (simp add: pos_imp_zdiv_nonneg_iff)
    ultimately obtain w' where "flash_loop C lba ?b ?r v = (Ok (), w')"
      using less.hyps v(2) by blast
    then show ?thesis using False v by (simp add: flash_loop.simps [of C lba blocks buf])
  qed
qed

lemma flash_total:
  assumes "inv w" and "0 \<le> lba" and "lba * 512 + int (length (flash_image buf)) \<le> cap * 512"
  obtains w' where "flash C buf lba w = (Ok (), w')" and "inv w'"
    and "card_Info C w' = card_Info C w"
    and "img w' = put_bytes (img w) (lba * 512) (flash_image buf)"
proof -
  obtain w' where "flash C buf lba w = (Ok (), w')"
    using flash_loop_total [of w lba 0 buf] assms block_size by (auto simp: flash_apply)
  then show ?thesis using flash_frame [OF assms(1)] that by blast
qed

end

section \<open>Properties\<close>

text \<open>The first block of the firmware of type \<open>t\<close> that is running, as far as the OS knows.\<close>

definition running_block :: "('w, 'z) flash_state_scheme \<Rightarrow> FirmwareType \<Rightarrow> int" where
  "running_block s t = (if t = Firmware_Applet then appletLoadedFromBlock s else osLoadedFromBlock s)"

lemma flash_target_geometry:
  assumes "flash_target s t = Some (confBlock, elfBlock)"
  shows "confBlock * 512 + 40960 \<le> elfBlock * 512"
    and "running_block s t \<in> {taBlockA, taBlockB, osBlockA, osBlockB} \<Longrightarrow>
      (running_block s t * 512 + slotBytes \<le> elfBlock * 512
        \<or> elfBlock * 512 + slotBytes \<le> running_block s t * 512)
      \<and> (running_block s t * 512 + slotBytes \<le> confBlock * 512
        \<or> confBlock * 512 + 40960 \<le> running_block s t * 512)"
  using assms
  by (auto simp: flash_target_def running_block_def slotBytes_def layout_defs
      Firmware_Applet_def Firmware_OS_def split: if_splits)

text \<open>What an update can change, on the byte image.\<close>

lemma flashFirmware_effect:
  assumes cf: "card_frame C img I" and "I (world s)"
    and t: "flash_target s t = Some (confBlock, elfBlock)"
    and elf: "int (length elf) < slotBytes"
    and conf: "cfg_Encode K \<lparr>cfg_Size = int (length elf), cfg_Offset = elfBlock * 512, cfg_Bundle = pb\<rparr>
      = Ok enc" and enc: "length enc < 40960"
    and run: "flashFirmware K (Some C) t elf pb s = (q, s')"
  shows "\<And>x. x < elfBlock * 512 \<or> elfBlock * 512 + slotBytes \<le> x \<Longrightarrow>
      x < confBlock * 512 \<or> confBlock * 512 + 40960 \<le> x \<Longrightarrow> img (world s') x = img (world s) x"
    and "get_bytes (img (world s')) (elfBlock * 512) (length elf) = elf
      \<or> q \<noteq> Ok () \<and> get_bytes (img (world s')) (confBlock * 512) 40960
          = get_bytes (img (world s)) (confBlock * 512) 40960"
proof -
  obtain w1 q1 where f: "flash C elf elfBlock (world s) = (q1, w1)"
    and stop: "q1 \<noteq> Ok () \<longrightarrow> world s' = w1 \<and> q \<noteq> Ok ()"
    and go: "q1 = Ok () \<longrightarrow> (\<exists>q2. flash C enc confBlock w1 = (q2, world s') \<and> (q = Ok () \<longleftrightarrow> q2 = Ok ()))"
    and "s' = s\<lparr>world := world s'\<rparr>"
    by (rule card_frame.flashFirmware_stages [OF cf assms(2) t conf run]) blast
  note F = card_frame.flash_frame [OF cf assms(2) f]
  have elf': "int (length (flash_image elf)) \<le> slotBytes"
    using elf flash_image_fits [of elf "0xFD000"] by (simp add: slotBytes_def)
  have enc': "int (length (flash_image enc)) \<le> 40960" using enc flash_image_fits [of enc 80] by simp
  note geo = flash_target_geometry(1) [OF t]
  have w1: "img w1 x = img (world s) x" if "x < elfBlock * 512 \<or> elfBlock * 512 + slotBytes \<le> x" for x
  proof -
    note F' = F [THEN conjunct2, THEN conjunct2, THEN conjunct1, rule_format, of x]
    show ?thesis using that elf' by (intro F') linarith
  qed
  have w2: "img (world s') x = img w1 x" if "x < confBlock * 512 \<or> confBlock * 512 + 40960 \<le> x" for x
  proof (cases "q1 = Ok ()")
    case True
    with go obtain q2 where "flash C enc confBlock w1 = (q2, world s')" by blast
    note G = card_frame.flash_frame [OF cf conjunct1 [OF F] this, THEN conjunct2, THEN conjunct2,
      THEN conjunct1, rule_format, of x]
    show ?thesis using that enc' by (intro G) linarith
  next
    case False
    with stop show ?thesis by simp
  qed
  show "img (world s') x = img (world s) x"
    if "x < elfBlock * 512 \<or> elfBlock * 512 + slotBytes \<le> x"
      "x < confBlock * 512 \<or> confBlock * 512 + 40960 \<le> x" for x
    using w1 [OF that(1)] w2 [OF that(2)] by simp
  show "get_bytes (img (world s')) (elfBlock * 512) (length elf) = elf
      \<or> q \<noteq> Ok () \<and> get_bytes (img (world s')) (confBlock * 512) 40960
          = get_bytes (img (world s)) (confBlock * 512) 40960"
  proof (cases "q1 = Ok ()")
    case True
    have "get_bytes (img (world s')) (elfBlock * 512) (length elf)
        = get_bytes (img w1) (elfBlock * 512) (length elf)"
      using geo by (intro get_bytes_cong w2) linarith
    with True F show ?thesis by (simp add: get_put_bytes flash_image_def)
  next
    case False
    have "get_bytes (img w1) (confBlock * 512) 40960 = get_bytes (img (world s)) (confBlock * 512) 40960"
      using geo by (intro get_bytes_cong w1) linarith
    with stop False show ?thesis by simp
  qed
qed

end
