(* ===== verification/Rpmb_Op.thy ===== *)
theory Rpmb_Op
  imports Rpmb_Frame
begin

text \<open>
  Package \<open>rpmb\<close> (\<open>src/rpmb/op.go\<close>, \<open>src/rpmb/rpmb.go\<close>): the request/response exchange
  \<open>op\<close>, the data transfer built on it, and the exported operations. The uSDHC driver and the
  random source live outside the repository: they are the record \<open>rpmb_hw\<close> of operations on a
  world \<open>'w\<close>, and nothing is assumed about them in this theory, so its lemmas hold for a
  malicious card. The mutex of an instance is held over the whole of \<open>op\<close>; here one call runs at a
  time, and theory \<open>Rpmb_Concurrent\<close> interleaves the exchanges of several.
\<close>

section \<open>The driver and an instance\<close>

text \<open>\<open>ReadRPMB\<close> fills the caller's buffer: it is given its length and returns the bytes it
  stored there. \<open>hw_MMC\<close> is \<open>card.Info().MMC\<close>, \<open>hw_rand\<close> is \<open>crypto/rand\<close>.\<close>

record 'w rpmb_hw =
  hw_MMC :: "'w \<Rightarrow> bool"
  hw_WriteRPMB :: "bytes \<Rightarrow> bool \<Rightarrow> ('w, unit) io"
  hw_ReadRPMB :: "nat \<Rightarrow> ('w, bytes) io"
  hw_rand :: "nat \<Rightarrow> ('w, bytes) io"

definition keyLen :: nat where "keyLen = 32"

record RPMB =
  key :: bytes
  init :: bool

section \<open>Operations\<close>

definition rng :: "'w rpmb_hw \<Rightarrow> nat \<Rightarrow> ('w, bytes) io" where
  "rng hw n = tryS (hw_rand hw n) (\<lambda>r. case r of
      Inl e \<Rightarrow> haltS ''log.Fatal''
    | Inr bs \<Rightarrow> retS (go_copy (zeros n) bs))"

definition op_request_mac :: "RPMB \<Rightarrow> DataFrame \<Rightarrow> Config \<Rightarrow> DataFrame" where
  "op_request_mac p req cfg =
     (if RequestMAC cfg
      then req\<lparr>KeyMAC := go_copy (KeyMAC req) (hmac_sha256 (key p) (mac_part (Bytes req)))\<rparr>
      else req)"

definition op_nonce :: "'w rpmb_hw \<Rightarrow> DataFrame \<Rightarrow> Config \<Rightarrow> ('w, DataFrame) io" where
  "op_nonce hw req cfg =
     (if RandomNonce cfg
      then bindS (rng hw (length (Nonce req))) (\<lambda>n. retS (req\<lparr>Nonce := go_copy (Nonce req) n\<rparr>))
      else retS req)"

definition op_reliable :: "DataFrame \<Rightarrow> bool" where
  "op_reliable req \<longleftrightarrow> Req req = AuthenticationKeyProgramming \<or> Req req = AuthenticatedDataWrite
     \<or> Req req = AuthenticatedDeviceConfigurationWrite"

definition op_validate :: "RPMB \<Rightarrow> DataFrame \<Rightarrow> Config \<Rightarrow> bytes \<Rightarrow> DataFrame res" where
  "op_validate p req cfg buf = (case read_frame buf of
      Ok r \<Rightarrow>
        if ResponseMAC cfg \<and> KeyMAC r \<noteq> hmac_sha256 (key p) (mac_part buf)
        then Err (ErrorsNew ''invalid response MAC'')
        else if Req req \<noteq> Resp r then Err (ErrorsNew ''request/response type mismatch'')
        else if Nonce req \<noteq> Nonce r then Err (ErrorsNew ''nonce mismatch'')
        else if be16 (Result r) \<noteq> OperationOK then Err (OperationError (be16 (Result r)))
        else Ok r
    | Err e \<Rightarrow> Err e
    | Halt m \<Rightarrow> Halt m)"

definition op :: "'w rpmb_hw \<Rightarrow> RPMB \<Rightarrow> DataFrame \<Rightarrow> Config \<Rightarrow> ('w, DataFrame) io" where
  "op hw p req cfg =
     (if \<not> init p then failS (ErrorsNew ''RPMB instance not initialized'')
      else bindS (op_nonce hw (op_request_mac p req cfg) cfg) (\<lambda>rq.
           bindS (hw_WriteRPMB hw (Bytes rq) (op_reliable rq)) (\<lambda>_.
           bindS (if ResultRead cfg
                  then hw_WriteRPMB hw (Bytes (zero_frame\<lparr>Req := ResultReadRequest\<rparr>)) False
                  else retS ()) (\<lambda>_.
           bindS (hw_ReadRPMB hw FrameLength) (\<lambda>got.
           (\<lambda>w. (op_validate p rq cfg (go_copy (zeros FrameLength) got), w)))))))"

definition Counter :: "'w rpmb_hw \<Rightarrow> RPMB \<Rightarrow> bool \<Rightarrow> ('w, 32 word) io" where
  "Counter hw p auth =
     bindS (op hw p (zero_frame\<lparr>Req := WriteCounterRead\<rparr>)
              (zero_config\<lparr>RandomNonce := auth, ResponseMAC := auth\<rparr>))
       (\<lambda>r. retS (frame_Counter r))"

text \<open>The request frame of \<open>transfer\<close>; \<open>counter\<close> is present for a write only.\<close>

definition transfer_request :: "byte \<Rightarrow> 16 word \<Rightarrow> bytes \<Rightarrow> 32 word option \<Rightarrow> DataFrame" where
  "transfer_request kind offset buf counter = zero_frame\<lparr>
     Req := kind,
     WriteCounter := (case counter of None \<Rightarrow> zeros 4 | Some c \<Rightarrow> put_be32 c),
     BlockCount := put_be16 1,
     Address := put_be16 offset,
     Data := go_copy (zeros 256) buf\<rparr>"

text \<open>\<open>transfer\<close> returns the contents of the caller's buffer, which a read overwrites.\<close>

definition transfer :: "'w rpmb_hw \<Rightarrow> RPMB \<Rightarrow> byte \<Rightarrow> 16 word \<Rightarrow> bytes \<Rightarrow> ('w, bytes) io" where
  "transfer hw p kind offset buf =
     (if FrameLength div 2 < length buf
      then failS (ErrorsNew ''transfer size must not exceed 256 bytes'')
      else
        let cfg = zero_config\<lparr>RequestMAC := True, ResponseMAC := True\<rparr> in
        bindS (if kind = AuthenticatedDataWrite
               then bindS (Counter hw p True) (\<lambda>c.
                      retS (transfer_request kind offset buf (Some c), cfg\<lparr>ResultRead := True\<rparr>))
               else retS (transfer_request kind offset buf None, cfg\<lparr>RandomNonce := True\<rparr>))
          (\<lambda>(req, cfg').
        bindS (op hw p req cfg') (\<lambda>r.
          if kind = AuthenticatedDataRead then retS (go_copy buf (Data r))
          else if frame_Counter r \<noteq> frame_Counter req + 1
          then failS (ErrorsNew ''write counter mismatch'')
          else retS buf)))"

definition Write :: "'w rpmb_hw \<Rightarrow> RPMB \<Rightarrow> 16 word \<Rightarrow> bytes \<Rightarrow> ('w, unit) io" where
  "Write hw p offset buf =
     bindS (transfer hw p AuthenticatedDataWrite offset buf) (\<lambda>_. retS ())"

definition Read :: "'w rpmb_hw \<Rightarrow> RPMB \<Rightarrow> 16 word \<Rightarrow> bytes \<Rightarrow> ('w, bytes) io" where
  "Read hw p offset buf = transfer hw p AuthenticatedDataRead offset buf"

definition ProgramKey :: "'w rpmb_hw \<Rightarrow> RPMB \<Rightarrow> ('w, unit) io" where
  "ProgramKey hw p =
     bindS (op hw p (zero_frame\<lparr>KeyMAC := key p, Req := AuthenticationKeyProgramming\<rparr>)
              (zero_config\<lparr>ResultRead := True\<rparr>))
       (\<lambda>_. retS ())"

text \<open>\<open>mmc\<close>, the argument \<open>card\<close>, is \<open>None\<close> for a nil pointer.\<close>

definition Init :: "'w rpmb_hw option \<Rightarrow> bytes \<Rightarrow> 16 word \<Rightarrow> bool \<Rightarrow> ('w, RPMB) io" where
  "Init mmc k dummyBlock writeDummy = (case mmc of
      None \<Rightarrow> failS (ErrorsNew ''no MMC card set'')
    | Some hw \<Rightarrow>
        bindS (getS (hw_MMC hw)) (\<lambda>present.
        if \<not> present then failS (ErrorsNew ''no MMC card detected'')
        else if length k \<noteq> keyLen then failS (ErrorsNew ''invalid MAC key size'')
        else
          let p = \<lparr>key = go_copy (zeros keyLen) k, init = True\<rparr> in
          if writeDummy then bindS (Write hw p dummyBlock []) (\<lambda>_. retS p)
          else retS p))"

section \<open>What a response must satisfy\<close>

text \<open>The configuration with which \<open>transfer\<close> sends a write.\<close>

definition write_config :: Config where
  "write_config = zero_config\<lparr>RequestMAC := True, ResponseMAC := True, ResultRead := True\<rparr>"

text \<open>\<open>authentic k d\<close>: the MAC field of \<open>d\<close> is the HMAC of everything behind it.\<close>

definition authentic :: "bytes \<Rightarrow> DataFrame \<Rightarrow> bool" where
  "authentic k d \<longleftrightarrow> KeyMAC d = hmac_sha256 k (mac_part (Bytes d))"

lemma frame_ok_transfer_request [simp]: "frame_ok (transfer_request kind offset buf c)"
  by (simp add: transfer_request_def frame_ok_def zero_frame_def split: option.split)

lemma transfer_request_fields [simp]:
  "Req (transfer_request kind offset buf c) = kind"
  "Address (transfer_request kind offset buf c) = put_be16 offset"
  "BlockCount (transfer_request kind offset buf c) = put_be16 1"
  "Data (transfer_request kind offset buf c) = go_copy (zeros 256) buf"
  "Nonce (transfer_request kind offset buf c) = zeros 16"
  "frame_Counter (transfer_request kind offset buf (Some n)) = n"
  "WriteCounter (transfer_request kind offset buf (Some n)) = put_be32 n"
  by (simp_all add: transfer_request_def zero_frame_def frame_Counter_def)

lemma frame_ok_op_request_mac [simp]: "frame_ok req \<Longrightarrow> frame_ok (op_request_mac p req cfg)"
  by (auto simp: op_request_mac_def frame_ok_def)

lemma op_request_mac_fields [simp]:
  "Req (op_request_mac p req cfg) = Req req"
  "Nonce (op_request_mac p req cfg) = Nonce req"
  "Data (op_request_mac p req cfg) = Data req"
  "Address (op_request_mac p req cfg) = Address req"
  "BlockCount (op_request_mac p req cfg) = BlockCount req"
  "WriteCounter (op_request_mac p req cfg) = WriteCounter req"
  by (simp_all add: op_request_mac_def)

text \<open>A request that asks for a MAC and sets no nonce leaves authenticated.\<close>

lemma authentic_op_request_mac:
  assumes "frame_ok req" and "RequestMAC cfg"
  shows "authentic (key p) (op_request_mac p req cfg)"
proof -
  let ?r = "op_request_mac p req cfg"
  have "mac_part (Bytes ?r) = mac_part (Bytes req)"
    using assms(1) mac_part_eq_iff [of ?r req] by (simp add: op_request_mac_def frame_ok_def)
  moreover have "KeyMAC ?r = hmac_sha256 (key p) (mac_part (Bytes req))"
    using assms by (simp add: op_request_mac_def frame_ok_def)
  ultimately show ?thesis by (simp add: authentic_def)
qed

lemma op_validate_Ok:
  assumes "length buf = FrameLength" and "op_validate p req cfg buf = Ok r"
  shows "frame_ok r" and "ResponseMAC cfg \<Longrightarrow> authentic (key p) r" and "Resp r = Req req"
    and "Nonce r = Nonce req" and "be16 (Result r) = OperationOK" and "Bytes r = buf"
proof -
  from assms(2) have r: "read_frame buf = Ok r"
    by (auto simp: op_validate_def split: res.splits if_splits)
  show ok: "frame_ok r" and bytes: "Bytes r = buf"
    using read_frame_ok [OF assms(1) r] by auto
  show "ResponseMAC cfg \<Longrightarrow> authentic (key p) r"
    using assms(2) r bytes by (auto simp: op_validate_def authentic_def split: if_splits)
  show "Resp r = Req req" "Nonce r = Nonce req" "be16 (Result r) = OperationOK"
    using assms(2) r by (auto simp: op_validate_def split: if_splits)
qed

text \<open>The request as sent: \<open>op\<close> returns only a frame that passed validation against it.\<close>

lemma op_nonce_Ok:
  "op_nonce hw req cfg w = (Ok rq, w') \<Longrightarrow> frame_ok req \<Longrightarrow> frame_ok rq \<and> Req rq = Req req
     \<and> (\<not> RandomNonce cfg \<longrightarrow> rq = req \<and> w' = w)"
  by (auto simp: op_nonce_def rng_def io_simps frame_ok_def
      split: if_splits prod.splits res.splits sum.splits)

lemma op_Ok:
  assumes "op hw p req cfg w = (Ok r, w')" and "frame_ok req"
  shows "init p" and "frame_ok r" and "ResponseMAC cfg \<Longrightarrow> authentic (key p) r"
    and "Resp r = Req req" and "be16 (Result r) = OperationOK"
    and "\<exists>rq v. op_nonce hw (op_request_mac p req cfg) cfg w = (Ok rq, v) \<and> Nonce r = Nonce rq"
proof -
  show "init p" using assms(1) by (auto simp: op_def split: if_splits)
  then obtain rq v got where rq: "op_nonce hw (op_request_mac p req cfg) cfg w = (Ok rq, v)"
    and val: "op_validate p rq cfg (go_copy (zeros FrameLength) got) = Ok r"
    using assms(1) by (auto simp: op_def elim!: bindS_OkE)
  have "length (go_copy (zeros FrameLength) got) = FrameLength" by simp
  note v = op_validate_Ok [OF this val]
  from op_nonce_Ok [OF rq] assms(2) have "Req rq = Req req" by simp
  with v rq show "frame_ok r" "ResponseMAC cfg \<Longrightarrow> authentic (key p) r" "Resp r = Req req"
    "be16 (Result r) = OperationOK"
    "\<exists>rq v. op_nonce hw (op_request_mac p req cfg) cfg w = (Ok rq, v) \<and> Nonce r = Nonce rq"
    by auto
qed

text \<open>A write that reports success has seen an authenticated counter value \<open>c\<close> and, after it,
  an authenticated response for the write whose counter is \<open>c + 1\<close>.\<close>

lemma transfer_write_Ok:
  assumes "transfer hw p AuthenticatedDataWrite offset buf w = (Ok b, w')"
  shows "\<exists>c v r. Counter hw p True w = (Ok c, v)
    \<and> op hw p (transfer_request AuthenticatedDataWrite offset buf (Some c))
        (zero_config\<lparr>RequestMAC := True, ResponseMAC := True, ResultRead := True\<rparr>) v = (Ok r, w')
    \<and> frame_Counter r = c + 1 \<and> length buf \<le> 256 \<and> b = buf"
  using assms
  by (auto simp: transfer_def message_types FrameLength_def Let_def
      elim!: bindS_OkE split: if_splits)

lemma transfer_read_Ok:
  assumes "transfer hw p AuthenticatedDataRead offset buf w = (Ok b, w')"
  shows "\<exists>r. op hw p (transfer_request AuthenticatedDataRead offset buf None)
        (zero_config\<lparr>RequestMAC := True, ResponseMAC := True, RandomNonce := True\<rparr>) w = (Ok r, w')
    \<and> b = go_copy buf (Data r) \<and> length buf \<le> 256"
  using assms
  by (auto simp: transfer_def message_types FrameLength_def Let_def
      elim!: bindS_OkE split: if_splits)

end
