(* ===== verification/Rpmb_Device.thy ===== *)
theory Rpmb_Device
  imports Rpmb_Op
begin

text \<open>
  What the package relies on from the eMMC: the locale \<open>rpmb_device\<close> states the exchanges of
  JESD84-B51 (section 6.6.22) that package \<open>rpmb\<close> uses, over three views of the device (its
  key, write counter and 256-byte sectors). The package's operations are proved correct once
  inside the locale: the counter that is read is the device's, a write stores the zero-padded
  data and advances the counter by one, a read returns what is stored. \<open>emmc\<close> is an
  executable device with the standard's checks; it interprets the locale.
\<close>

section \<open>Driving \<open>op\<close> to a result\<close>

lemma op_eval:
  assumes "init p" and "op_nonce hw (op_request_mac p req cfg) cfg w = (Ok rq, v)"
    and "hw_WriteRPMB hw (Bytes rq) (op_reliable rq) v = (Ok (), v1)"
    and "if ResultRead cfg
         then hw_WriteRPMB hw (Bytes (zero_frame\<lparr>Req := ResultReadRequest\<rparr>)) False v1 = (Ok (), v2)
         else v2 = v1"
    and "hw_ReadRPMB hw FrameLength v2 = (Ok got, v3)"
  shows "op hw p req cfg w = (op_validate p rq cfg (go_copy (zeros FrameLength) got), v3)"
  using assms by (simp add: op_def bindS_apply split: if_splits)

lemma op_validate_good:
  assumes "frame_ok r" and "ResponseMAC cfg \<Longrightarrow> authentic (key p) r" and "Resp r = Req rq"
    and "Nonce r = Nonce rq" and "be16 (Result r) = OperationOK"
  shows "op_validate p rq cfg (Bytes r) = Ok r"
  using assms by (auto simp: op_validate_def authentic_def)

section \<open>The contract of the device\<close>

locale rpmb_device =
  fixes hw :: "'w rpmb_hw"
    and dkey :: "'w \<Rightarrow> bytes option"
    and dctr :: "'w \<Rightarrow> 32 word"
    and dmem :: "'w \<Rightarrow> 16 word \<Rightarrow> bytes"
  assumes sector_len: "length (dmem w a) = 256"
    and rand: "\<exists>bs w'. hw_rand hw n w = (Ok bs, w') \<and> length bs = n
      \<and> dkey w' = dkey w \<and> dctr w' = dctr w \<and> dmem w' = dmem w"
    and counter_read: "frame_ok f \<Longrightarrow> Req f = WriteCounterRead \<Longrightarrow> dkey w = Some k \<Longrightarrow>
      \<exists>w1 w2 r. hw_WriteRPMB hw (Bytes f) False w = (Ok (), w1)
        \<and> hw_ReadRPMB hw FrameLength w1 = (Ok (Bytes r), w2)
        \<and> frame_ok r \<and> authentic k r \<and> Resp r = WriteCounterRead \<and> Nonce r = Nonce f
        \<and> frame_Counter r = dctr w \<and> be16 (Result r) = OperationOK
        \<and> dkey w2 = dkey w \<and> dctr w2 = dctr w \<and> dmem w2 = dmem w"
    and counter_read_blank: "frame_ok f \<Longrightarrow> Req f = WriteCounterRead \<Longrightarrow> dkey w = None \<Longrightarrow>
      \<exists>w1 w2 r. hw_WriteRPMB hw (Bytes f) False w = (Ok (), w1)
        \<and> hw_ReadRPMB hw FrameLength w1 = (Ok (Bytes r), w2)
        \<and> frame_ok r \<and> Resp r = WriteCounterRead \<and> Nonce r = Nonce f
        \<and> be16 (Result r) = AuthenticationKeyNotYetProgrammed
        \<and> dkey w2 = dkey w \<and> dctr w2 = dctr w \<and> dmem w2 = dmem w"
    and key_program: "frame_ok f \<Longrightarrow> Req f = AuthenticationKeyProgramming \<Longrightarrow> dkey w = None \<Longrightarrow>
      \<exists>w1 w2 w3 r. hw_WriteRPMB hw (Bytes f) True w = (Ok (), w1)
        \<and> hw_WriteRPMB hw (Bytes (zero_frame\<lparr>Req := ResultReadRequest\<rparr>)) False w1 = (Ok (), w2)
        \<and> hw_ReadRPMB hw FrameLength w2 = (Ok (Bytes r), w3)
        \<and> frame_ok r \<and> Resp r = AuthenticationKeyProgramming \<and> Nonce r = zeros 16
        \<and> be16 (Result r) = OperationOK
        \<and> dkey w3 = Some (KeyMAC f) \<and> dctr w3 = dctr w \<and> dmem w3 = dmem w"
    and data_write: "frame_ok f \<Longrightarrow> Req f = AuthenticatedDataWrite \<Longrightarrow> dkey w = Some k \<Longrightarrow>
      authentic k f \<Longrightarrow> frame_Counter f = dctr w \<Longrightarrow> dctr w \<noteq> -1 \<Longrightarrow> BlockCount f = put_be16 1 \<Longrightarrow>
      \<exists>w1 w2 w3 r. hw_WriteRPMB hw (Bytes f) True w = (Ok (), w1)
        \<and> hw_WriteRPMB hw (Bytes (zero_frame\<lparr>Req := ResultReadRequest\<rparr>)) False w1 = (Ok (), w2)
        \<and> hw_ReadRPMB hw FrameLength w2 = (Ok (Bytes r), w3)
        \<and> frame_ok r \<and> authentic k r \<and> Resp r = AuthenticatedDataWrite \<and> Nonce r = zeros 16
        \<and> frame_Counter r = dctr w + 1 \<and> be16 (Result r) = OperationOK
        \<and> dkey w3 = dkey w \<and> dctr w3 = dctr w + 1
        \<and> dmem w3 = (dmem w)(be16 (Address f) := Data f)"
    and data_read: "frame_ok f \<Longrightarrow> Req f = AuthenticatedDataRead \<Longrightarrow> dkey w = Some k \<Longrightarrow>
      BlockCount f = put_be16 1 \<Longrightarrow>
      \<exists>w1 w2 r. hw_WriteRPMB hw (Bytes f) False w = (Ok (), w1)
        \<and> hw_ReadRPMB hw FrameLength w1 = (Ok (Bytes r), w2)
        \<and> frame_ok r \<and> authentic k r \<and> Resp r = AuthenticatedDataRead \<and> Nonce r = Nonce f
        \<and> Data r = dmem w (be16 (Address f)) \<and> be16 (Result r) = OperationOK
        \<and> dkey w2 = dkey w \<and> dctr w2 = dctr w \<and> dmem w2 = dmem w"
begin

text \<open>The views of the device are the same in two worlds.\<close>

definition same_dev :: "'w \<Rightarrow> 'w \<Rightarrow> bool" where
  "same_dev w v \<longleftrightarrow> dkey v = dkey w \<and> dctr v = dctr w \<and> dmem v = dmem w"

lemma rng_ok: "\<exists>bs w'. rng hw n w = (Ok bs, w') \<and> length bs = n \<and> same_dev w w'"
proof -
  obtain bs w' where "hw_rand hw n w = (Ok bs, w')" "length bs = n" "same_dev w w'"
    using rand [of n w] unfolding same_dev_def by blast
  then show ?thesis by (auto simp: rng_def tryS_apply)
qed

lemma op_nonce_ok:
  assumes "frame_ok req"
  shows "\<exists>rq w'. op_nonce hw req cfg w = (Ok rq, w') \<and> frame_ok rq \<and> rq = req\<lparr>Nonce := Nonce rq\<rparr>
    \<and> (\<not> RandomNonce cfg \<longrightarrow> rq = req) \<and> same_dev w w'"
proof (cases "RandomNonce cfg")
  case True
  obtain bs w' where "rng hw 16 w = (Ok bs, w')" "length bs = 16" "same_dev w w'"
    using rng_ok by blast
  with True assms show ?thesis
    by (intro exI [of _ "req\<lparr>Nonce := bs\<rparr>"] exI [of _ w'])
      (simp add: op_nonce_def bindS_apply frame_ok_def)
next
  case False
  with assms show ?thesis by (simp add: op_nonce_def same_dev_def)
qed

lemma Counter_ok:
  assumes "init p" and "dkey w = Some (key p)"
  shows "\<exists>w'. Counter hw p auth w = (Ok (dctr w), w') \<and> same_dev w w'"
proof -
  let ?req = "zero_frame\<lparr>Req := WriteCounterRead\<rparr>"
  let ?cfg = "zero_config\<lparr>RandomNonce := auth, ResponseMAC := auth\<rparr>"
  have mac: "op_request_mac p ?req ?cfg = ?req" by (simp add: op_request_mac_def zero_config_def)
  obtain rq v where rq: "op_nonce hw ?req ?cfg w = (Ok rq, v)" "frame_ok rq"
      "rq = ?req\<lparr>Nonce := Nonce rq\<rparr>" and same: "same_dev w v"
    using op_nonce_ok [of ?req ?cfg w] by auto
  have kind: "Req rq = WriteCounterRead"
    by (subst rq(3)) simp
  from same assms(2) have key: "dkey v = Some (key p)" by (simp add: same_dev_def)
  from counter_read [OF rq(2) kind key] obtain w1 w2 r where
    ex: "hw_WriteRPMB hw (Bytes rq) False v = (Ok (), w1)"
      "hw_ReadRPMB hw FrameLength w1 = (Ok (Bytes r), w2)"
    and r: "frame_ok r" "authentic (key p) r" "Resp r = WriteCounterRead" "Nonce r = Nonce rq"
      "be16 (Result r) = OperationOK" and ctr: "frame_Counter r = dctr v" and s2: "same_dev v w2"
    by (auto simp: same_dev_def)
  have "op hw p ?req ?cfg w = (op_validate p rq ?cfg (go_copy (zeros FrameLength) (Bytes r)), w2)"
    using assms(1) rq(1) mac ex kind
    by (intro op_eval [where v = v]) (simp_all add: op_reliable_def message_types zero_config_def)
  also have "\<dots> = (Ok r, w2)" using r kind by (simp add: op_validate_good)
  finally show ?thesis using ctr same s2 by (simp add: Counter_def bindS_apply same_dev_def)
qed

text \<open>An unauthenticated counter read on a device without a key reports the result code the
  initialisation code waits for.\<close>

lemma Counter_blank:
  assumes "init p" and "dkey w = None"
  shows "\<exists>w'. Counter hw p False w = (Err (OperationError AuthenticationKeyNotYetProgrammed), w')
    \<and> same_dev w w'"
proof -
  let ?req = "zero_frame\<lparr>Req := WriteCounterRead\<rparr>"
  let ?cfg = "zero_config\<lparr>RandomNonce := False, ResponseMAC := False\<rparr>"
  have rq: "op_nonce hw (op_request_mac p ?req ?cfg) ?cfg w = (Ok ?req, w)"
    by (simp add: op_request_mac_def op_nonce_def zero_config_def)
  have "frame_ok ?req" "Req ?req = WriteCounterRead" by simp_all
  from counter_read_blank [OF this assms(2)] obtain w1 w2 r where
    ex: "hw_WriteRPMB hw (Bytes ?req) False w = (Ok (), w1)"
      "hw_ReadRPMB hw FrameLength w1 = (Ok (Bytes r), w2)"
    and r: "frame_ok r" "Resp r = WriteCounterRead" "Nonce r = zeros 16"
      "be16 (Result r) = AuthenticationKeyNotYetProgrammed" and s2: "same_dev w w2"
    by (auto simp: same_dev_def zero_frame_def)
  have "op hw p ?req ?cfg w = (op_validate p ?req ?cfg (go_copy (zeros FrameLength) (Bytes r)), w2)"
    using assms(1) rq ex
    by (intro op_eval [where v = w]) (simp_all add: op_reliable_def message_types zero_config_def)
  also have "\<dots> = (Err (OperationError AuthenticationKeyNotYetProgrammed), w2)"
    using r by (simp add: op_validate_def zero_config_def zero_frame_def result_codes)
  finally show ?thesis using s2 by (simp add: Counter_def bindS_apply)
qed

text \<open>A write request in one exchange: the device's counter decides.\<close>

abbreviation "write_request p offset buf c \<equiv>
  op_request_mac p (transfer_request AuthenticatedDataWrite offset buf (Some c)) write_config"

lemma op_write_ok:
  assumes "init p" and "dkey w = Some (key p)" and "dctr w \<noteq> -1"
  shows "\<exists>r w'. op hw p (transfer_request AuthenticatedDataWrite offset buf (Some (dctr w))) write_config w = (Ok r, w')
    \<and> frame_Counter r = dctr w + 1 \<and> dkey w' = dkey w \<and> dctr w' = dctr w + 1
    \<and> dmem w' = (dmem w)(offset := go_copy (zeros 256) buf)"
proof -
  let ?req = "transfer_request AuthenticatedDataWrite offset buf (Some (dctr w))"
  let ?rq = "write_request p offset buf (dctr w)"
  have "authentic (key p) ?rq" by (rule authentic_op_request_mac) (simp_all add: write_config_def)
  then have "\<exists>w1 w2 w3 r. hw_WriteRPMB hw (Bytes ?rq) True w = (Ok (), w1)
        \<and> hw_WriteRPMB hw (Bytes (zero_frame\<lparr>Req := ResultReadRequest\<rparr>)) False w1 = (Ok (), w2)
        \<and> hw_ReadRPMB hw FrameLength w2 = (Ok (Bytes r), w3)
        \<and> frame_ok r \<and> authentic (key p) r \<and> Resp r = AuthenticatedDataWrite \<and> Nonce r = zeros 16
        \<and> frame_Counter r = dctr w + 1 \<and> be16 (Result r) = OperationOK
        \<and> dkey w3 = dkey w \<and> dctr w3 = dctr w + 1
        \<and> dmem w3 = (dmem w)(be16 (Address ?rq) := Data ?rq)"
    using assms by (intro data_write) (simp_all add: frame_Counter_def)
  then obtain w1 w2 w3 r where ex: "hw_WriteRPMB hw (Bytes ?rq) True w = (Ok (), w1)"
      "hw_WriteRPMB hw (Bytes (zero_frame\<lparr>Req := ResultReadRequest\<rparr>)) False w1 = (Ok (), w2)"
      "hw_ReadRPMB hw FrameLength w2 = (Ok (Bytes r), w3)"
    and r: "frame_ok r" "authentic (key p) r" "Resp r = AuthenticatedDataWrite" "Nonce r = zeros 16"
      "be16 (Result r) = OperationOK"
    and post: "frame_Counter r = dctr w + 1" "dkey w3 = dkey w" "dctr w3 = dctr w + 1"
      "dmem w3 = (dmem w)(be16 (Address ?rq) := Data ?rq)"
    by auto
  have "op hw p ?req write_config w = (op_validate p ?rq write_config (go_copy (zeros FrameLength) (Bytes r)), w3)"
    using assms(1) ex
    by (intro op_eval [where v = w]) (simp_all add: op_nonce_def op_reliable_def write_config_def zero_config_def)
  also have "\<dots> = (Ok r, w3)" using r by (simp add: op_validate_good)
  finally show ?thesis using post by simp
qed

lemma Write_ok:
  assumes "init p" and "dkey w = Some (key p)" and "dctr w \<noteq> -1" and "length buf \<le> 256"
  shows "\<exists>w'. Write hw p offset buf w = (Ok (), w') \<and> dkey w' = dkey w \<and> dctr w' = dctr w + 1
    \<and> dmem w' = (dmem w)(offset := go_copy (zeros 256) buf)"
proof -
  obtain v where v: "Counter hw p True w = (Ok (dctr w), v)" "same_dev w v"
    using Counter_ok [OF assms(1,2)] by blast
  then obtain r w' where "op hw p (transfer_request AuthenticatedDataWrite offset buf (Some (dctr w))) write_config v = (Ok r, w')"
    "frame_Counter r = dctr w + 1 \<and> dkey w' = dkey w \<and> dctr w' = dctr w + 1 \<and> dmem w' = (dmem w)(offset := go_copy (zeros 256) buf)"
    using op_write_ok [of p v offset buf] assms(1-3) by (auto simp: same_dev_def)
  then show ?thesis
    using v(1) assms(4)
    by (simp add: Write_def transfer_def FrameLength_def Let_def bindS_apply message_types write_config_def)
qed

lemma Read_ok:
  assumes "init p" and "dkey w = Some (key p)" and "length buf \<le> 256"
  shows "\<exists>w'. Read hw p offset buf w = (Ok (take (length buf) (dmem w offset)), w') \<and> same_dev w w'"
proof -
  let ?cfg = "zero_config\<lparr>RequestMAC := True, ResponseMAC := True, RandomNonce := True\<rparr>"
  let ?req = "transfer_request AuthenticatedDataRead offset buf None"
  let ?mq = "op_request_mac p ?req ?cfg"
  obtain rq v where rq: "op_nonce hw ?mq ?cfg w = (Ok rq, v)" "frame_ok rq"
      "rq = ?mq\<lparr>Nonce := Nonce rq\<rparr>" and same: "same_dev w v"
    using op_nonce_ok [of ?mq ?cfg w] by auto
  have f: "Req rq = AuthenticatedDataRead" "BlockCount rq = put_be16 1" "Address rq = put_be16 offset"
    by (subst rq(3), simp)+
  from same assms(2) have key: "dkey v = Some (key p)" by (simp add: same_dev_def)
  from data_read [OF rq(2) f(1) key f(2)] obtain w1 w2 r where
    ex: "hw_WriteRPMB hw (Bytes rq) False v = (Ok (), w1)"
      "hw_ReadRPMB hw FrameLength w1 = (Ok (Bytes r), w2)"
    and r: "frame_ok r" "authentic (key p) r" "Resp r = AuthenticatedDataRead" "Nonce r = Nonce rq"
      "be16 (Result r) = OperationOK" and data: "Data r = dmem v offset" and s2: "same_dev v w2"
    by (auto simp: same_dev_def f)
  have "op hw p ?req ?cfg w = (op_validate p rq ?cfg (go_copy (zeros FrameLength) (Bytes r)), w2)"
    using assms(1) rq(1) ex f
    by (intro op_eval [where v = v]) (simp_all add: op_reliable_def message_types zero_config_def)
  also have "\<dots> = (Ok r, w2)" using r f by (simp add: op_validate_good)
  finally show ?thesis
    using data same s2 assms(3) sector_len [of w offset]
    by (simp add: Read_def transfer_def FrameLength_def Let_def bindS_apply message_types
        same_dev_def go_copy_shorter)
qed

lemma ProgramKey_ok:
  assumes "init p" and "length (key p) = 32" and "dkey w = None"
  shows "\<exists>w'. ProgramKey hw p w = (Ok (), w') \<and> dkey w' = Some (key p) \<and> dctr w' = dctr w
    \<and> dmem w' = dmem w"
proof -
  let ?req = "zero_frame\<lparr>KeyMAC := key p, Req := AuthenticationKeyProgramming\<rparr>"
  let ?cfg = "zero_config\<lparr>ResultRead := True\<rparr>"
  have rq: "op_nonce hw (op_request_mac p ?req ?cfg) ?cfg w = (Ok ?req, w)"
    by (simp add: op_request_mac_def op_nonce_def zero_config_def)
  have "frame_ok ?req" "Req ?req = AuthenticationKeyProgramming" using assms(2) by simp_all
  from key_program [OF this assms(3)] obtain w1 w2 w3 r where
    ex: "hw_WriteRPMB hw (Bytes ?req) True w = (Ok (), w1)"
      "hw_WriteRPMB hw (Bytes (zero_frame\<lparr>Req := ResultReadRequest\<rparr>)) False w1 = (Ok (), w2)"
      "hw_ReadRPMB hw FrameLength w2 = (Ok (Bytes r), w3)"
    and r: "frame_ok r" "Resp r = AuthenticationKeyProgramming" "Nonce r = zeros 16"
      "be16 (Result r) = OperationOK"
    and post: "dkey w3 = Some (key p)" "dctr w3 = dctr w" "dmem w3 = dmem w"
    by auto
  have "op hw p ?req ?cfg w = (op_validate p ?req ?cfg (go_copy (zeros FrameLength) (Bytes r)), w3)"
    using assms(1) rq ex
    by (intro op_eval [where v = w]) (simp_all add: op_reliable_def zero_config_def)
  also have "\<dots> = (Ok r, w3)"
    using r op_validate_good [of r ?cfg p ?req] by (simp add: zero_config_def zero_frame_def)
  finally show ?thesis using post by (simp add: ProgramKey_def bindS_apply)
qed

end

section \<open>A device that follows the standard\<close>

text \<open>The registers of an eMMC's replay protected block: the authentication key once it is
  programmed, the write counter, the sectors, the response frame waiting to be read, and the
  state of the random source. A counter at its maximum blocks further writes for good
  (result \<open>0x85\<close>).\<close>

record emmc =
  e_key :: "bytes option"
  e_counter :: "32 word"
  e_mem :: "16 word \<Rightarrow> bytes"
  e_resp :: DataFrame
  e_seed :: nat

definition seal :: "bytes \<Rightarrow> DataFrame \<Rightarrow> DataFrame" where
  "seal k r = r\<lparr>KeyMAC := hmac_sha256 k (mac_part (Bytes r))\<rparr>"

definition emmc_refuse :: "byte \<Rightarrow> 16 word \<Rightarrow> DataFrame \<Rightarrow> DataFrame" where
  "emmc_refuse kind code f = zero_frame\<lparr>Resp := kind, Result := put_be16 code, Nonce := Nonce f\<rparr>"

definition emmc_program :: "DataFrame \<Rightarrow> emmc \<Rightarrow> emmc" where
  "emmc_program f s = (case e_key s of
      None \<Rightarrow> s\<lparr>e_key := Some (KeyMAC f),
               e_resp := zero_frame\<lparr>Resp := AuthenticationKeyProgramming\<rparr>\<rparr>
    | Some _ \<Rightarrow> s\<lparr>e_resp := emmc_refuse AuthenticationKeyProgramming GeneralFailure zero_frame\<rparr>)"

definition emmc_counter :: "DataFrame \<Rightarrow> emmc \<Rightarrow> emmc" where
  "emmc_counter f s = (case e_key s of
      None \<Rightarrow> s\<lparr>e_resp := emmc_refuse WriteCounterRead AuthenticationKeyNotYetProgrammed f\<rparr>
    | Some k \<Rightarrow> s\<lparr>e_resp := seal k (zero_frame\<lparr>Resp := WriteCounterRead, Nonce := Nonce f,
        WriteCounter := put_be32 (e_counter s)\<rparr>)\<rparr>)"

definition emmc_write :: "DataFrame \<Rightarrow> emmc \<Rightarrow> emmc" where
  "emmc_write f s = (case e_key s of
      None \<Rightarrow> s\<lparr>e_resp := emmc_refuse AuthenticatedDataWrite AuthenticationKeyNotYetProgrammed zero_frame\<rparr>
    | Some k \<Rightarrow>
        if e_counter s = -1 then s\<lparr>e_resp := seal k (emmc_refuse AuthenticatedDataWrite 0x85 zero_frame)\<rparr>
        else if \<not> authentic k f
        then s\<lparr>e_resp := seal k (emmc_refuse AuthenticatedDataWrite AuthenticationFailure zero_frame)\<rparr>
        else if frame_Counter f \<noteq> e_counter s
        then s\<lparr>e_resp := seal k (emmc_refuse AuthenticatedDataWrite CounterFailure zero_frame)\<rparr>
        else s\<lparr>e_counter := e_counter s + 1,
               e_mem := (e_mem s)(be16 (Address f) := Data f),
               e_resp := seal k (zero_frame\<lparr>Resp := AuthenticatedDataWrite, Address := Address f,
                 WriteCounter := put_be32 (e_counter s + 1)\<rparr>)\<rparr>)"

definition emmc_read :: "DataFrame \<Rightarrow> emmc \<Rightarrow> emmc" where
  "emmc_read f s = (case e_key s of
      None \<Rightarrow> s\<lparr>e_resp := emmc_refuse AuthenticatedDataRead AuthenticationKeyNotYetProgrammed f\<rparr>
    | Some k \<Rightarrow> s\<lparr>e_resp := seal k (zero_frame\<lparr>Resp := AuthenticatedDataRead, Nonce := Nonce f,
        Address := Address f, BlockCount := BlockCount f,
        Data := go_copy (zeros 256) (e_mem s (be16 (Address f)))\<rparr>)\<rparr>)"

definition emmc_request :: "DataFrame \<Rightarrow> emmc \<Rightarrow> emmc" where
  "emmc_request f s =
     (if Req f = AuthenticationKeyProgramming then emmc_program f s
      else if Req f = WriteCounterRead then emmc_counter f s
      else if Req f = AuthenticatedDataWrite then emmc_write f s
      else if Req f = AuthenticatedDataRead then emmc_read f s
      else if Req f = ResultReadRequest then s
      else s\<lparr>e_resp := emmc_refuse (Req f) GeneralFailure f\<rparr>)"

definition emmc_hw :: "emmc rpmb_hw" where
  "emmc_hw = \<lparr>hw_MMC = (\<lambda>_. True),
     hw_WriteRPMB = (\<lambda>buf rel s. case read_frame buf of
        Ok f \<Rightarrow> (Ok (), emmc_request f s)
      | Err e \<Rightarrow> (Err e, s)
      | Halt m \<Rightarrow> (Halt m, s)),
     hw_ReadRPMB = (\<lambda>n s. (Ok (take n (Bytes (e_resp s))), s)),
     hw_rand = (\<lambda>n s. (Ok (replicate n (word_of_nat (e_seed s))), s\<lparr>e_seed := e_seed s + 1\<rparr>))\<rparr>"

definition emmc_sector :: "emmc \<Rightarrow> 16 word \<Rightarrow> bytes" where
  "emmc_sector s a = go_copy (zeros 256) (e_mem s a)"

lemma frame_ok_seal [simp]: "frame_ok r \<Longrightarrow> frame_ok (seal k r)"
  by (simp add: seal_def)

lemma authentic_seal [simp]: "frame_ok r \<Longrightarrow> authentic k (seal k r)"
  using mac_part_eq_iff [of "seal k r" r] by (simp add: authentic_def seal_def)

lemma seal_fields [simp]:
  "Resp (seal k r) = Resp r" "Nonce (seal k r) = Nonce r" "Result (seal k r) = Result r"
  "Data (seal k r) = Data r" "frame_Counter (seal k r) = frame_Counter r"
  by (simp_all add: seal_def frame_Counter_def)

lemma zero_frame_fields [simp]:
  "Result zero_frame = put_be16 0" "Nonce zero_frame = zeros 16"
  by (simp_all add: zero_frame_def put_be16_def zeros_def numeral_eq_Suc)

lemma emmc_exchange:
  assumes "frame_ok f"
  shows "hw_WriteRPMB emmc_hw (Bytes f) rel s = (Ok (), emmc_request f s)"
    and "frame_ok (e_resp s) \<Longrightarrow>
      hw_ReadRPMB emmc_hw FrameLength s = (Ok (Bytes (e_resp s)), s)"
  using assms by (simp_all add: emmc_hw_def)

lemma emmc_result_read:
  "hw_WriteRPMB emmc_hw (Bytes (zero_frame\<lparr>Req := ResultReadRequest\<rparr>)) rel s = (Ok (), s)"
  by (subst emmc_exchange) (simp_all add: emmc_request_def message_types)

lemmas emmc_ops = emmc_program_def emmc_counter_def emmc_write_def emmc_read_def

interpretation ref_dev: rpmb_device emmc_hw e_key e_counter emmc_sector
proof (unfold_locales, goal_cases)
  case (1 w a)
  show ?case by (simp add: emmc_sector_def)
next
  case (2 n w)
  show ?case by (simp add: emmc_hw_def emmc_sector_def fun_eq_iff)
next
  case (3 f w k)
  let ?r = "e_resp (emmc_request f w)"
  have "frame_ok ?r \<and> authentic k ?r \<and> Resp ?r = WriteCounterRead \<and> Nonce ?r = Nonce f
    \<and> frame_Counter ?r = e_counter w \<and> be16 (Result ?r) = OperationOK"
    using 3 by (simp add: emmc_request_def emmc_counter_def message_types OperationOK_def
        frame_Counter_def [of "zero_frame\<lparr>Resp := _, Nonce := _, WriteCounter := _\<rparr>"]
        frame_ok_def [of f])
  moreover have "e_key (emmc_request f w) = e_key w" "e_counter (emmc_request f w) = e_counter w"
    "emmc_sector (emmc_request f w) = emmc_sector w"
    using 3 by (simp_all add: emmc_request_def emmc_counter_def message_types emmc_sector_def fun_eq_iff)
  ultimately show ?case using emmc_exchange [OF 3(1)] by blast
next
  case (4 f w)
  let ?r = "e_resp (emmc_request f w)"
  have "frame_ok ?r \<and> Resp ?r = WriteCounterRead \<and> Nonce ?r = Nonce f
    \<and> be16 (Result ?r) = AuthenticationKeyNotYetProgrammed"
    using 4 by (simp add: emmc_request_def emmc_counter_def emmc_refuse_def message_types
        frame_ok_def [of f])
  moreover have "e_key (emmc_request f w) = e_key w" "e_counter (emmc_request f w) = e_counter w"
    "emmc_sector (emmc_request f w) = emmc_sector w"
    using 4 by (simp_all add: emmc_request_def emmc_counter_def message_types emmc_sector_def fun_eq_iff)
  ultimately show ?case using emmc_exchange [OF 4(1)] by blast
next
  case (5 f w)
  let ?r = "e_resp (emmc_request f w)"
  have "frame_ok ?r \<and> Resp ?r = AuthenticationKeyProgramming \<and> Nonce ?r = zeros 16
    \<and> be16 (Result ?r) = OperationOK"
    using 5 by (simp add: emmc_request_def emmc_program_def message_types OperationOK_def)
  moreover have "e_key (emmc_request f w) = Some (KeyMAC f)"
    "e_counter (emmc_request f w) = e_counter w" "emmc_sector (emmc_request f w) = emmc_sector w"
    using 5 by (simp_all add: emmc_request_def emmc_program_def message_types emmc_sector_def fun_eq_iff)
  ultimately show ?case using emmc_exchange [OF 5(1)] emmc_result_read by blast
next
  case (6 f w k)
  let ?r = "e_resp (emmc_request f w)"
  have "frame_ok ?r \<and> authentic k ?r \<and> Resp ?r = AuthenticatedDataWrite \<and> Nonce ?r = zeros 16
    \<and> frame_Counter ?r = e_counter w + 1 \<and> be16 (Result ?r) = OperationOK"
    using 6 by (simp add: emmc_request_def emmc_write_def message_types OperationOK_def
        frame_Counter_def [of "zero_frame\<lparr>Resp := _, Address := _, WriteCounter := _\<rparr>"]
        frame_ok_def [of f])
  moreover have "e_key (emmc_request f w) = e_key w"
    "e_counter (emmc_request f w) = e_counter w + 1"
    "emmc_sector (emmc_request f w) = (emmc_sector w)(be16 (Address f) := Data f)"
    using 6 by (simp_all add: emmc_request_def emmc_write_def message_types emmc_sector_def
        fun_eq_iff frame_ok_def)
  ultimately show ?case using emmc_exchange [OF 6(1)] emmc_result_read by blast
next
  case (7 f w k)
  let ?r = "e_resp (emmc_request f w)"
  have "frame_ok ?r \<and> authentic k ?r \<and> Resp ?r = AuthenticatedDataRead \<and> Nonce ?r = Nonce f
    \<and> Data ?r = emmc_sector w (be16 (Address f)) \<and> be16 (Result ?r) = OperationOK"
    using 7 by (simp add: emmc_request_def emmc_read_def message_types OperationOK_def
        emmc_sector_def frame_ok_def [of f])
  moreover have "e_key (emmc_request f w) = e_key w" "e_counter (emmc_request f w) = e_counter w"
    "emmc_sector (emmc_request f w) = emmc_sector w"
    using 7 by (simp_all add: emmc_request_def emmc_read_def message_types emmc_sector_def fun_eq_iff)
  ultimately show ?case using emmc_exchange [OF 7(1)] by blast
qed

section \<open>Properties of package \<open>rpmb\<close>\<close>

text \<open>A programmed device and an instance with its key, for the concrete runs below.\<close>

definition demo_rpmb :: RPMB where
  "demo_rpmb = \<lparr>key = zeros 32, init = True\<rparr>"

definition demo_emmc :: emmc where
  "demo_emmc = \<lparr>e_key = Some (zeros 32), e_counter = 41, e_mem = (\<lambda>_. zeros 256),
     e_resp = zero_frame, e_seed = 7\<rparr>"

lemma demo_ready [simp]:
  "init demo_rpmb" "key demo_rpmb = zeros 32" "e_key demo_emmc = Some (zeros 32)"
  "e_counter demo_emmc = 41" "emmc_sector demo_emmc a = zeros 256"
  by (simp_all add: demo_rpmb_def demo_emmc_def emmc_sector_def)

text \<open>C36: the frame layout. A frame of the declared array sizes serialises to 512 bytes with each field at
  the offset of Table 17 of JESD84-B51, the write counter most significant byte first; the MAC covers the
  284 bytes from the data on; the frame reads back as itself, and every 512-byte response parses to a
  well-formed frame whose serialisation is the response.\<close>

theorem frame_codec_roundtrip:
  "(frame_ok d \<longrightarrow> length (Bytes d) = 512 \<and> read_frame (Bytes d) = Ok d
      \<and> take 32 (drop 196 (Bytes d)) = KeyMAC d \<and> take 256 (drop 228 (Bytes d)) = Data d
      \<and> take 16 (drop 484 (Bytes d)) = Nonce d \<and> take 4 (drop 500 (Bytes d)) = WriteCounter d
      \<and> take 2 (drop 504 (Bytes d)) = Address d \<and> take 2 (drop 506 (Bytes d)) = BlockCount d
      \<and> take 2 (drop 508 (Bytes d)) = Result d \<and> Bytes d ! 510 = Resp d \<and> Bytes d ! 511 = Req d
      \<and> mac_part (Bytes d) = drop 228 (Bytes d)
      \<and> unat (frame_Counter d) = ((unat (Bytes d ! 500) * 256 + unat (Bytes d ! 501)) * 256 + unat (Bytes d ! 502)) * 256
          + unat (Bytes d ! 503))
   \<and> (length buf = 512 \<longrightarrow> (\<exists>f. read_frame buf = Ok f \<and> frame_ok f \<and> Bytes f = buf))"
proof (intro conjI impI)
  assume ok: "frame_ok d"
  show "length (Bytes d) = 512" "read_frame (Bytes d) = Ok d" using ok by (simp_all add: FrameLength_def)
  show "take 32 (drop 196 (Bytes d)) = KeyMAC d" "take 256 (drop 228 (Bytes d)) = Data d"
    "take 16 (drop 484 (Bytes d)) = Nonce d" "take 4 (drop 500 (Bytes d)) = WriteCounter d"
    "take 2 (drop 504 (Bytes d)) = Address d" "take 2 (drop 506 (Bytes d)) = BlockCount d"
    "take 2 (drop 508 (Bytes d)) = Result d" "Bytes d ! 510 = Resp d" "Bytes d ! 511 = Req d"
    using ok by (simp_all add: Bytes_def frame_ok_def nth_append)
  show "mac_part (Bytes d) = drop 228 (Bytes d)" by (simp add: mac_part_def FrameLength_def macOffset_def)
  have "Bytes d ! (500 + i) = WriteCounter d ! i" if "i < 4" for i
    using ok that by (simp add: Bytes_def frame_ok_def nth_append)
  from this [of 0] this [of 1] this [of 2] this [of 3]
  show "unat (frame_Counter d) = ((unat (Bytes d ! 500) * 256 + unat (Bytes d ! 501)) * 256 + unat (Bytes d ! 502)) * 256
      + unat (Bytes d ! 503)"
    using ok by (simp add: frame_Counter_def frame_ok_def unat_be32)
next
  assume "length buf = 512"
  then show "\<exists>f. read_frame buf = Ok f \<and> frame_ok f \<and> Bytes f = buf"
    using read_frame_total [of buf] read_frame_ok [of buf] by (auto simp: FrameLength_def)
qed

theorem frame_codec_roundtrip_witness:
  "read_frame (Bytes (zero_frame\<lparr>WriteCounter := [0, 0, 1, 2], Req := 3\<rparr>)) = Ok (zero_frame\<lparr>WriteCounter := [0, 0, 1, 2], Req := 3\<rparr>)
   \<and> Bytes (zero_frame\<lparr>WriteCounter := [0, 0, 1, 2], Req := 3\<rparr>) ! 511 = 3
   \<and> unat (frame_Counter (zero_frame\<lparr>WriteCounter := [0, 0, 1, 2], Req := 3\<rparr>)) = 258
   \<and> (\<exists>f. read_frame (zeros 512) = Ok f \<and> frame_ok f \<and> Bytes f = zeros 512)"
proof -
  let ?d = "zero_frame\<lparr>WriteCounter := [0, 0, 1, 2], Req := 3\<rparr>"
  have ok: "frame_ok ?d" by simp
  have "Bytes ?d ! 500 = 0" "Bytes ?d ! 501 = 0" "Bytes ?d ! 502 = 1" "Bytes ?d ! 503 = 2"
    by (simp_all add: Bytes_def zero_frame_def nth_append)
  with frame_codec_roundtrip [of ?d "zeros 512"] ok show ?thesis by (simp add: FrameLength_def)
qed

text \<open>C2: whatever the card does, \<open>op\<close> with \<open>ResponseMAC\<close> returns a frame only if the
  instance is initialised, the frame's MAC is the HMAC of everything behind it under the
  instance's key, its type answers the request, its result is \<open>OperationOK\<close> and its nonce is
  the one the request was sent with.\<close>

theorem op_accepts_only_authentic:
  assumes "op hw p req cfg w = (Ok r, w')" and "frame_ok req" and "ResponseMAC cfg"
  shows "init p \<and> frame_ok r \<and> KeyMAC r = hmac_sha256 (key p) (mac_part (Bytes r))
    \<and> Resp r = Req req \<and> be16 (Result r) = OperationOK
    \<and> (\<exists>rq v. op_nonce hw (op_request_mac p req cfg) cfg w = (Ok rq, v) \<and> Nonce r = Nonce rq)"
  using op_Ok [OF assms(1,2)] assms(3) by (simp add: authentic_def)

theorem op_accepts_only_authentic_witness:
  "\<exists>r w'. op emmc_hw demo_rpmb (zero_frame\<lparr>Req := WriteCounterRead\<rparr>)
       (zero_config\<lparr>RandomNonce := True, ResponseMAC := True\<rparr>) demo_emmc = (Ok r, w')
     \<and> KeyMAC r = hmac_sha256 (zeros 32) (mac_part (Bytes r)) \<and> Resp r = WriteCounterRead"
proof -
  obtain w' where "Counter emmc_hw demo_rpmb True demo_emmc = (Ok 41, w')"
    using ref_dev.Counter_ok [of demo_rpmb demo_emmc True] by auto
  then obtain r v where run: "op emmc_hw demo_rpmb (zero_frame\<lparr>Req := WriteCounterRead\<rparr>)
       (zero_config\<lparr>RandomNonce := True, ResponseMAC := True\<rparr>) demo_emmc = (Ok r, v)"
    by (auto simp: Counter_def elim!: bindS_OkE)
  show ?thesis
    using run op_accepts_only_authentic [OF run] by simp
qed

text \<open>C11: the CVE-2020-13799 mitigation. Whatever the card does, a write reports success only
  after an authenticated counter value \<open>c\<close> was read and, for the write request carrying
  \<open>c\<close>, an authenticated response came back whose counter is exactly one more (modulo
  \<open>2^32\<close>).\<close>

theorem Write_success_is_single_increment:
  assumes "Write hw p offset buf w = (Ok (), w')"
  shows "\<exists>c v r. Counter hw p True w = (Ok c, v)
    \<and> op hw p (transfer_request AuthenticatedDataWrite offset buf (Some c))
        (zero_config\<lparr>RequestMAC := True, ResponseMAC := True, ResultRead := True\<rparr>) v = (Ok r, w')
    \<and> authentic (key p) r \<and> Resp r = AuthenticatedDataWrite \<and> frame_Counter r = c + 1
    \<and> length buf \<le> 256"
proof -
  obtain b where "transfer hw p AuthenticatedDataWrite offset buf w = (Ok b, w')"
    using assms by (auto simp: Write_def elim!: bindS_OkE)
  from transfer_write_Ok [OF this] obtain c v r where
    c: "Counter hw p True w = (Ok c, v)" "frame_Counter r = c + 1" "length buf \<le> 256"
    and r: "op hw p (transfer_request AuthenticatedDataWrite offset buf (Some c))
        (zero_config\<lparr>RequestMAC := True, ResponseMAC := True, ResultRead := True\<rparr>) v = (Ok r, w')"
    by blast
  then show ?thesis using op_Ok(3,4) [OF r] by (intro exI [of _ c] exI [of _ v] exI [of _ r]) simp
qed

theorem Write_success_is_single_increment_witness:
  "\<exists>w' c v r. Write emmc_hw demo_rpmb 3 [1, 2, 3] demo_emmc = (Ok (), w')
    \<and> Counter emmc_hw demo_rpmb True demo_emmc = (Ok c, v)
    \<and> authentic (zeros 32) r \<and> frame_Counter r = c + 1"
proof -
  obtain w' where run: "Write emmc_hw demo_rpmb 3 [1, 2, 3] demo_emmc = (Ok (), w')"
    using ref_dev.Write_ok [of demo_rpmb demo_emmc "[1, 2, 3]" 3] by auto
  show ?thesis using run Write_success_is_single_increment [OF run] by auto
qed

text \<open>C15: whatever the card does, a read that reports success hands out the data of an
  authenticated response to this very request: its nonce is the one drawn for the request, so a
  recorded response to an earlier read is refused unless the random source repeats itself.\<close>

theorem Read_success_is_authentic:
  assumes "Read hw p offset buf w = (Ok b, w')"
  shows "\<exists>r rq v. op_nonce hw (op_request_mac p (transfer_request AuthenticatedDataRead offset buf None)
          (zero_config\<lparr>RequestMAC := True, ResponseMAC := True, RandomNonce := True\<rparr>))
          (zero_config\<lparr>RequestMAC := True, ResponseMAC := True, RandomNonce := True\<rparr>) w = (Ok rq, v)
    \<and> authentic (key p) r \<and> Resp r = AuthenticatedDataRead \<and> Nonce r = Nonce rq
    \<and> b = go_copy buf (Data r) \<and> length buf \<le> 256"
proof -
  from transfer_read_Ok [OF assms [unfolded Read_def]] obtain r where
    r: "op hw p (transfer_request AuthenticatedDataRead offset buf None)
        (zero_config\<lparr>RequestMAC := True, ResponseMAC := True, RandomNonce := True\<rparr>) w = (Ok r, w')"
    and b: "b = go_copy buf (Data r)" "length buf \<le> 256"
    by blast
  show ?thesis using op_Ok(3,4,6) [OF r] b by auto
qed

theorem Read_success_is_authentic_witness:
  "\<exists>b w' r. Read emmc_hw demo_rpmb 2 (zeros 4) demo_emmc = (Ok b, w')
    \<and> authentic (zeros 32) r \<and> Resp r = AuthenticatedDataRead \<and> b = go_copy (zeros 4) (Data r)"
proof -
  obtain b w' where run: "Read emmc_hw demo_rpmb 2 (zeros 4) demo_emmc = (Ok b, w')"
    using ref_dev.Read_ok [of demo_rpmb demo_emmc "zeros 4" 2] by auto
  show ?thesis using run Read_success_is_authentic [OF run] by auto
qed

text \<open>C20: on a device that follows the standard, with the instance's key programmed and its
  counter not exhausted, a write of at most 256 bytes succeeds, advances the device counter by
  one, keeps every other sector, and a read of the same sector then returns the written bytes
  padded with zeros.\<close>

theorem Write_then_Read:
  assumes "rpmb_device hw dkey dctr dmem" and "init p" and "dkey w = Some (key p)"
    and "dctr w \<noteq> -1" and "length buf \<le> 256" and "n \<le> 256"
  shows "\<exists>w1 w2. Write hw p offset buf w = (Ok (), w1) \<and> dctr w1 = dctr w + 1
    \<and> (\<forall>a. a \<noteq> offset \<longrightarrow> dmem w1 a = dmem w a)
    \<and> Read hw p offset (zeros n) w1 = (Ok (take n (buf @ zeros (256 - length buf))), w2)"
proof -
  obtain w1 where w: "Write hw p offset buf w = (Ok (), w1)" "dkey w1 = dkey w"
      "dctr w1 = dctr w + 1" "dmem w1 = (dmem w)(offset := go_copy (zeros 256) buf)"
    using rpmb_device.Write_ok [OF assms(1-5)] by blast
  with assms(3) have "dkey w1 = Some (key p)" by simp
  from rpmb_device.Read_ok [OF assms(1,2) this, of "zeros n" offset] assms(6) obtain w2 where
    "Read hw p offset (zeros n) w1 = (Ok (take n (dmem w1 offset)), w2)" by auto
  with w assms(5) show ?thesis by (auto simp: go_copy_zeros)
qed

theorem Write_then_Read_witness:
  "\<exists>w1 w2. Write emmc_hw demo_rpmb 1 [1, 2, 3] demo_emmc = (Ok (), w1) \<and> e_counter w1 = 42
    \<and> Read emmc_hw demo_rpmb 1 (zeros 5) w1 = (Ok ([1, 2, 3] @ zeros 2), w2)"
  using Write_then_Read [OF ref_dev.rpmb_device_axioms, of demo_rpmb demo_emmc "[1, 2, 3]" 5 1]
  by auto

end
