(* ===== verification/Otp.thy ===== *)
theory Otp
  imports Prelude
begin

text \<open>
  The one-time programmable fuses of the i.MX6, as the repository uses them through the
  \<open>otp\<close> package of crucible: \<open>ReadOCOTP\<close> and \<open>BlowOCOTP\<close> on a field given by bank,
  word, bit offset and size. The package is outside the repository; \<open>otp_fuses\<close> states what
  its clients rely on (reading changes nothing, blowing changes nothing outside the field),
  \<open>otp_working\<close> that a part in order accepts a value for a clear field.
\<close>

section \<open>Interface\<close>

record 'w otp =
  ReadOCOTP :: "int \<Rightarrow> int \<Rightarrow> int \<Rightarrow> int \<Rightarrow> ('w, bytes) io"
  BlowOCOTP :: "int \<Rightarrow> int \<Rightarrow> int \<Rightarrow> int \<Rightarrow> bytes \<Rightarrow> ('w, unit) io"

text \<open>A field is a range of bits of one bank; words have 32 bits.\<close>

definition fuse_disjoint :: "int \<times> int \<times> int \<times> int \<Rightarrow> int \<times> int \<times> int \<times> int \<Rightarrow> bool" where
  "fuse_disjoint f g = (case (f, g) of ((b, w, p, n), (b', w', p', n')) \<Rightarrow>
     b \<noteq> b' \<or> w * 32 + p + n \<le> w' * 32 + p' \<or> w' * 32 + p' + n' \<le> w * 32 + p)"

text \<open>Values of a field of \<open>n\<close> bits: whole bytes, or less than one.\<close>

definition fuse_value :: "int \<Rightarrow> bytes \<Rightarrow> bool" where
  "fuse_value n val \<longleftrightarrow> n = 8 * int (length val) \<or> (length val = 1 \<and> 0 < n \<and> n < 8 \<and> unat (hd val) < 2 ^ nat n)"

section \<open>Contracts\<close>

locale otp_fuses =
  fixes Z :: "'w otp"
    and field :: "'w \<Rightarrow> int \<Rightarrow> int \<Rightarrow> int \<Rightarrow> int \<Rightarrow> bytes"
  assumes read_law: "ReadOCOTP Z b w p n st = (r, st') \<Longrightarrow>
      field st' = field st \<and> (\<forall>v. r = Ok v \<longrightarrow> v = field st b w p n)"
    and blow_law: "BlowOCOTP Z b w p n val st = (q, st') \<Longrightarrow>
      fuse_disjoint (b, w, p, n) (b', w', p', n') \<Longrightarrow> field st' b' w' p' n' = field st b' w' p' n'"

locale otp_working = otp_fuses +
  assumes read_total: "\<exists>st'. ReadOCOTP Z b w p n st = (Ok (field st b w p n), st')"
    and blow_total: "0 \<le> w \<Longrightarrow> 0 \<le> p \<Longrightarrow> fuse_value n val \<Longrightarrow> field st b w p n = zeros (length val) \<Longrightarrow>
      \<exists>st'. BlowOCOTP Z b w p n val st = (Ok (), st') \<and> field st' b w p n = val"

section \<open>A fuse array\<close>

text \<open>The least significant bit of a field is the first bit of its first byte.\<close>

type_synonym fuses = "int \<Rightarrow> int \<Rightarrow> bool"

definition fuse_bit :: "fuses \<Rightarrow> int \<Rightarrow> int \<Rightarrow> int \<Rightarrow> nat \<Rightarrow> bool" where
  "fuse_bit st b base n k \<longleftrightarrow> int k < n \<and> st b (base + int k)"

definition fuse_byte :: "fuses \<Rightarrow> int \<Rightarrow> int \<Rightarrow> int \<Rightarrow> nat \<Rightarrow> byte" where
  "fuse_byte st b base n j = horner_sum of_bool 2 (map (\<lambda>i. fuse_bit st b base n (8 * j + i)) [0..<8])"

definition fuse_field :: "fuses \<Rightarrow> int \<Rightarrow> int \<Rightarrow> int \<Rightarrow> int \<Rightarrow> bytes" where
  "fuse_field st b w p n = map (fuse_byte st b (w * 32 + p) n) [0..<nat ((n + 7) div 8)]"

definition fuse_blow :: "int \<Rightarrow> int \<Rightarrow> int \<Rightarrow> int \<Rightarrow> bytes \<Rightarrow> (fuses, unit) io" where
  "fuse_blow b w p n val st =
     (if int (length val) \<noteq> (n + 7) div 8 then (Err (External ''error: value size mismatch''), st)
      else (Ok (), \<lambda>b' x. st b' x \<or>
             (b' = b \<and> w * 32 + p \<le> x \<and> x < w * 32 + p + n
              \<and> bit (val ! (nat (x - (w * 32 + p)) div 8)) (nat (x - (w * 32 + p)) mod 8))))"

definition fuse_array :: "fuses otp" where
  "fuse_array = \<lparr>ReadOCOTP = (\<lambda>b w p n st. (Ok (fuse_field st b w p n), st)), BlowOCOTP = fuse_blow\<rparr>"

definition blank_fuses :: fuses where "blank_fuses = (\<lambda>_ _. False)"

lemma bit_fuse_byte: "bit (fuse_byte st b base n j) i \<longleftrightarrow> i < 8 \<and> fuse_bit st b base n (8 * j + i)"
  by (auto simp: fuse_byte_def bit_horner_sum_bit_word_iff)

lemma fuse_value_length: "fuse_value n val \<Longrightarrow> int (length val) = (n + 7) div 8"
  by (auto simp: fuse_value_def)

lemma fuse_value_bit:
  assumes "fuse_value n val" and "j < length val" and "bit (val ! j) i"
  shows "i < 8 \<and> int (8 * j + i) < n"
proof -
  have i: "i < 8" using bit_imp_le_length [OF assms(3)] by simp
  show ?thesis
  proof (cases "n = 8 * int (length val)")
    case True
    with i assms(2) show ?thesis by simp
  next
    case False
    with assms(1) have v: "length val = 1" "0 < n" "n < 8" "unat (hd val) < 2 ^ nat n"
      by (auto simp: fuse_value_def)
    then have "j = 0" "val ! j = hd val" using assms(2) by (cases val; simp)+
    moreover have "i < nat n"
    proof (rule ccontr)
      assume "\<not> i < nat n"
      moreover have "take_bit (nat n) (unat (hd val)) = unat (hd val)"
        using v(4) by (simp add: take_bit_nat_eq_self)
      ultimately have "\<not> bit (unat (hd val)) i" by (metis bit_take_bit_iff)
      with assms(3) \<open>val ! j = hd val\<close> show False by (simp add: bit_unsigned_iff)
    qed
    ultimately show ?thesis using i by simp
  qed
qed

lemma fuse_field_blow:
  assumes "fuse_value n val" and "fuse_field st b w p n = zeros (length val)"
    and "fuse_blow b w p n val st = (q, st')"
  shows "fuse_field st' b w p n = val"
proof (rule nth_equalityI)
  let ?base = "w * 32 + p"
  have len: "nat ((n + 7) div 8) = length val" using fuse_value_length [OF assms(1)] by simp
  show "length (fuse_field st' b w p n) = length val" by (simp add: fuse_field_def len)
  fix j assume "j < length (fuse_field st' b w p n)"
  then have j: "j < length val" by (simp add: fuse_field_def len)
  have st': "st' b x \<longleftrightarrow> st b x \<or> (?base \<le> x \<and> x < ?base + n
      \<and> bit (val ! (nat (x - ?base) div 8)) (nat (x - ?base) mod 8))" for x
    using assms(3) fuse_value_length [OF assms(1)] by (auto simp: fuse_blow_def)
  have clear: "\<not> fuse_bit st b ?base n (8 * j + i)" if "i < 8" for i
  proof -
    have "fuse_field st b w p n ! j = 0" using assms(2) j by (simp add: zeros_def)
    then have "fuse_byte st b ?base n j = 0" using j by (simp add: fuse_field_def len)
    then have "\<not> bit (fuse_byte st b ?base n j) i" by simp
    with that show ?thesis by (simp add: bit_fuse_byte)
  qed
  have "fuse_byte st' b ?base n j = val ! j"
  proof (rule bit_word_eqI)
    fix i assume "i < LENGTH(8)"
    then have i: "i < 8" by simp
    have pos: "nat (8 * int j + int i) = 8 * j + i" by simp
    have "bit (fuse_byte st' b ?base n j) i \<longleftrightarrow> int (8 * j + i) < n \<and> bit (val ! j) i"
      using clear [OF i] i by (auto simp: bit_fuse_byte fuse_bit_def st' pos)
    then show "bit (fuse_byte st' b ?base n j) i = bit (val ! j) i"
      using fuse_value_bit [OF assms(1) j] by blast
  qed
  then show "fuse_field st' b w p n ! j = val ! j" using j by (simp add: fuse_field_def len)
qed

lemma fuse_field_blow_other:
  assumes "fuse_blow b w p n val st = (q, st')" and "fuse_disjoint (b, w, p, n) (b', w', p', n')"
  shows "fuse_field st' b' w' p' n' = fuse_field st b' w' p' n'"
proof -
  have "fuse_bit st' b' (w' * 32 + p') n' k = fuse_bit st b' (w' * 32 + p') n' k" for k
    using assms by (auto simp: fuse_bit_def fuse_blow_def fuse_disjoint_def split: if_splits)
  then show ?thesis by (simp add: fuse_field_def fuse_byte_def)
qed

interpretation ocotp: otp_working fuse_array fuse_field
proof (unfold_locales, goal_cases)
  case (1 b w p n st r st')
  then show ?case by (auto simp: fuse_array_def)
next
  case (2 b w p n val st q st' b' w' p' n')
  then show ?case by (simp add: fuse_array_def fuse_field_blow_other)
next
  case (3 b w p n st)
  then show ?case by (simp add: fuse_array_def)
next
  case (4 w p n val st b)
  obtain q st' where run: "fuse_blow b w p n val st = (q, st')" by (cases "fuse_blow b w p n val st")
  then have "q = Ok ()" using fuse_value_length [OF 4(3)] by (auto simp: fuse_blow_def)
  with run fuse_field_blow [OF 4(3,4) run] show ?case by (simp add: fuse_array_def)
qed

lemma fuse_field_blank: "fuse_field blank_fuses b w p n = zeros (nat ((n + 7) div 8))"
proof -
  have "fuse_byte blank_fuses b base n j = 0" for base j
    by (rule bit_word_eqI) (simp add: bit_fuse_byte fuse_bit_def blank_fuses_def)
  then show ?thesis by (intro nth_equalityI) (simp_all add: fuse_field_def zeros_def)
qed

end
