(* ===== verification/Rollback.thy ===== *)
theory Rollback
  imports Rpmb_Device Otp Versions
begin

text \<open>
  Rollback protection of the Trusted OS (\<open>src/trusted_os/rpmb.go\<close>): key derivation and
  initialisation of the replay protected partition, the one-time programming of its key, stored
  version epochs, and the data transfer offered to the applet. Outside the repository, and so
  parameters: the key derivation hardware (\<open>CAAM\<close>, \<open>DCP\<close>), \<open>pbkdf2\<close>, the chip's
  unique id, the fuses, the eMMC driver and \<open>semver\<close>.
\<close>

section \<open>Definitions\<close>

definition dummySector :: "16 word" where "dummySector = 0"

definition versionLength :: nat where "versionLength = 32"

definition osVersionSector :: "16 word" where "osVersionSector = 1"

definition taVersionSector :: "16 word" where "taVersionSector = 2"

definition taUserSector :: "16 word" where "taUserSector = 3"

definition rpmbFuseBank :: int where "rpmbFuseBank = 4"

definition rpmbFuseWord :: int where "rpmbFuseWord = 6"

definition diversifierMAC :: string where "diversifierMAC = ''ArmoryWitnessMAC''"

definition iter :: nat where "iter = 4096"

text \<open>\<open>CAAM\<close> and \<open>DCP\<close> are \<open>None\<close> when the hardware is absent.\<close>

record 'w key_hw =
  CAAM_DeriveKey :: "(bytes \<Rightarrow> nat \<Rightarrow> ('w, bytes) io) option"
  DCP_DeriveKey :: "(bytes \<Rightarrow> bytes \<Rightarrow> int \<Rightarrow> ('w, bytes) io) option"
  UniqueID :: bytes
  pbkdf2_Key :: "bytes \<Rightarrow> bytes \<Rightarrow> nat \<Rightarrow> nat \<Rightarrow> bytes"

text \<open>The struct \<open>RPMB\<close> next to the world it acts on. Its field \<open>storage\<close> is used once, in
  the type assertion to \<open>*usdhc.USDHC\<close>: \<open>is_usdhc\<close> tells how that ends.\<close>

record 'w rb_state =
  rb_dev :: 'w
  is_usdhc :: bool
  partition :: "RPMB option"

definition onDev :: "('w, 'a) io \<Rightarrow> ('w rb_state, 'a) io" where
  "onDev m = zoomS rb_dev (\<lambda>w s. s\<lparr>rb_dev := w\<rparr>) m"

definition newRPMB :: "bool \<Rightarrow> 'w \<Rightarrow> 'w rb_state" where
  "newRPMB usdhc w = \<lparr>rb_dev = w, is_usdhc = usdhc, partition = None\<rparr>"

definition isProgrammed :: "'w otp \<Rightarrow> ('w rb_state, bool) io" where
  "isProgrammed Z =
     bindS (wrapS ''could not read RPMB program key flag''
              (onDev (ReadOCOTP Z rpmbFuseBank rpmbFuseWord 0 1))) (\<lambda>res. retS (res = [1]))"

definition derive_key :: "'w key_hw \<Rightarrow> ('w rb_state, bytes) io" where
  "derive_key ks = wrapS ''could not derive RPMB key''
     (case CAAM_DeriveKey ks of
        Some f \<Rightarrow> bindS (onDev (f (bytes_of_string diversifierMAC) 32)) (\<lambda>dk. retS (go_copy (zeros 32) dk))
      | None \<Rightarrow> (case DCP_DeriveKey ks of
          Some g \<Rightarrow> onDev (g (bytes_of_string diversifierMAC) (zeros 16) (-1))
        | None \<Rightarrow> failS (ErrorsNew ''unsupported hardware'')))"

text \<open>The error of the unauthenticated counter read that initialisation tolerates.\<close>

fun counter_error :: "error \<Rightarrow> error option" where
  "counter_error (OperationError c) =
     (if c \<noteq> AuthenticationKeyNotYetProgrammed
      then Some (Errorf ''RPMB failed to read counter with operatation error'' (OperationError c))
      else None)"
| "counter_error e = Some (Errorf ''RPMB failed to read counter'' e)"

definition rpmb_Init :: "'w rpmb_hw \<Rightarrow> bytes \<Rightarrow> bool \<Rightarrow> ('w rb_state, RPMB) io" where
  "rpmb_Init hw k programmed =
     tryS (onDev (Init (Some hw) k dummySector programmed)) (\<lambda>r. case r of
         Inl e \<Rightarrow> bindS (modifyS (\<lambda>s. s\<lparr>partition := None\<rparr>))
                        (\<lambda>_. failS (Errorf ''RPMB could not be initialized'' e))
       | Inr p \<Rightarrow> bindS (modifyS (\<lambda>s. s\<lparr>partition := Some p\<rparr>)) (\<lambda>_. retS p))"

text \<open>The end of \<open>init\<close>, from the unauthenticated counter read on.\<close>

definition init_tail :: "'w otp \<Rightarrow> 'w rpmb_hw \<Rightarrow> bool \<Rightarrow> RPMB \<Rightarrow> ('w rb_state, unit) io" where
  "init_tail Z hw programmed p =
     tryS (onDev (Counter hw p False)) (\<lambda>c.
       case (case c of Inl e \<Rightarrow> counter_error e | Inr _ \<Rightarrow> None) of
         Some e \<Rightarrow> failS e
       | None \<Rightarrow>
           if programmed then retS ()
           else
             bindS (wrapS ''could not fuse RPMB program key flag''
                      (onDev (BlowOCOTP Z rpmbFuseBank rpmbFuseWord 0 1 [1]))) (\<lambda>_.
             tryS (onDev (ProgramKey hw p)) (\<lambda>r. case r of
                 Inl _ \<Rightarrow> failS (ErrorsNew ''could not program RPMB key'')
               | Inr _ \<Rightarrow> retS ())))"

definition init_rpmb :: "'w key_hw \<Rightarrow> 'w otp \<Rightarrow> 'w rpmb_hw \<Rightarrow> ('w rb_state, unit) io" where
  "init_rpmb ks Z hw =
     bindS (derive_key ks) (\<lambda>dk.
     bindS (getS is_usdhc) (\<lambda>ok.
     if \<not> ok then failS (ErrorsNew ''could not assert type *usdhc.USDHC from Card'')
     else
       bindS (isProgrammed Z) (\<lambda>programmed.
       bindS (rpmb_Init hw (pbkdf2_Key ks dk (UniqueID ks) iter 32) programmed) (\<lambda>p.
       init_tail Z hw programmed p))))"

text \<open>What a sector says about the version: \<open>io.EOF\<close> means none was stored yet.\<close>

definition decode_version :: "'v semver \<Rightarrow> bytes \<Rightarrow> 'v res" where
  "decode_version sv buf = (case gob_decode_string buf of
      Ok v \<Rightarrow> NewVersion sv v
    | Err e \<Rightarrow> if e = EOF then NewVersion sv ''0.0.0'' else Err e
    | Halt m \<Rightarrow> Halt m)"

definition expectedVersion :: "'w rpmb_hw \<Rightarrow> 'v semver \<Rightarrow> 16 word \<Rightarrow> ('w rb_state, 'v) io" where
  "expectedVersion hw sv offset =
     bindS (getS partition) (\<lambda>pt. case pt of
         None \<Rightarrow> failS (ErrorsNew ''RPMB has not been initialized'')
       | Some p \<Rightarrow> bindS (onDev (Read hw p offset (zeros versionLength))) (\<lambda>buf.
           liftRes (decode_version sv buf)))"

definition updateVersion :: "'w rpmb_hw \<Rightarrow> 'v semver \<Rightarrow> 16 word \<Rightarrow> 'v \<Rightarrow> ('w rb_state, unit) io" where
  "updateVersion hw sv offset version =
     bindS (getS partition) (\<lambda>pt. case pt of
         None \<Rightarrow> failS (ErrorsNew ''RPMB has not been initialized'')
       | Some p \<Rightarrow> onDev (Write hw p offset (gob_encode_string (Version_String sv version))))"

definition checkVersion :: "'w rpmb_hw \<Rightarrow> 'v semver \<Rightarrow> 16 word \<Rightarrow> string \<Rightarrow> ('w rb_state, unit) io" where
  "checkVersion hw sv = check_version sv (expectedVersion hw sv) (updateVersion hw sv)"

text \<open>\<open>RPMB.transfer\<close>: the caller's buffer and counter variable after the call (\<open>n\<close> is
  \<open>None\<close> for a nil pointer), and the error it returns. The counter is read only after a failed
  transfer, and its error replaces the transfer's.\<close>

definition nil_dereference :: string where "nil_dereference = ''nil pointer dereference''"

definition rb_transfer ::
  "'w rpmb_hw \<Rightarrow> 16 word \<Rightarrow> bytes \<Rightarrow> 32 word option \<Rightarrow> bool
   \<Rightarrow> ('w rb_state, error option \<times> bytes \<times> 32 word option) io" where
  "rb_transfer hw offset buf n write =
     bindS (getS partition) (\<lambda>pt. case pt of
         None \<Rightarrow> if FrameLength div 2 < length buf \<and> n = None
           then retS (Some (ErrorsNew ''transfer size must not exceed 256 bytes''), buf, None)
           else haltS nil_dereference
       | Some p \<Rightarrow>
           tryS (onDev (if write then bindS (Write hw p offset buf) (\<lambda>_. retS buf)
                        else Read hw p offset buf)) (\<lambda>r. case r of
               Inr b \<Rightarrow> retS (None, b, n)
             | Inl e \<Rightarrow> (case n of
                 None \<Rightarrow> retS (Some e, buf, None)
               | Some _ \<Rightarrow> tryS (onDev (Counter hw p True)) (\<lambda>c. case c of
                     Inr k \<Rightarrow> retS (None, buf, Some k)
                   | Inl e' \<Rightarrow> retS (Some e', buf, Some 0)))))"

section \<open>The store meets the contract of version checks\<close>

lemma onDev_apply: "onDev m s = (case m (rb_dev s) of (r, w) \<Rightarrow> (r, s\<lparr>rb_dev := w\<rparr>))"
  by (simp add: onDev_def zoomS_apply)

text \<open>A device whose partition is set up, and the versions its sectors hold.\<close>

definition rb_ready :: "('w \<Rightarrow> bytes option) \<Rightarrow> 'w rb_state \<Rightarrow> bool" where
  "rb_ready dkey s \<longleftrightarrow> (\<exists>p. partition s = Some p \<and> init p \<and> dkey (rb_dev s) = Some (key p))"

definition rb_stored :: "'v semver \<Rightarrow> ('w \<Rightarrow> 16 word \<Rightarrow> bytes) \<Rightarrow> 'w rb_state \<Rightarrow> 16 word \<Rightarrow> 'v res" where
  "rb_stored sv dmem s x = decode_version sv (take versionLength (dmem (rb_dev s) x))"

definition rb_room :: "('w \<Rightarrow> 32 word) \<Rightarrow> 'w rb_state \<Rightarrow> nat" where
  "rb_room dctr s = unat (- 1 - dctr (rb_dev s))"

definition rb_storable :: "'v semver \<Rightarrow> 'v \<Rightarrow> bool" where
  "rb_storable sv v \<longleftrightarrow> length (Version_String sv v) \<le> 28"

lemma decode_version_blank: "decode_version sv (zeros versionLength) = NewVersion sv ''0.0.0''"
  by (simp add: decode_version_def versionLength_def gob_decode_zeros)

lemma decode_version_stored:
  assumes "length (Version_String sv v) \<le> 28"
  shows "decode_version sv (take versionLength (go_copy (zeros 256) (gob_encode_string (Version_String sv v))))
    = NewVersion sv (Version_String sv v)"
proof -
  let ?g = "gob_encode_string (Version_String sv v)"
  have len: "length ?g \<le> 32" using assms by (simp add: length_gob_encode_string)
  then have "take versionLength (go_copy (zeros 256) ?g) = ?g @ zeros (32 - length ?g)"
    by (simp add: go_copy_zeros versionLength_def min_def)
  then show ?thesis using assms gob_decode_encode [of "Version_String sv v"] by (simp add: decode_version_def)
qed

text \<open>Versions whose text does not fit. Up to 250 characters the write succeeds and what is read back is cut
  off; a longer one does not fit a frame and the write is refused.\<close>

definition unreadable :: "'v semver \<Rightarrow> 'v \<Rightarrow> bool" where
  "unreadable sv v \<longleftrightarrow> 28 < length (Version_String sv v) \<and> length (Version_String sv v) \<le> 250"

lemma decode_version_cut:
  assumes "unreadable sv v"
  shows "decode_version sv (take versionLength (go_copy (zeros 256) (gob_encode_string (Version_String sv v)))) = Err unexpected_eof"
proof -
  let ?g = "gob_encode_string (Version_String sv v)"
  note n = assms [unfolded unreadable_def]
  have "length ?g \<le> 256" "32 < length ?g"
    using n gob_encode_string_bounds(1,3) [of "Version_String sv v"] by auto
  then have "take versionLength (go_copy (zeros 256) ?g) = take 32 ?g" by (simp add: go_copy_zeros versionLength_def)
  moreover have "gob_decode_string (take 32 ?g) = Err unexpected_eof"
    using n \<open>32 < length ?g\<close> by (intro gob_decode_truncated) simp_all
  ultimately show ?thesis by (simp add: decode_version_def unexpected_eof_def)
qed

lemma updateVersion_stored:
  assumes "rpmb_device hw dkey dctr dmem" and "rb_ready dkey s" and "dctr (rb_dev s) \<noteq> -1"
    and "length (Version_String sv v) \<le> 250"
  obtains w' where "updateVersion hw sv x v s = (Ok (), s\<lparr>rb_dev := w'\<rparr>)" and "rb_ready dkey (s\<lparr>rb_dev := w'\<rparr>)"
    and "rb_room dctr s = Suc (rb_room dctr (s\<lparr>rb_dev := w'\<rparr>))"
    and "dmem w' = (dmem (rb_dev s))(x := go_copy (zeros 256) (gob_encode_string (Version_String sv v)))"
proof -
  obtain p where p: "partition s = Some p" "init p" "dkey (rb_dev s) = Some (key p)"
    using assms(2) by (auto simp: rb_ready_def)
  let ?g = "gob_encode_string (Version_String sv v)"
  obtain w' where w': "Write hw p x ?g (rb_dev s) = (Ok (), w')" "dkey w' = dkey (rb_dev s)"
      "dctr w' = dctr (rb_dev s) + 1" "dmem w' = (dmem (rb_dev s))(x := go_copy (zeros 256) ?g)"
    using rpmb_device.Write_ok [OF assms(1) p(2,3) assms(3) gob_encode_string_bounds(1) [OF assms(4)], of x] by blast
  have "unat (- 1 - dctr (rb_dev s) - 1) = unat (- 1 - dctr (rb_dev s)) - 1"
    using assms(3) by (intro unat_minus_one) (metis eq_iff_diff_eq_0)
  moreover have "- 1 - dctr w' = - 1 - dctr (rb_dev s) - 1" using w'(3) by simp
  moreover have "0 < unat (- 1 - dctr (rb_dev s))" using assms(3) by (metis eq_iff_diff_eq_0 unat_gt_0)
  ultimately have "rb_room dctr s = Suc (unat (- 1 - dctr w'))" by (simp only: rb_room_def)
  then show ?thesis using p w' that [of w']
    by (auto simp: updateVersion_def bindS_apply onDev_apply rb_ready_def rb_room_def)
qed

lemma updateVersion_refused:
  assumes "rb_ready dkey s" and "250 < length (Version_String sv v)"
  shows "updateVersion hw sv x v s = (Err (ErrorsNew ''transfer size must not exceed 256 bytes''), s)"
  using assms gob_encode_string_bounds(2) [OF assms(2)]
  by (auto simp: rb_ready_def updateVersion_def bindS_apply onDev_apply Write_def transfer_def FrameLength_def)

locale rollback_device = rpmb_device hw dkey dctr dmem + semver_ops sv
  for hw :: "'w rpmb_hw" and dkey and dctr and dmem and sv :: "'v semver"

sublocale rollback_device \<subseteq> version_store sv "expectedVersion hw sv" "updateVersion hw sv"
  "rb_stored sv dmem" "rb_ready dkey" "rb_room dctr" "rb_storable sv"
proof (unfold_locales, goal_cases)
  case (1 s x)
  then obtain p where p: "partition s = Some p" "init p" "dkey (rb_dev s) = Some (key p)"
    by (auto simp: rb_ready_def)
  obtain w' where w': "Read hw p x (zeros 32) (rb_dev s) = (Ok (take 32 (dmem (rb_dev s) x)), w')"
      "same_dev (rb_dev s) w'"
    using Read_ok [OF p(2,3), of "zeros 32" x] by auto
  with p show ?case
    by (auto simp: expectedVersion_def bindS_apply onDev_apply versionLength_def rb_stored_def rb_ready_def
        rb_room_def same_dev_def)
next
  case (2 s v x)
  have ctr: "dctr (rb_dev s) \<noteq> -1" using 2(2) by (auto simp: rb_room_def)
  have len: "length (Version_String sv v) \<le> 250" using 2(3) by (simp add: rb_storable_def)
  obtain w' where w': "updateVersion hw sv x v s = (Ok (), s\<lparr>rb_dev := w'\<rparr>)" "rb_ready dkey (s\<lparr>rb_dev := w'\<rparr>)"
      "rb_room dctr s = Suc (rb_room dctr (s\<lparr>rb_dev := w'\<rparr>))"
      "dmem w' = (dmem (rb_dev s))(x := go_copy (zeros 256) (gob_encode_string (Version_String sv v)))"
    by (rule updateVersion_stored [OF rpmb_device_axioms 2(1) ctr len])
  moreover have "rb_stored sv dmem (s\<lparr>rb_dev := w'\<rparr>) = (rb_stored sv dmem s)(x := Ok v)"
    using 2(3,4) w'(4) decode_version_stored [of sv v] by (auto simp: rb_stored_def fun_eq_iff rb_storable_def)
  ultimately show ?case by auto
qed

context rollback_device
begin

lemma axioms_store: "version_store sv (expectedVersion hw sv) (updateVersion hw sv) (rb_stored sv dmem)
    (rb_ready dkey) (rb_room dctr) (rb_storable sv)"
  by (rule version_store_axioms)

text \<open>A check with any version text. It may leave the sector unreadable, if the text is too long; an
  unreadable sector refuses every check and stays as it is.\<close>

lemma update_any:
  assumes "rb_ready dkey s" and "0 < rb_room dctr s" and "\<not> rb_storable sv v" and "updateVersion hw sv x v s = (r, s')"
  shows "rb_ready dkey s' \<and> rb_room dctr s \<le> Suc (rb_room dctr s')
    \<and> (\<forall>y. y \<noteq> x \<longrightarrow> rb_stored sv dmem s' y = rb_stored sv dmem s y)
    \<and> (rb_stored sv dmem s' x = rb_stored sv dmem s x \<or> \<not> is_Ok (rb_stored sv dmem s' x))"
proof (cases "length (Version_String sv v) \<le> 250")
  case True
  have ctr: "dctr (rb_dev s) \<noteq> -1" using assms(2) by (auto simp: rb_room_def)
  have long: "unreadable sv v" using True assms(3) by (simp add: unreadable_def rb_storable_def)
  obtain w' where "s' = s\<lparr>rb_dev := w'\<rparr>" "rb_ready dkey s'" "rb_room dctr s = Suc (rb_room dctr s')"
      "dmem w' = (dmem (rb_dev s))(x := go_copy (zeros 256) (gob_encode_string (Version_String sv v)))"
    using updateVersion_stored [OF rpmb_device_axioms assms(1) ctr True, of x] assms(4) by auto
  with decode_version_cut [OF long] show ?thesis by (auto simp: rb_stored_def)
next
  case False
  with updateVersion_refused [OF assms(1), of sv v hw x] assms(1,4) show ?thesis by auto
qed

lemma check_any:
  assumes "rb_ready dkey s" and "0 < rb_room dctr s" and "checkVersion hw sv x str s = (r, s')"
  shows "rb_ready dkey s' \<and> rb_room dctr s \<le> Suc (rb_room dctr s')
    \<and> (\<forall>y. y \<noteq> x \<longrightarrow> rb_stored sv dmem s' y = rb_stored sv dmem s y)
    \<and> (\<forall>e. rb_stored sv dmem s x = Ok e \<longrightarrow>
        (\<exists>e'. rb_stored sv dmem s' x = Ok e' \<and> \<not> LessThan sv e' e)
        \<or> \<not> is_Ok (rb_stored sv dmem s' x) \<and> (\<exists>v. NewVersion sv str = Ok v \<and> \<not> rb_storable sv v))
    \<and> (\<not> is_Ok (rb_stored sv dmem s x) \<longrightarrow> \<not> is_Ok r \<and> \<not> is_Ok (rb_stored sv dmem s' x))
    \<and> (is_Ok r \<longrightarrow> (\<exists>v e. NewVersion sv str = Ok v \<and> rb_stored sv dmem s x = Ok e \<and> \<not> LessThan sv v e))"
proof (cases "\<exists>v e. NewVersion sv str = Ok v \<and> \<not> rb_storable sv v \<and> rb_stored sv dmem s x = Ok e")
  case False
  note run = assms(3) [unfolded checkVersion_def]
  show ?thesis
  proof (cases "is_Ok (NewVersion sv str)")
    case True
    then obtain v where v: "NewVersion sv str = Ok v" by (auto simp: is_Ok_iff)
    show ?thesis
    proof (cases "is_Ok (rb_stored sv dmem s x)")
      case True
      with False v have "\<And>w. NewVersion sv str = Ok w \<Longrightarrow> rb_storable sv w" by (auto simp: is_Ok_iff)
      from check_step [OF assms(1,2) this run] True show ?thesis by (auto simp: is_Ok_iff)
    next
      case False
      from check_unreadable [OF assms(1) v False] run False show ?thesis by auto
    qed
  next
    case False
    from check_unparsable [OF False, of x s] run assms(1) less_irrefl show ?thesis by auto
  qed
next
  case True
  then obtain v e where v: "NewVersion sv str = Ok v" "\<not> rb_storable sv v" "rb_stored sv dmem s x = Ok e" by blast
  obtain s1 where s1: "expectedVersion hw sv x s = (Ok e, s1)" "rb_ready dkey s1" "rb_stored sv dmem s1 = rb_stored sv dmem s"
      "rb_room dctr s1 = rb_room dctr s" using expected_law [OF assms(1), of x] v(3) by auto
  from assms(3) v s1(1) consider "s' = s1" "is_Ok r \<longrightarrow> \<not> LessThan sv v e" | "updateVersion hw sv x v s1 = (r, s')" "LessThan sv e v"
    by (auto simp: checkVersion_def check_version_def bindS_apply split: if_splits)
  then show ?thesis
  proof cases
    case 1
    with v s1 less_irrefl show ?thesis by auto
  next
    case 2
    from update_any [OF s1(2) _ v(2) 2(1)] assms(2) s1 v less_irrefl lt_asym [OF 2(2)] show ?thesis by auto
  qed
qed

end

interpretation ref_rb: rollback_device emmc_hw e_key e_counter emmc_sector tiny_semver
  by unfold_locales

section \<open>The authentication key stays inside\<close>

text \<open>A driver that stops dead when it is asked to send a key programming frame.\<close>

definition is_key_frame :: "bytes \<Rightarrow> bool" where
  "is_key_frame buf = (case read_frame buf of Ok f \<Rightarrow> Req f = AuthenticationKeyProgramming | _ \<Rightarrow> False)"

definition key_guard :: "'w rpmb_hw \<Rightarrow> 'w rpmb_hw" where
  "key_guard hw = hw\<lparr>hw_WriteRPMB := (\<lambda>buf rel.
     if is_key_frame buf then haltS ''key sent'' else hw_WriteRPMB hw buf rel)\<rparr>"

lemma bindS_cong_at:
  "(\<And>x t. m s = (Ok x, t) \<Longrightarrow> f x t = g x t) \<Longrightarrow> bindS m f s = bindS m g s"
  by (auto simp: bindS_apply split: prod.splits res.splits)

lemma tryS_cong: "(\<And>x t. f x t = g x t) \<Longrightarrow> tryS m f s = tryS m g s"
  by (auto simp: tryS_apply split: prod.splits res.splits)

lemma key_guard_fields [simp]:
  "hw_MMC (key_guard hw) = hw_MMC hw" "hw_ReadRPMB (key_guard hw) = hw_ReadRPMB hw"
  "hw_rand (key_guard hw) = hw_rand hw"
  by (simp_all add: key_guard_def)

lemma key_guard_write:
  "frame_ok f \<Longrightarrow> Req f \<noteq> AuthenticationKeyProgramming \<Longrightarrow>
     hw_WriteRPMB (key_guard hw) (Bytes f) = hw_WriteRPMB hw (Bytes f)"
  by (simp add: key_guard_def is_key_frame_def fun_eq_iff)

lemma op_key_guard:
  assumes "frame_ok req" and "Req req \<noteq> AuthenticationKeyProgramming"
  shows "op (key_guard hw) p req cfg w = op hw p req cfg w"
proof -
  have n: "op_nonce (key_guard hw) = (op_nonce hw :: DataFrame \<Rightarrow> _)"
    by (simp add: op_nonce_def rng_def fun_eq_iff)
  have r: "hw_WriteRPMB (key_guard hw) (Bytes (zero_frame\<lparr>Req := ResultReadRequest\<rparr>))
      = hw_WriteRPMB hw (Bytes (zero_frame\<lparr>Req := ResultReadRequest\<rparr>))"
    by (rule key_guard_write) (simp_all add: message_types)
  have "hw_WriteRPMB (key_guard hw) (Bytes rq) = hw_WriteRPMB hw (Bytes rq)"
    if "op_nonce hw (op_request_mac p req cfg) cfg w = (Ok rq, t)" for rq t
    using op_nonce_Ok [OF that] assms by (intro key_guard_write) simp_all
  then show ?thesis by (auto simp: op_def n r intro!: bindS_cong_at)
qed

lemma Counter_key_guard: "Counter (key_guard hw) p auth = Counter hw p auth"
  by (auto simp: Counter_def fun_eq_iff bindS_apply op_key_guard message_types)

lemma Write_key_guard: "Write (key_guard hw) p offset buf = Write hw p offset buf"
proof
  fix w
  have "op (key_guard hw) p (transfer_request k x b c) cfg v = op hw p (transfer_request k x b c) cfg v"
    if "k \<noteq> AuthenticationKeyProgramming" for k x b c cfg v
    using that by (intro op_key_guard) simp_all
  then show "Write (key_guard hw) p offset buf w = Write hw p offset buf w"
    by (simp add: Write_def transfer_def Counter_key_guard bindS_apply message_types Let_def
        split: prod.splits res.splits)
qed

lemma Init_key_guard: "Init (Some (key_guard hw)) k x d = Init (Some hw) k x d"
  unfolding Init_def option.case Write_key_guard key_guard_fields ..

section \<open>Properties\<close>

text \<open>C1: rollback protection. On a device that follows the standard, with the partition set up and
  room for the updates, take any sequence of version checks on any sectors, across any number of
  boots. If a check of sector \<open>x\<close> with version \<open>old\<close> passed and a later one of the same
  sector with version \<open>new\<close> passed too, then \<open>new\<close> does not precede \<open>old\<close>.\<close>

theorem rollback_protection:
  assumes "rollback_device hw dkey dctr dmem sv" and "rb_ready dkey s" and "length vs \<le> rb_room dctr s"
    and "\<And>x str v. (x, str) \<in> set vs \<Longrightarrow> NewVersion sv str = Ok v \<Longrightarrow> rb_storable sv v"
    and "i < j" and "j < length vs" and "vs ! i = (x, old)" and "vs ! j = (x, new)"
    and "check_seq (checkVersion hw sv) vs s ! i" and "check_seq (checkVersion hw sv) vs s ! j"
  shows "\<exists>a b. NewVersion sv old = Ok a \<and> NewVersion sv new = Ok b \<and> \<not> LessThan sv b a"
proof -
  have "version_store sv (expectedVersion hw sv) (updateVersion hw sv) (rb_stored sv dmem)
      (rb_ready dkey) (rb_room dctr) (rb_storable sv)"
    by (rule rollback_device.axioms_store [OF assms(1)])
  note version_store.accepted_never_older [OF this assms(2-8)]
  then show ?thesis using assms(9,10) by (simp add: checkVersion_def)
qed

text \<open>A set-up device for the concrete runs.\<close>

definition demo_rb :: "emmc rb_state" where
  "demo_rb = \<lparr>rb_dev = demo_emmc, is_usdhc = True, partition = Some demo_rpmb\<rparr>"

lemma demo_rb_ready: "rb_ready e_key demo_rb" "rb_room e_counter demo_rb = 4294967254"
  "rb_stored tiny_semver emmc_sector demo_rb x = Ok (0, 0, 0)"
  by (simp_all add: rb_ready_def demo_rb_def rb_room_def rb_stored_def versionLength_def
      decode_version_blank [unfolded versionLength_def] tiny_semver_def is_digit_def digit_of_def)

lemma tiny_storable: "rb_storable tiny_semver v"
  by (simp add: rb_storable_def tiny_semver_def tiny_String_def split: prod.split)

lemma tiny_parse:
  "NewVersion tiny_semver ''1.2.3'' = Ok (1, 2, 3)" "NewVersion tiny_semver ''1.2.2'' = Ok (1, 2, 2)"
  "NewVersion tiny_semver ''1.4.0'' = Ok (1, 4, 0)"
  by (simp_all add: tiny_semver_def is_digit_def digit_of_def)

lemma demo_checks:
  "check_seq (checkVersion emmc_hw tiny_semver) [(2, ''1.2.3''), (2, ''1.4.0'')] demo_rb = [True, True]"
proof -
  note ok = ref_rb.check_ok [folded checkVersion_def]
  obtain s1 where s1: "checkVersion emmc_hw tiny_semver 2 ''1.2.3'' demo_rb = (Ok (), s1)"
    "rb_ready e_key s1" "4294967253 \<le> rb_room e_counter s1"
    "rb_stored tiny_semver emmc_sector s1 2 = Ok (1, 2, 3)"
    using ok [OF demo_rb_ready(1) _ tiny_parse(1) tiny_storable, of 2 "(0, 0, 0)"] demo_rb_ready(2,3)
    by (auto simp: tiny_semver_def tiny_less_def)
  then obtain s2 where "checkVersion emmc_hw tiny_semver 2 ''1.4.0'' s1 = (Ok (), s2)"
    using ok [OF s1(2) _ tiny_parse(3) tiny_storable, of 2 "(1, 2, 3)"]
    by (auto simp: tiny_semver_def tiny_less_def)
  with s1 show ?thesis by simp
qed

theorem rollback_protection_witness:
  "\<exists>a b. NewVersion tiny_semver ''1.2.3'' = Ok a \<and> NewVersion tiny_semver ''1.4.0'' = Ok b
    \<and> \<not> LessThan tiny_semver b a"
  by (rule rollback_protection [OF ref_rb.rollback_device_axioms demo_rb_ready(1),
        where vs = "[(2, ''1.2.3''), (2, ''1.4.0'')]" and i = 0 and j = 1 and x = 2])
    (simp_all add: demo_rb_ready demo_checks tiny_storable del: check_seq.simps)

text \<open>C7: the version epochs in the RPMB refine abstract registers that only advance. On a device that
  follows the standard, with room for the updates and readable versions in the sectors \<open>X\<close> used: any
  sequence of checks passes and refuses exactly like the registers, and leaves in the sectors the
  versions the registers hold.\<close>

theorem epochs_refine_registers:
  assumes "rollback_device hw dkey dctr dmem sv" and "rb_ready dkey s" and "length vs \<le> rb_room dctr s"
    and "\<And>x str v. (x, str) \<in> set vs \<Longrightarrow> NewVersion sv str = Ok v \<Longrightarrow> rb_storable sv v"
    and "fst ` set vs \<subseteq> X" and "\<And>x. x \<in> X \<Longrightarrow> rb_stored sv dmem s x = Ok (reg x)"
  shows "check_seq (checkVersion hw sv) vs s = fst (register_run sv vs reg)
    \<and> (\<forall>x \<in> X. rb_stored sv dmem (check_after (checkVersion hw sv) vs s) x = Ok (snd (register_run sv vs reg) x))"
  using version_store.checks_refine_registers [OF rollback_device.axioms_store [OF assms(1)] assms(2-6)]
  by (simp add: checkVersion_def)

theorem epochs_refine_registers_witness:
  "check_seq (checkVersion emmc_hw tiny_semver) [(2, ''1.2.3''), (2, ''1.2.2''), (2, ''1.4.0'')] demo_rb = [True, False, True]"
proof -
  have "check_seq (checkVersion emmc_hw tiny_semver) [(2, ''1.2.3''), (2, ''1.2.2''), (2, ''1.4.0'')] demo_rb
      = fst (register_run tiny_semver [(2, ''1.2.3''), (2, ''1.2.2''), (2, ''1.4.0'')] (\<lambda>_ :: 16 word. (0, 0, 0)))"
    by (rule epochs_refine_registers [OF ref_rb.rollback_device_axioms demo_rb_ready(1), where X = UNIV, THEN conjunct1])
      (simp_all add: demo_rb_ready tiny_storable)
  also have "\<dots> = [True, False, True]"
    using tiny_parse by (simp add: register_check_def) (simp add: tiny_semver_def tiny_less_def)
  finally show ?thesis .
qed

text \<open>C14: the authentication key is not sent to a replaced card. For any card, any fuse access and
  any state: if every successful read of the program key flag says it is blown, or if blowing it
  never succeeds, then initialisation never sends a key programming frame (it does not notice a
  driver that halts on such a frame).\<close>

theorem init_never_resends_key:
  assumes "(\<forall>w res. fst (ReadOCOTP Z rpmbFuseBank rpmbFuseWord 0 1 w) = Ok res \<longrightarrow> res = [1])
    \<or> (\<forall>w. \<not> is_Ok (fst (BlowOCOTP Z rpmbFuseBank rpmbFuseWord 0 1 [1] w)))"
  shows "init_rpmb ks Z (key_guard hw) s = init_rpmb ks Z hw s"
proof -
  have fused: "b" if "isProgrammed Z t = (Ok b, t')"
    "\<forall>w res. fst (ReadOCOTP Z rpmbFuseBank rpmbFuseWord 0 1 w) = Ok res \<longrightarrow> res = [1]" for t b t'
    using that by (auto simp: isProgrammed_def onDev_apply elim!: bindS_OkE split: prod.splits)
      (metis fst_conv)
  have unfusable: "bindS (wrapS m (onDev (BlowOCOTP Z rpmbFuseBank rpmbFuseWord 0 1 [1]))) f t
      = bindS (wrapS m (onDev (BlowOCOTP Z rpmbFuseBank rpmbFuseWord 0 1 [1]))) g t"
    if "\<forall>w. \<not> is_Ok (fst (BlowOCOTP Z rpmbFuseBank rpmbFuseWord 0 1 [1] w))" for m f g t
    using that by (intro bindS_cong_at) (auto simp: onDev_apply split: prod.splits, metis fst_conv is_Ok.simps(1))
  have tail: "init_tail Z (key_guard hw) b p u = init_tail Z hw b p u"
    if "isProgrammed Z t = (Ok b, t')" for t b t' p u
    using assms
  proof
    assume "\<forall>w res. fst (ReadOCOTP Z rpmbFuseBank rpmbFuseWord 0 1 w) = Ok res \<longrightarrow> res = [1]"
    with fused [OF that] show ?thesis by (simp add: init_tail_def Counter_key_guard)
  next
    assume "\<forall>w. \<not> is_Ok (fst (BlowOCOTP Z rpmbFuseBank rpmbFuseWord 0 1 [1] w))"
    note u = unfusable [OF this]
    show ?thesis
      unfolding init_tail_def Counter_key_guard
      by (rule tryS_cong) (auto intro: u split: option.split)
  qed
  show ?thesis
    unfolding init_rpmb_def rpmb_Init_def Init_key_guard
    by (auto intro!: bindS_cong_at simp: tail)
qed

definition demo_keys :: "'w key_hw" where
  "demo_keys = \<lparr>CAAM_DeriveKey = None, DCP_DeriveKey = Some (\<lambda>d iv slot w. (Ok (zeros 32), w)),
     UniqueID = [1, 2, 3, 4], pbkdf2_Key = (\<lambda>dk salt n len. take len dk)\<rparr>"

definition blown_flag :: "'w otp" where
  "blown_flag = \<lparr>ReadOCOTP = (\<lambda>b w p n st. (Ok [1], st)), BlowOCOTP = (\<lambda>b w p n v st. (Ok (), st))\<rparr>"

theorem init_never_resends_key_witness:
  "init_rpmb demo_keys blown_flag (key_guard emmc_hw) (newRPMB True demo_emmc)
     = init_rpmb demo_keys blown_flag emmc_hw (newRPMB True demo_emmc)"
  by (rule init_never_resends_key) (simp add: blown_flag_def)

text \<open>C39: what the applet's data transfer reports. On a device that follows the standard, writing too
  much data with a counter pointer reports success although nothing was written, and sets the
  counter; without a counter pointer the error is reported. A write that succeeds does not set
  the counter.\<close>

theorem rb_transfer_reports:
  assumes "rpmb_device hw dkey dctr dmem" and "rb_ready dkey s"
  shows "(256 < length buf \<longrightarrow>
      (\<exists>s'. rb_transfer hw x buf (Some n) True s = (Ok (None, buf, Some (dctr (rb_dev s))), s')
        \<and> dmem (rb_dev s') = dmem (rb_dev s)))
    \<and> (256 < length buf \<longrightarrow> (\<exists>e. rb_transfer hw x buf None True s = (Ok (Some e, buf, None), s)))
    \<and> (length buf \<le> 256 \<and> dctr (rb_dev s) \<noteq> -1 \<longrightarrow>
      (\<exists>s'. rb_transfer hw x buf (Some n) True s = (Ok (None, buf, Some n), s')
        \<and> dctr (rb_dev s') = dctr (rb_dev s) + 1))"
proof -
  obtain p where p: "partition s = Some p" "init p" "dkey (rb_dev s) = Some (key p)"
    using assms(2) by (auto simp: rb_ready_def)
  have big: "Write hw p x buf w = (Err (ErrorsNew ''transfer size must not exceed 256 bytes''), w)"
    if "256 < length buf" for w
    using that by (simp add: Write_def transfer_def FrameLength_def)
  obtain w1 where w1: "Counter hw p True (rb_dev s) = (Ok (dctr (rb_dev s)), w1)" "dmem w1 = dmem (rb_dev s)"
    using rpmb_device.Counter_ok [OF assms(1) p(2,3)] rpmb_device.same_dev_def [OF assms(1)] by metis
  have one: "\<exists>s'. rb_transfer hw x buf (Some n) True s = (Ok (None, buf, Some (dctr (rb_dev s))), s')
        \<and> dmem (rb_dev s') = dmem (rb_dev s)" if "256 < length buf"
    using p big [OF that] w1 by (simp add: rb_transfer_def bindS_apply tryS_apply onDev_apply)
  have two: "\<exists>e. rb_transfer hw x buf None True s = (Ok (Some e, buf, None), s)" if "256 < length buf"
    using p big [OF that] by (simp add: rb_transfer_def bindS_apply tryS_apply onDev_apply)
  have three: "\<exists>s'. rb_transfer hw x buf (Some n) True s = (Ok (None, buf, Some n), s')
        \<and> dctr (rb_dev s') = dctr (rb_dev s) + 1" if small: "length buf \<le> 256" and ctr: "dctr (rb_dev s) \<noteq> -1"
  proof -
    obtain w2 where "Write hw p x buf (rb_dev s) = (Ok (), w2)" "dctr w2 = dctr (rb_dev s) + 1"
      using rpmb_device.Write_ok [OF assms(1) p(2,3) ctr small] by blast
    with p show ?thesis by (simp add: rb_transfer_def bindS_apply tryS_apply onDev_apply)
  qed
  from one two three show ?thesis by blast
qed

theorem rb_transfer_reports_witness:
  "\<exists>s'. rb_transfer emmc_hw taUserSector (zeros 300) (Some 0) True demo_rb = (Ok (None, zeros 300, Some 41), s')
    \<and> emmc_sector (rb_dev s') = emmc_sector (rb_dev demo_rb)"
  using rb_transfer_reports [OF ref_dev.rpmb_device_axioms demo_rb_ready(1), of "zeros 300" taUserSector 0]
  by (simp add: demo_rb_def)

text \<open>C38: version strings too long for the stored epoch. If the textual form of a version has 29 to 250
  characters, recording it succeeds, and from then on the expected version cannot be read and every
  check of that sector fails, the same version included. A longer text is refused and nothing changes.\<close>

theorem updateVersion_too_long:
  assumes "rpmb_device hw dkey dctr dmem" and "rb_ready dkey s" and "dctr (rb_dev s) \<noteq> -1"
    and "28 < length (Version_String sv v)"
  shows "(length (Version_String sv v) \<le> 250 \<longrightarrow>
      (\<exists>s'. updateVersion hw sv x v s = (Ok (), s')
        \<and> fst (expectedVersion hw sv x s') = Err unexpected_eof
        \<and> (\<forall>str. \<not> is_Ok (fst (checkVersion hw sv x str s')))))
    \<and> (250 < length (Version_String sv v) \<longrightarrow> (\<exists>e. updateVersion hw sv x v s = (Err e, s)))"
proof (intro conjI impI)
  assume len: "length (Version_String sv v) \<le> 250"
  obtain w where u: "updateVersion hw sv x v s = (Ok (), s\<lparr>rb_dev := w\<rparr>)" and "rb_ready dkey (s\<lparr>rb_dev := w\<rparr>)"
    and m: "dmem w = (dmem (rb_dev s))(x := go_copy (zeros 256) (gob_encode_string (Version_String sv v)))"
    by (rule updateVersion_stored [OF assms(1-3) len])
  then obtain p where p: "partition s = Some p" "init p" "dkey w = Some (key p)" by (auto simp: rb_ready_def)
  obtain w2 where "Read hw p x (zeros 32) w = (Ok (take 32 (dmem w x)), w2)"
    using rpmb_device.Read_ok [OF assms(1) p(2,3), of "zeros 32" x] by auto
  with p(1) m decode_version_cut [of sv v] len assms(4)
  have ex: "fst (expectedVersion hw sv x (s\<lparr>rb_dev := w\<rparr>)) = Err unexpected_eof"
    by (simp add: expectedVersion_def bindS_apply onDev_apply versionLength_def unreadable_def)
  then have "\<not> is_Ok (fst (checkVersion hw sv x str (s\<lparr>rb_dev := w\<rparr>)))" for str
    by (auto simp: checkVersion_def check_version_def bindS_apply is_Ok_iff split: prod.splits res.splits)
  with ex u show "\<exists>s'. updateVersion hw sv x v s = (Ok (), s') \<and> fst (expectedVersion hw sv x s') = Err unexpected_eof
      \<and> (\<forall>str. \<not> is_Ok (fst (checkVersion hw sv x str s')))" by blast
next
  assume "250 < length (Version_String sv v)"
  then show "\<exists>e. updateVersion hw sv x v s = (Err e, s)" by (simp add: updateVersion_refused [OF assms(2)])
qed

definition wordy_semver :: "nat \<Rightarrow> unit semver" where
  "wordy_semver n = \<lparr>NewVersion = (\<lambda>_. Ok ()), Version_String = (\<lambda>_. ''1.0.0+'' @ replicate n (CHR ''a'')),
     LessThan = (\<lambda>_ _. False), Equal = (\<lambda>_ _. True)\<rparr>"

theorem updateVersion_too_long_witness:
  "(\<exists>s'. updateVersion emmc_hw (wordy_semver 30) osVersionSector () demo_rb = (Ok (), s')
      \<and> fst (expectedVersion emmc_hw (wordy_semver 30) osVersionSector s') = Err unexpected_eof
      \<and> (\<forall>str. \<not> is_Ok (fst (checkVersion emmc_hw (wordy_semver 30) osVersionSector str s'))))
    \<and> (\<exists>e. updateVersion emmc_hw (wordy_semver 300) osVersionSector () demo_rb = (Err e, demo_rb))"
proof -
  have "e_counter (rb_dev demo_rb) \<noteq> - 1" by (simp add: demo_rb_def)
  note T = updateVersion_too_long [OF ref_dev.rpmb_device_axioms demo_rb_ready(1) this]
  show ?thesis using T [of "wordy_semver 30" "()" osVersionSector] T [of "wordy_semver 300" "()" osVersionSector]
    by (simp add: wordy_semver_def)
qed

end
