(* ===== verification/Hab.thy ===== *)
theory Hab
  imports Otp
begin

text \<open>
  Activation of High Assurance Boot (\<open>src/internal/hab/hab.go\<close>): the guards of
  \<open>Activate\<close>, the read / blow / read back of one fuse field, and the sequence of ten fields.
  The fuse access, the SNVS query and \<open>util.SwitchEndianness\<close> are outside the repository
  and are parameters.
\<close>

section \<open>Definitions\<close>

definition sha256_Size :: nat where "sha256_Size = 32"

definition fuse :: "'w otp \<Rightarrow> string \<Rightarrow> int \<Rightarrow> int \<Rightarrow> int \<Rightarrow> int \<Rightarrow> bytes \<Rightarrow> ('w, unit) io" where
  "fuse Z name bank wrd off len val =
     bindS (wrapS (''read error for '' @ name) (ReadOCOTP Z bank wrd off len)) (\<lambda>_.
     bindS (BlowOCOTP Z bank wrd off len val) (\<lambda>_.
     tryS (ReadOCOTP Z bank wrd off len) (\<lambda>r. case r of
         Inl e \<Rightarrow> failS (Errorf (''readback error for '' @ name) e)
       | Inr res \<Rightarrow> if val \<noteq> res then failS (ErrorsNew (''readback error for '' @ name))
                    else retS ())))"

definition hab :: "'w otp \<Rightarrow> (bytes \<Rightarrow> bytes) \<Rightarrow> bytes \<Rightarrow> ('w, unit) io" where
  "hab Z SwitchEndianness srk =
     (if length srk \<noteq> sha256_Size then failS (ErrorsNew ''fatal error, invalid SRK hash'')
      else
        bindS (fuse Z ''SRK_HASH'' 3 0 0 256 (SwitchEndianness srk)) (\<lambda>_.
        bindS (fuse Z ''SRK_LOCK'' 0 0 14 1 [1]) (\<lambda>_.
        bindS (fuse Z ''SEC_CONFIG'' 0 6 0 2 [3]) (\<lambda>_.
        bindS (fuse Z ''DIR_BT_DIS'' 0 6 3 1 [1]) (\<lambda>_.
        bindS (fuse Z ''SJC_DISABLE'' 0 6 20 1 [1]) (\<lambda>_.
        bindS (fuse Z ''JTAG_SMODE'' 0 6 22 2 [3]) (\<lambda>_.
        bindS (fuse Z ''JTAG_HEO'' 0 6 27 1 [1]) (\<lambda>_.
        bindS (fuse Z ''KTE'' 0 6 26 1 [1]) (\<lambda>_.
        bindS (fuse Z ''SDP_READ_DISABLE'' 0 6 18 1 [1]) (\<lambda>_.
        fuse Z ''UART_SERIAL_DOWNLOAD_DISABLE'' 0 7 4 1 [1]))))))))))"

definition Activate :: "('w \<Rightarrow> bool) \<Rightarrow> 'w otp \<Rightarrow> (bytes \<Rightarrow> bytes) \<Rightarrow> bytes \<Rightarrow> ('w, unit) io" where
  "Activate SNVS_Available Z SwitchEndianness srk =
     bindS (getS SNVS_Available) (\<lambda>enabled.
     if enabled then failS (ErrorsNew ''HAB already enabled'')
     else if length srk \<noteq> sha256_Size then failS (ErrorsNew ''invalid SRK'')
     else if srk = zeros sha256_Size then failS (ErrorsNew ''invalid SRK'')
     else hab Z SwitchEndianness srk)"

section \<open>The sequence as a table\<close>

type_synonym fuse_entry = "string \<times> (int \<times> int \<times> int \<times> int) \<times> bytes"

definition hab_table :: "bytes \<Rightarrow> fuse_entry list" where
  "hab_table h =
     [(''SRK_HASH'', (3, 0, 0, 256), h), (''SRK_LOCK'', (0, 0, 14, 1), [1]),
      (''SEC_CONFIG'', (0, 6, 0, 2), [3]), (''DIR_BT_DIS'', (0, 6, 3, 1), [1]),
      (''SJC_DISABLE'', (0, 6, 20, 1), [1]), (''JTAG_SMODE'', (0, 6, 22, 2), [3]),
      (''JTAG_HEO'', (0, 6, 27, 1), [1]), (''KTE'', (0, 6, 26, 1), [1]),
      (''SDP_READ_DISABLE'', (0, 6, 18, 1), [1]), (''UART_SERIAL_DOWNLOAD_DISABLE'', (0, 7, 4, 1), [1])]"

fun fuse_all :: "'w otp \<Rightarrow> fuse_entry list \<Rightarrow> ('w, unit) io" where
  "fuse_all Z [] = retS ()"
| "fuse_all Z ((name, (b, w, p, n), val) # es) = bindS (fuse Z name b w p n val) (\<lambda>_. fuse_all Z es)"

lemma bindS_retS_right: "bindS m retS = m"
  by (simp add: bindS_def fun_eq_iff split: prod.splits res.splits)

lemma hab_fuse_all: "length srk = 32 \<Longrightarrow> hab Z swap srk = fuse_all Z (hab_table (swap srk))"
  by (simp add: hab_def hab_table_def sha256_Size_def bindS_retS_right)

text \<open>The ten fields do not overlap.\<close>

fun fields_disjoint :: "fuse_entry list \<Rightarrow> bool" where
  "fields_disjoint [] = True"
| "fields_disjoint ((_, f, _) # es) = ((\<forall>(_, g, _) \<in> set es. fuse_disjoint f g \<and> fuse_disjoint g f) \<and> fields_disjoint es)"

lemma hab_table_disjoint: "fields_disjoint (hab_table h)"
  by (simp add: hab_table_def fuse_disjoint_def)

section \<open>Lemmas over the fuse contracts\<close>

definition holds_entry :: "('w \<Rightarrow> int \<Rightarrow> int \<Rightarrow> int \<Rightarrow> int \<Rightarrow> bytes) \<Rightarrow> 'w \<Rightarrow> fuse_entry \<Rightarrow> bool" where
  "holds_entry field st e = (case e of (_, (b, w, p, n), val) \<Rightarrow> field st b w p n = val)"

context otp_fuses
begin

lemma fuse_effect:
  assumes "fuse Z name b w p n val st = (q, st')"
  shows "q = Ok () \<Longrightarrow> field st' b w p n = val"
    and "fuse_disjoint (b, w, p, n) (b', w', p', n') \<Longrightarrow> field st' b' w' p' n' = field st b' w' p' n'"
proof -
  obtain r1 s1 where r1: "ReadOCOTP Z b w p n st = (r1, s1)" by (cases "ReadOCOTP Z b w p n st")
  obtain r2 s2 where r2: "BlowOCOTP Z b w p n val s1 = (r2, s2)" by (cases "BlowOCOTP Z b w p n val s1")
  obtain r3 s3 where r3: "ReadOCOTP Z b w p n s2 = (r3, s3)" by (cases "ReadOCOTP Z b w p n s2")
  note l = read_law [OF r1] read_law [OF r3] blow_law [OF r2]
  have cases: "st' = s1 \<and> q \<noteq> Ok () \<or> st' = s2 \<and> q \<noteq> Ok () \<or> st' = s3 \<and> (q = Ok () \<longrightarrow> r3 = Ok val)"
    using assms r1 r2 r3
    by (auto simp: fuse_def bindS_apply wrapS_apply tryS_apply split: res.splits if_splits)
  with l(1,2) show "q = Ok () \<Longrightarrow> field st' b w p n = val" by auto
  show "fuse_disjoint (b, w, p, n) (b', w', p', n') \<Longrightarrow> field st' b' w' p' n' = field st b' w' p' n'"
    using cases l by auto
qed

text \<open>A sequence of fuse operations: it stops at the first failure, what comes before the failure
  is fused, and what comes after is untouched.\<close>

lemma fuse_all_other:
  assumes "fuse_all Z es st = (q, st')"
    and "\<And>nm f val. (nm, f, val) \<in> set es \<Longrightarrow> fuse_disjoint f (b, w, p, n)"
  shows "field st' b w p n = field st b w p n"
  using assms
proof (induction es arbitrary: st)
  case (Cons e es)
  obtain nm b1 w1 p1 n1 val where e: "e = (nm, (b1, w1, p1, n1), val)" by (metis prod_cases3)
  obtain q1 s1 where f: "fuse Z nm b1 w1 p1 n1 val st = (q1, s1)" by (cases "fuse Z nm b1 w1 p1 n1 val st")
  have "field s1 b w p n = field st b w p n"
    using fuse_effect(2) [OF f] Cons.prems(2) [of nm _ val] by (simp add: e)
  moreover have "field st' b w p n = field s1 b w p n" if "fuse_all Z es s1 = (q, st')"
    using that by (rule Cons.IH) (rule Cons.prems(2), erule list.set_intros(2))
  ultimately show ?case
    using Cons.prems(1) f by (auto simp: e bindS_apply split: res.splits)
qed simp

lemma fuse_all_done:
  assumes "fuse_all Z es st = (Ok (), st')" and "fields_disjoint es"
  shows "\<forall>e \<in> set es. holds_entry field st' e"
  using assms
proof (induction es arbitrary: st)
  case (Cons e es)
  obtain nm b w p n val where e: "e = (nm, (b, w, p, n), val)" by (metis prod_cases3)
  from Cons.prems(1) obtain s1 where f: "fuse Z nm b w p n val st = (Ok (), s1)"
    and rest: "fuse_all Z es s1 = (Ok (), st')"
    by (auto simp: e elim!: bindS_OkE)
  have "field st' b w p n = field s1 b w p n"
    using rest Cons.prems(2) by (rule_tac fuse_all_other) (auto simp: e)
  with fuse_effect(1) [OF f] Cons.IH [OF rest] Cons.prems(2) show ?case
    by (simp add: e holds_entry_def)
qed simp

lemma fuse_all_append:
  "fuse_all Z (xs @ ys) st = (case fuse_all Z xs st of
      (Ok _, s1) \<Rightarrow> fuse_all Z ys s1 | (Err e, s1) \<Rightarrow> (Err e, s1) | (Halt m, s1) \<Rightarrow> (Halt m, s1))"
  by (induction xs arbitrary: st) (auto simp: bindS_apply split: prod.splits res.splits)

end

context otp_working
begin

lemma fuse_total:
  assumes "0 \<le> w" "0 \<le> p" "fuse_value n val" "field st b w p n = zeros (length val)"
  shows "\<exists>st'. fuse Z name b w p n val st = (Ok (), st')"
proof -
  obtain s1 where r1: "ReadOCOTP Z b w p n st = (Ok (field st b w p n), s1)" using read_total by blast
  then have "field s1 b w p n = zeros (length val)" using read_law assms(4) by metis
  then obtain s2 where r2: "BlowOCOTP Z b w p n val s1 = (Ok (), s2)" "field s2 b w p n = val"
    using blow_total assms by blast
  obtain s3 where "ReadOCOTP Z b w p n s2 = (Ok val, s3)" using read_total r2(2) by metis
  with r1 r2 show ?thesis by (simp add: fuse_def bindS_apply wrapS_apply tryS_apply)
qed

lemma fuse_all_total:
  assumes "fields_disjoint es"
    and "\<And>nm b w p n val. (nm, (b, w, p, n), val) \<in> set es \<Longrightarrow>
      0 \<le> w \<and> 0 \<le> p \<and> fuse_value n val \<and> field st b w p n = zeros (length val)"
  shows "\<exists>st'. fuse_all Z es st = (Ok (), st')"
  using assms
proof (induction es arbitrary: st)
  case (Cons e es)
  obtain nm b w p n val where e: "e = (nm, (b, w, p, n), val)" by (metis prod_cases3)
  then obtain s1 where f: "fuse Z nm b w p n val st = (Ok (), s1)"
    using fuse_total Cons.prems(2) [of nm b w p n val] by (metis list.set_intros(1))
  have "\<exists>st'. fuse_all Z es s1 = (Ok (), st')"
  proof (rule Cons.IH)
    show "fields_disjoint es" using Cons.prems(1) by (simp add: e)
    fix nm' b' w' p' n' val' assume m: "(nm', (b', w', p', n'), val') \<in> set es"
    then have "field s1 b' w' p' n' = field st b' w' p' n'"
      using fuse_effect(2) [OF f] Cons.prems(1) by (auto simp: e)
    with m Cons.prems(2) [of nm' b' w' p' n' val'] show "0 \<le> w' \<and> 0 \<le> p' \<and> fuse_value n' val' \<and> field s1 b' w' p' n' = zeros (length val')"
      by simp
  qed
  with f show ?case by (simp add: e bindS_apply)
qed simp

end

section \<open>Properties\<close>

text \<open>C12: HAB is only ever activated for a usable key hash, and the device is closed only after the
  key hash is in place. For any fuses that keep to the contract and whatever the outcome: if the
  closed-configuration field (\<open>SEC_CONFIG\<close>) changed, then HAB was not enabled before, the SRK
  hash has 32 bytes and is not all zero, and the hash and its lock bit have been fused and hold
  the intended values. If \<open>Activate\<close> reports success, all ten fields do.\<close>

theorem Activate_safe:
  assumes "otp_fuses Z field" and "Activate avail Z swap srk st = (q, st')"
  shows "(field st' 0 6 0 2 \<noteq> field st 0 6 0 2 \<longrightarrow>
        \<not> avail st \<and> length srk = 32 \<and> srk \<noteq> zeros 32
        \<and> field st' 3 0 0 256 = swap srk \<and> field st' 0 0 14 1 = [1])
    \<and> (q = Ok () \<longrightarrow> \<not> avail st \<and> length srk = 32 \<and> srk \<noteq> zeros 32
        \<and> (\<forall>e \<in> set (hab_table (swap srk)). holds_entry field st' e))"
proof (cases "avail st \<or> length srk \<noteq> 32 \<or> srk = zeros 32")
  case True
  with assms(2) have "st' = st" "q \<noteq> Ok ()"
    by (auto simp: Activate_def bindS_apply sha256_Size_def split: if_splits)
  then show ?thesis by simp
next
  case False
  let ?t = "hab_table (swap srk)"
  have run: "fuse_all Z ?t st = (q, st')"
    using False assms(2) by (auto simp: Activate_def bindS_apply sha256_Size_def hab_fuse_all)
  have split: "?t = take 2 ?t @ drop 2 ?t" by simp
  obtain q1 s1 where keys: "fuse_all Z (take 2 ?t) st = (q1, s1)" by (cases "fuse_all Z (take 2 ?t) st")
  have s1: "field s1 0 6 0 2 = field st 0 6 0 2"
    by (rule otp_fuses.fuse_all_other [OF assms(1) keys]) (auto simp: hab_table_def fuse_disjoint_def)
  have closed: "field st' 3 0 0 256 = swap srk \<and> field st' 0 0 14 1 = [1]"
    if "field st' 0 6 0 2 \<noteq> field st 0 6 0 2"
  proof -
    have "q1 = Ok ()" and rest: "fuse_all Z (drop 2 ?t) s1 = (q, st')"
      using run that s1 keys otp_fuses.fuse_all_append [OF assms(1), of "take 2 ?t" "drop 2 ?t" st]
      by (auto split: res.splits)
    then have "\<forall>e \<in> set (take 2 ?t). holds_entry field s1 e"
      using keys by (intro otp_fuses.fuse_all_done [OF assms(1)]) (auto simp: hab_table_def fuse_disjoint_def)
    then have "field s1 3 0 0 256 = swap srk" "field s1 0 0 14 1 = [1]"
      by (simp_all add: hab_table_def holds_entry_def)
    moreover have "field st' 3 0 0 256 = field s1 3 0 0 256" "field st' 0 0 14 1 = field s1 0 0 14 1"
      by (rule otp_fuses.fuse_all_other [OF assms(1) rest]; auto simp: hab_table_def fuse_disjoint_def)+
    ultimately show ?thesis by simp
  qed
  with False run otp_fuses.fuse_all_done [OF assms(1), of ?t st st'] hab_table_disjoint
  show ?thesis by blast
qed

lemma hab_table_total:
  assumes "otp_working Z field" and "length h = 32"
    and "\<forall>(_, (b, w, p, n), val) \<in> set (hab_table h). field st b w p n = zeros (length val)"
  shows "\<exists>st'. fuse_all Z (hab_table h) st = (Ok (), st')"
proof (rule otp_working.fuse_all_total [OF assms(1) hab_table_disjoint])
  fix nm b w p n val assume m: "(nm, (b, w, p, n), val) \<in> set (hab_table h)"
  then have "0 \<le> w \<and> 0 \<le> p \<and> fuse_value n val"
    using assms(2) by (auto simp: hab_table_def fuse_value_def)
  with m assms(3) show "0 \<le> w \<and> 0 \<le> p \<and> fuse_value n val \<and> field st b w p n = zeros (length val)"
    by fastforce
qed

lemma Activate_fuse_all:
  assumes "\<not> avail st" and "length srk = 32" and "srk \<noteq> zeros 32"
  shows "Activate avail Z swap srk st = fuse_all Z (hab_table (swap srk)) st"
  using assms by (simp add: Activate_def bindS_apply sha256_Size_def hab_fuse_all)

text \<open>C21: activation succeeds on a working part whose ten fields are clear, for every usable key
  hash, and leaves exactly the intended values in them.\<close>

theorem Activate_succeeds:
  assumes "otp_working Z field" and "\<not> avail st" and "length srk = 32" and "srk \<noteq> zeros 32"
    and "length (swap srk) = 32"
    and "\<forall>(_, (b, w, p, n), val) \<in> set (hab_table (swap srk)). field st b w p n = zeros (length val)"
  shows "\<exists>st'. Activate avail Z swap srk st = (Ok (), st')
    \<and> (\<forall>e \<in> set (hab_table (swap srk)). holds_entry field st' e)"
proof -
  let ?t = "hab_table (swap srk)"
  obtain st' where run: "fuse_all Z ?t st = (Ok (), st')"
    using hab_table_total [OF assms(1,5,6)] by blast
  moreover have "Activate avail Z swap srk st = fuse_all Z ?t st"
    using assms(2-4) by (rule Activate_fuse_all)
  moreover note otp_fuses.fuse_all_done [OF otp_working.axioms(1) [OF assms(1)] run hab_table_disjoint]
  ultimately show ?thesis by auto
qed

definition demo_srk :: bytes where "demo_srk = map word_of_nat [1..<33]"

lemma demo_srk_ok: "length demo_srk = 32" "demo_srk \<noteq> zeros 32" "length (rev demo_srk) = 32"
  by (simp_all add: demo_srk_def upt_rec zeros_def numeral_eq_Suc)

theorem Activate_succeeds_witness:
  "\<exists>st'. Activate (\<lambda>_. False) fuse_array rev demo_srk blank_fuses = (Ok (), st')
    \<and> (\<forall>e \<in> set (hab_table (rev demo_srk)). holds_entry fuse_field st' e)"
  by (rule Activate_succeeds [OF ocotp.otp_working_axioms])
    (simp_all add: demo_srk_ok hab_table_def fuse_field_blank)

theorem Activate_safe_witness:
  "\<exists>st'. Activate (\<lambda>_. False) fuse_array rev demo_srk blank_fuses = (Ok (), st')
    \<and> fuse_field st' 3 0 0 256 = rev demo_srk \<and> fuse_field st' 0 0 14 1 = [1]
    \<and> fuse_field st' 0 6 0 2 = [3]"
proof -
  obtain st' where run: "Activate (\<lambda>_. False) fuse_array rev demo_srk blank_fuses = (Ok (), st')"
    using hab_table_total [OF ocotp.otp_working_axioms, of "rev demo_srk" blank_fuses] demo_srk_ok
    by (auto simp: Activate_fuse_all) (auto simp: hab_table_def fuse_field_blank)
  from Activate_safe [OF ocotp.otp_fuses_axioms run] run show ?thesis
    by (simp add: hab_table_def holds_entry_def)
qed

end
