(* ===== verification/Memory_Map.thy ===== *)
theory Memory_Map
  imports Prelude
begin

text \<open>
  The memory regions of the Trusted OS and the Trusted Applet (\<open>src/trusted_os/mem.go\<close>, and
  \<open>src/trusted_os/mem_bee.go\<close> for builds with the bus encryption engine) and the address check
  \<open>isAppletMemory\<close> of \<open>src/trusted_os/rpc.go\<close>. Addresses are 32-bit.
\<close>

section \<open>Definitions\<close>

record mem_map =
  secureStart :: "32 word"
  secureSize :: "32 word"
  secureDMAStart :: "32 word"
  secureDMASize :: "32 word"
  appletStart :: "32 word"
  appletSize :: "32 word"

definition mem_default :: mem_map where
  "mem_default = \<lparr>secureStart = 0x80000000, secureSize = 0x0e000000,
     secureDMAStart = 0x8e000000, secureDMASize = 0x02000000,
     appletStart = 0x90000000, appletSize = 0x10000000\<rparr>"

definition mem_bee :: mem_map where
  "mem_bee = \<lparr>secureStart = 0x10000000, secureSize = 0x0e000000,
     secureDMAStart = 0x8e000000, secureDMASize = 0x02000000,
     appletStart = 0x20000000, appletSize = 0x10000000\<rparr>"

definition isAppletMemory :: "mem_map \<Rightarrow> 32 word \<Rightarrow> bool" where
  "isAppletMemory m addr \<longleftrightarrow> appletStart m \<le> addr \<and> addr < appletStart m + appletSize m"

text \<open>The runtime's view of its RAM (\<open>ramStart\<close>, \<open>ramSize\<close>).\<close>

definition ramStart :: "mem_map \<Rightarrow> 32 word" where "ramStart m = secureStart m"

definition ramSize :: "mem_map \<Rightarrow> 32 word" where "ramSize m = secureSize m"

text \<open>With the bus encryption engine the exception vectors and page tables stay outside the encrypted
  alias, and \<open>init\<close> makes the mebibyte they start in non-executable: the bounds it passes.\<close>

definition physicalStart :: "32 word" where "physicalStart = 0x80000000"

definition vecTableStart :: "32 word" where "vecTableStart = physicalStart"

definition bee_no_execute :: "32 word \<times> 32 word" where
  "bee_no_execute = (vecTableStart, vecTableStart + push_bit 20 1)"

text \<open>\<open>init\<close> of \<open>src/trusted_os/dma.go\<close>: the applet's region is reserved as a whole, so no DMA buffer
  can be allocated in it, the OS allocates DMA buffers in its own region, and the key derivation
  memory goes to the CAAM if there is one, else to the DCP.\<close>

datatype key_engine = CAAM_engine | DCP_engine

record dma_setup =
  appletRegion :: "32 word \<times> 32 word"
  applet_reserved :: "32 word"
  dma_default :: "32 word \<times> 32 word"
  DeriveKeyMemory_of :: "key_engine option"

definition dma_init :: "mem_map \<Rightarrow> bool \<Rightarrow> bool \<Rightarrow> dma_setup" where
  "dma_init m caam dcp = \<lparr>appletRegion = (appletStart m, appletSize m), applet_reserved = appletSize m,
     dma_default = (secureDMAStart m, secureDMASize m),
     DeriveKeyMemory_of = (if caam then Some CAAM_engine else if dcp then Some DCP_engine else None)\<rparr>"

section \<open>Regions as sets of addresses\<close>

definition region :: "32 word \<Rightarrow> 32 word \<Rightarrow> nat set" where
  "region start len = {unat start ..< unat start + unat len}"

text \<open>A layout is sound if its three regions fit in the address space and do not overlap.\<close>

definition layout_sound :: "mem_map \<Rightarrow> bool" where
  "layout_sound m \<longleftrightarrow>
     unat (secureStart m) + unat (secureSize m) \<le> 2 ^ 32
     \<and> unat (secureDMAStart m) + unat (secureDMASize m) \<le> 2 ^ 32
     \<and> unat (appletStart m) + unat (appletSize m) < 2 ^ 32
     \<and> region (secureStart m) (secureSize m) \<inter> region (secureDMAStart m) (secureDMASize m) = {}
     \<and> region (secureStart m) (secureSize m) \<inter> region (appletStart m) (appletSize m) = {}
     \<and> region (secureDMAStart m) (secureDMASize m) \<inter> region (appletStart m) (appletSize m) = {}"

lemma layouts_sound: "layout_sound mem_default" "layout_sound mem_bee"
  by (auto simp: layout_sound_def mem_default_def mem_bee_def region_def)

text \<open>The tables of the encrypted build overlap none of its three regions, and DMA buffers never lie in
  applet memory.\<close>

lemma bee_tables_isolated:
  "region (fst bee_no_execute) (snd bee_no_execute - fst bee_no_execute)
     \<inter> (region (secureStart mem_bee) (secureSize mem_bee) \<union> region (secureDMAStart mem_bee) (secureDMASize mem_bee)
       \<union> region (appletStart mem_bee) (appletSize mem_bee)) = {}"
  by (auto simp: region_def bee_no_execute_def vecTableStart_def physicalStart_def mem_bee_def push_bit_eq_mult)

lemma dma_outside_applet:
  "layout_sound m \<Longrightarrow> region (fst (dma_default (dma_init m c d))) (snd (dma_default (dma_init m c d)))
     \<inter> region (fst (appletRegion (dma_init m c d))) (snd (appletRegion (dma_init m c d))) = {}"
  by (simp add: dma_init_def layout_sound_def)

lemma isAppletMemory_region:
  assumes "layout_sound m"
  shows "isAppletMemory m addr \<longleftrightarrow> unat addr \<in> region (appletStart m) (appletSize m)"
proof -
  have "unat (appletStart m + appletSize m) = unat (appletStart m) + unat (appletSize m)"
    using assms by (intro unat_add_lem [THEN iffD1]) (simp add: layout_sound_def)
  then show ?thesis by (simp add: isAppletMemory_def region_def word_le_nat_alt word_less_nat_alt)
qed

section \<open>Properties\<close>

text \<open>C33: memory isolation of the layout, for both builds: the Trusted OS, its DMA area and the
  applet do not overlap and do not wrap around the address space, and the address check accepts
  exactly the applet's addresses; in particular it accepts no address of the OS or its DMA area.\<close>

theorem applet_memory_isolated:
  assumes "m \<in> {mem_default, mem_bee}"
  shows "layout_sound m \<and> (isAppletMemory m addr \<longleftrightarrow> unat addr \<in> region (appletStart m) (appletSize m))
    \<and> (isAppletMemory m addr \<longrightarrow> unat addr \<notin> region (ramStart m) (ramSize m)
        \<and> unat addr \<notin> region (secureDMAStart m) (secureDMASize m))"
proof -
  have s: "layout_sound m" using assms layouts_sound by auto
  with isAppletMemory_region [OF s] show ?thesis
    by (auto simp: layout_sound_def ramStart_def ramSize_def)
qed

theorem applet_memory_isolated_witness:
  "isAppletMemory mem_default 0x90000000 \<and> 0x90000000 \<notin> region (ramStart mem_default) (ramSize mem_default)
    \<and> \<not> isAppletMemory mem_default 0xa0000000 \<and> \<not> isAppletMemory mem_bee 0x90000000"
  using applet_memory_isolated [of mem_default "0x90000000"]
  by (simp add: isAppletMemory_def mem_default_def mem_bee_def)

end
