(* ===== verification/Api.thy ===== *)
theory Api
  imports Go_Std
begin

text \<open>
  The control interface's messages (\<open>src/api/api.proto\<close>, \<open>src/api/api.go\<close>) and the RPC
  argument types (\<open>src/api/rpc/rpc.go\<close>). The protocol buffer library is outside the
  repository: \<open>api_codec\<close> has one \<open>Marshal\<close> and one \<open>Unmarshal\<close> per message type,
  and the locale \<open>api_wire\<close> says that decoding undoes encoding. Theory \<open>Proto_Wire\<close> has the
  instance with the wire format and the field numbers of \<open>src/api/api.pb.go\<close>.
\<close>

section \<open>Messages\<close>

definition VendorID :: nat where "VendorID = 0x1209"

definition ProductID :: nat where "ProductID = 0x2702"

definition HIDUsagePage :: nat where "HIDUsagePage = 0xff00"

definition MaxMessageSize :: nat where "MaxMessageSize = 7609"

datatype ErrorCode = NONE | GENERIC_ERROR

fun ErrorCode_String :: "ErrorCode \<Rightarrow> string" where
  "ErrorCode_String NONE = ''NONE''"
| "ErrorCode_String GENERIC_ERROR = ''GENERIC_ERROR''"

record Response =
  rsp_Error :: ErrorCode
  rsp_Payload :: bytes

record WitnessStatus =
  ws_Identity :: string
  ws_IP :: string
  ws_IDAttestPublicKey :: string
  ws_AttestedID :: string
  ws_AttestedBastionID :: string

record Status =
  st_Serial :: string
  st_HAB :: bool
  st_Revision :: string
  st_Build :: string
  st_Version :: string
  st_Runtime :: string
  st_Link :: bool
  st_Witness :: "WitnessStatus option"
  st_IdentityCounter :: "32 word"
  st_SRKHash :: string
  st_MAC :: string

record Configuration =
  cf_DHCP :: bool
  cf_IP :: string
  cf_Netmask :: string
  cf_Gateway :: string
  cf_Resolver :: string
  cf_NTPServer :: string

record LogMessagesRequest =
  lr_Continue :: bool

record LogMessagesResponse =
  lm_Payload :: bytes
  lm_More :: bool

text \<open>Vendor commands are numbered from the library's \<open>VendorCommandFirst\<close>.\<close>

definition VendorCommand :: "nat \<Rightarrow> nat \<Rightarrow> nat" where
  "VendorCommand first i = i + first"

definition U2FHID_ARMORY_INF :: "nat \<Rightarrow> nat" where "U2FHID_ARMORY_INF first = VendorCommand first 0"

definition U2FHID_ARMORY_CFG :: "nat \<Rightarrow> nat" where "U2FHID_ARMORY_CFG first = VendorCommand first 1"

definition U2FHID_ARMORY_HAB :: "nat \<Rightarrow> nat" where "U2FHID_ARMORY_HAB first = VendorCommand first 3"

definition U2FHID_ARMORY_CONSOLE_LOGS :: "nat \<Rightarrow> nat" where
  "U2FHID_ARMORY_CONSOLE_LOGS first = VendorCommand first 4"

definition U2FHID_ARMORY_CRASH_LOGS :: "nat \<Rightarrow> nat" where
  "U2FHID_ARMORY_CRASH_LOGS first = VendorCommand first 5"

section \<open>Wire format\<close>

record api_codec =
  enc_Response :: "Response \<Rightarrow> bytes"
  dec_Response :: "bytes \<Rightarrow> Response res"
  enc_Status :: "Status \<Rightarrow> bytes"
  dec_Status :: "bytes \<Rightarrow> Status res"
  enc_Configuration :: "Configuration \<Rightarrow> bytes"
  enc_LogRequest :: "LogMessagesRequest \<Rightarrow> bytes"
  dec_LogRequest :: "bytes \<Rightarrow> LogMessagesRequest res"
  enc_LogResponse :: "LogMessagesResponse \<Rightarrow> bytes"
  dec_LogResponse :: "bytes \<Rightarrow> LogMessagesResponse res"

text \<open>Text fields must be valid UTF-8; ASCII is enough here.\<close>

definition is_ascii :: "string \<Rightarrow> bool" where
  "is_ascii s \<longleftrightarrow> (\<forall>c \<in> set s. (of_char c :: nat) < 128)"

definition witness_texts :: "WitnessStatus \<Rightarrow> string list" where
  "witness_texts w = [ws_Identity w, ws_IP w, ws_IDAttestPublicKey w, ws_AttestedID w, ws_AttestedBastionID w]"

definition status_texts :: "Status \<Rightarrow> string list" where
  "status_texts s = [st_Serial s, st_Revision s, st_Build s, st_Version s, st_Runtime s, st_SRKHash s, st_MAC s]
     @ (case st_Witness s of None \<Rightarrow> [] | Some w \<Rightarrow> witness_texts w)"

locale api_wire =
  fixes K :: api_codec
  assumes response_law: "dec_Response K (enc_Response K r) = Ok r"
    and status_law: "\<forall>t \<in> set (status_texts s). is_ascii t \<Longrightarrow> dec_Status K (enc_Status K s) = Ok s"
    and log_request_law: "dec_LogRequest K (enc_LogRequest K q) = Ok q"
    and log_response_law: "dec_LogResponse K (enc_LogResponse K m) = Ok m"

text \<open>\<open>err.Error()\<close>: the text of an error, here up to the details of formatting.\<close>

fun error_text :: "error \<Rightarrow> string" where
  "error_text (ErrorsNew m) = m"
| "error_text (Errorf m e) = m @ '': '' @ error_text e"
| "error_text (OperationError c) = ''operation failed''"
| "error_text EOF = ''EOF''"
| "error_text (External m) = m"

definition ErrorResponse :: "api_codec \<Rightarrow> error \<Rightarrow> bytes" where
  "ErrorResponse K err =
     enc_Response K \<lparr>rsp_Error = GENERIC_ERROR, rsp_Payload = bytes_of_string (error_text err)\<rparr>"

text \<open>The cached encoding of the empty response; caching does not change what is returned.\<close>

definition EmptyResponse :: "api_codec \<Rightarrow> bytes" where
  "EmptyResponse K = enc_Response K \<lparr>rsp_Error = NONE, rsp_Payload = []\<rparr>"

definition Configuration_Bytes :: "api_codec \<Rightarrow> Configuration \<Rightarrow> bytes" where
  "Configuration_Bytes K c = enc_Configuration K c"

definition Response_Bytes :: "api_codec \<Rightarrow> Response \<Rightarrow> bytes" where
  "Response_Bytes K r = enc_Response K r"

section \<open>The status report\<close>

definition show_bool :: "bool \<Rightarrow> string" where
  "show_bool b = (if b then ''true'' else ''false'')"

fun show_nat :: "nat \<Rightarrow> string" where
  "show_nat n = (if n < 10 then [char_of (n + 48)] else show_nat (n div 10) @ [char_of (n mod 10 + 48)])"

declare show_nat.simps [simp del]

definition newline :: string where "newline = [CHR 0x0a]"

definition status_rule :: string where
  "status_rule = ''----------------------------------------------------------- Trusted OS ----''"

definition Status_Print :: "Status \<Rightarrow> string" where
  "Status_Print p =
     status_rule @ newline
     @ ''Serial number ..............: '' @ st_Serial p @ newline
     @ ''Secure Boot ................: '' @ show_bool (st_HAB p) @ newline
     @ ''SRK hash ...................: '' @ st_SRKHash p @ newline
     @ ''Revision ...................: '' @ st_Revision p @ newline
     @ ''Version ....................: '' @ st_Version p @ newline
     @ ''Runtime ....................: '' @ st_Runtime p @ newline
     @ ''Link .......................: '' @ show_bool (st_Link p) @ newline
     @ ''MAC ........................: '' @ st_MAC p @ newline
     @ ''IdentityCounter ............: '' @ show_nat (unat (st_IdentityCounter p)) @ newline
     @ (case st_Witness p of
          Some w \<Rightarrow>
            ''Witness/Identity ...........: '' @ ws_Identity w @ newline
            @ ''Witness/IP .................: '' @ ws_IP w @ newline
            @ ''Witness/AttestationKey .....: '' @ ws_IDAttestPublicKey w @ newline
            @ ''Witness/AttestedIdentity ...: [below]'' @ newline @ newline @ ws_AttestedID w @ newline
            @ ''Witness/AttestedBastionID ..: [below]'' @ newline @ newline @ ws_AttestedBastionID w @ newline
        | None \<Rightarrow> ''Witness ....................: <no status>'' @ newline)
     @ status_rule"

section \<open>RPC arguments\<close>

record Handler =
  h_G :: "32 word"
  h_P :: "32 word"

record LEDStatus =
  led_Name :: string
  led_On :: bool

record rpc_WitnessStatus =
  rw_Identity :: string
  rw_IP :: string
  rw_IDAttestPublicKey :: string
  rw_AttestedID :: string
  rw_AttestedBastionID :: string

record WriteBlocksArg =
  wb_LBA :: int
  wb_Data :: bytes

record ReadArg =
  rd_Offset :: int
  rd_Size :: int

record 'v InstalledVersions =
  iv_OS :: 'v
  iv_Applet :: 'v

end
