(* ===== verification/Os.thy ===== *)
theory Os
  imports Flash Rollback Hab Memory_Map Api
begin

text \<open>
  The state of the running Trusted OS: the package variables of \<open>src/trusted_os\<close>, the RPC
  receiver and the applet's execution context, on top of the storage state of \<open>Flash\<close>; and the
  record \<open>board\<close> of everything the OS calls outside this repository (SoC drivers, board
  support, the GoTEE monitor), as far as the modelled code uses it. Hardware actions without a
  result are recorded in \<open>events\<close> in the order they happen.
\<close>

section \<open>State\<close>

text \<open>The registers and mode bits of \<open>monitor.ExecCtx\<close> that the OS touches; \<open>A0\<close> and
  \<open>A1\<close> are the system call number and its argument.\<close>

record ExecCtx =
  ExceptionVector :: int
  ctx_A0 :: "32 word"
  ctx_A1 :: "32 word"
  ctx_R0 :: "32 word"
  ctx_R1 :: "32 word"
  ctx_R2 :: "32 word"
  ctx_R3 :: "32 word"
  ctx_R13 :: "32 word"
  ctx_R14 :: "32 word"
  ctx_R15 :: "32 word"
  SPSR :: "32 word"
  ctx_mem :: "nat \<Rightarrow> byte"

text \<open>The functions stored in \<open>irqHandler\<close>, and the values of \<open>wHandler\<close>.\<close>

datatype irq_action = ServiceWatchdog | ReceiveLAN | ServiceUSB | ServiceControl

datatype wake_handler = wakeHandlerPreGo123 | wakeHandlerGo123 | wakeHandlerGo124 | wakeHandlerGo125

text \<open>The two USB ports the OS drives, by the variable that holds them.\<close>

datatype port_name = Control_port | USB_port

datatype os_event =
    CtxStop
  | CtxWait
  | BoardReset
  | SetMAC bytes
  | ClearRXF
  | WatchdogService nat
  | WatchdogEnable nat nat
  | GICEnable int
  | GICFIQEn bool
  | EnableInterrupts
  | ENETEnableInterrupt string
  | ENETStart bool
  | ConfigureNetDevice string
  | USBInit
  | ServiceInterrupts string
  | ConfigureMMU nat nat
  | DeviceMode port_name
  | EnableUSBInterrupt port_name string
  | Wake wake_handler "32 word" "32 word"

record ('w, 'v) os = "'w flash_state" +
  rpmb_is_usdhc :: bool
  rpmb_partition :: "RPMB option"
  rpc_Cfg :: bytes
  rpc_Ctx :: bool
  ectx :: ExecCtx
  rxQueue :: "bytes list option"
  txQueue :: "bytes list option"
  lan_ring :: "bytes list"
  lan_sent :: "bytes list"
  stdout_buf :: bytes
  irqHandler :: "int \<Rightarrow> irq_action option"
  appletHandlerG :: "32 word"
  appletHandlerP :: "32 word"
  wHandler :: "wake_handler option"
  osFirmwareBuffer :: bytes
  appletFirmwareBuffer :: bytes
  witnessStatus :: "rpc_WitnessStatus option"
  osVersion :: 'v
  loadedAppletVersion :: 'v
  events :: "os_event list"

section \<open>The outside\<close>

text \<open>\<open>LAN\<close> and \<open>USB\<close> are the package variables being set; \<open>FrontPortMode\<close> tells whether
  the front port is attached as a source, and its error; \<open>NIC_Init\<close> is the result of initialising the
  USB network interface with the host's and the device's address.\<close>

record ('w, 'v) board =
  Native :: bool
  debug :: bool
  SNVS_Available :: "'w \<Rightarrow> bool"
  LAN :: bool
  USB :: bool
  mem_layout :: mem_map
  key_hardware :: "'w key_hw"
  fuse_box :: "'w otp"
  rpmb_driver :: "'w rpmb_hw"
  Storage :: "'w Card option"
  boot_config :: boot_codec
  semvers :: "'v semver"
  AppletBundle_Verify :: "Bundle \<Rightarrow> unit res"
  OSBundle_Verify :: "Bundle \<Rightarrow> unit res"
  SwitchEndianness :: "bytes \<Rightarrow> bytes"
  board_LED :: "string \<Rightarrow> bool \<Rightarrow> ('w, unit) io"
  Stdout_Write :: "bytes \<Rightarrow> ('w, unit) io"
  SetARMFreq :: "32 word \<Rightarrow> ('w, unit) io"
  GetInterrupt :: "('w, int) io"
  TransferRegion :: "ExecCtx \<Rightarrow> (nat \<times> nat) res"
  Memory_Write :: "ExecCtx \<Rightarrow> nat \<Rightarrow> bytes \<Rightarrow> ExecCtx"
  Memory_Read :: "ExecCtx \<Rightarrow> nat \<Rightarrow> nat \<Rightarrow> bytes"
  Ret :: "ExecCtx \<Rightarrow> nat \<Rightarrow> ExecCtx"
  saved_Mode :: "ExecCtx \<Rightarrow> 32 word"
  bits_Set :: "32 word \<Rightarrow> nat \<Rightarrow> 32 word"
  bits_Clear :: "32 word \<Rightarrow> nat \<Rightarrow> 32 word"
  arm_FIQ :: int
  arm_SUPERVISOR :: int
  arm_USR_MODE :: "32 word"
  SYS_WRITE :: "32 word"
  LAN_IRQ :: int
  USB_IRQ :: int
  WDOG2_IRQ :: int
  SecureHandler :: "(('w, 'v) os, unit) io"
  ELF_Load :: "bytes \<Rightarrow> ('w, 32 word) io"
  Monitor_Load :: "32 word \<Rightarrow> ('w, ExecCtx) io"
  applet_end :: "32 word"
  Ctx_Run :: "(('w, 'v) os, unit) io"
  PHY_Register :: "nat \<Rightarrow> 'w \<Rightarrow> 16 word"
  LAN_MAC :: "'w \<Rightarrow> string"
  FrontPortMode :: "'w \<Rightarrow> bool \<times> error option"
  NIC_Init :: "bytes \<Rightarrow> bytes \<Rightarrow> unit res"
  runtime_text :: string

section \<open>Shared steps\<close>

type_synonym ('w, 'v, 'a) osio = "(('w, 'v) os, 'a) io"

definition emit :: "os_event \<Rightarrow> ('w, 'v, unit) osio" where
  "emit e = modifyS (\<lambda>s. s\<lparr>events := events s @ [e]\<rparr>)"

text \<open>The methods of the RPC receiver's \<open>RPMB\<close> act on the receiver's part of the state.\<close>

definition onRPMB :: "('w rb_state, 'a) io \<Rightarrow> ('w, 'v, 'a) osio" where
  "onRPMB m = zoomS
     (\<lambda>s. \<lparr>rb_dev = world s, is_usdhc = rpmb_is_usdhc s, partition = rpmb_partition s\<rparr>)
     (\<lambda>r s. s\<lparr>world := rb_dev r, rpmb_partition := partition r\<rparr>) m"

text \<open>The OS state as the rollback protection sees it.\<close>

definition rb_of :: "('w, 'v) os \<Rightarrow> 'w rb_state" where
  "rb_of s = \<lparr>rb_dev = world s, is_usdhc = rpmb_is_usdhc s, partition = rpmb_partition s\<rparr>"

definition onCtx :: "(ExecCtx \<Rightarrow> ExecCtx) \<Rightarrow> ('w, 'v, unit) osio" where
  "onCtx f = modifyS (\<lambda>s. s\<lparr>ectx := f (ectx s)\<rparr>)"

lemma emit_apply [simp, io_simps]: "emit e s = (Ok (), s\<lparr>events := events s @ [e]\<rparr>)"
  by (simp add: emit_def)

lemma onCtx_apply [simp, io_simps]: "onCtx f s = (Ok (), s\<lparr>ectx := f (ectx s)\<rparr>)"
  by (simp add: onCtx_def)

lemma onRPMB_apply [io_simps]:
  "onRPMB m s = (case m \<lparr>rb_dev = world s, is_usdhc = rpmb_is_usdhc s, partition = rpmb_partition s\<rparr> of
     (r, t) \<Rightarrow> (r, s\<lparr>world := rb_dev t, rpmb_partition := partition t\<rparr>))"
  by (simp add: onRPMB_def zoomS_apply)

declare onWorld_apply [io_simps]

lemma leaves_onWorld [keeps_rules]:
  "(\<And>s w. f (s\<lparr>world := w\<rparr>) = f s) \<Longrightarrow> leaves f (onWorld m)"
  by (auto simp: leaves_def onWorld_apply split: prod.splits)

lemma leaves_liftRes [keeps_rules]: "leaves f (liftRes r)"
  by (simp add: leaves_def)

lemma leaves_emit [keeps_rules]: "(\<And>s t. f (s\<lparr>events := t\<rparr>) = f s) \<Longrightarrow> leaves f (emit e)"
  by (simp add: leaves_def)

end
