(* ===== verification/Fake_Card.thy ===== *)
theory Fake_Card
  imports Card
begin

text \<open>
  The in-memory storage of emulated runs (\<open>src/trusted_os/storage_debug.go\<close>): a map from
  block numbers to 512-byte blocks. The lemmas show that it meets the contracts of \<open>Card\<close>:
  reads return the image, writes change exactly the written blocks.
\<close>

section \<open>Definitions\<close>

definition fakeCardBlockSize :: int where "fakeCardBlockSize = 512"

definition fakeCardNumBlocks :: int where
  "fakeCardNumBlocks = push_bit 30 4 div fakeCardBlockSize"

record fakeCard =
  info :: CardInfo
  mem :: "int \<Rightarrow> bytes option"

definition newFakeCard :: "int \<Rightarrow> fakeCard" where
  "newFakeCard numBlocks = \<lparr>info = \<lparr>MMC = False, BlockSize = fakeCardBlockSize, Blocks = numBlocks\<rparr>,
     mem = Map.empty\<rparr>"

text \<open>Sums of \<open>int64\<close> values wrap.\<close>

definition int64 :: "int \<Rightarrow> int" where
  "int64 x = sint (word_of_int x :: 64 word)"

text \<open>The loop of \<open>Read\<close>: \<open>copy(r[i*fakeCardBlockSize:], fc.mem[base+i])\<close>; a block that was
  never written is a nil slice and copies nothing.\<close>

function fake_read_loop :: "(int \<Rightarrow> bytes option) \<Rightarrow> int \<Rightarrow> nat \<Rightarrow> int \<Rightarrow> bytes \<Rightarrow> bytes" where
  "fake_read_loop m base i rem r =
     (if 0 < rem
      then fake_read_loop m base (i + 1) (rem - 512)
             (take (i * 512) r @ go_copy (drop (i * 512) r)
                (case m (base + int i) of None \<Rightarrow> [] | Some b \<Rightarrow> b))
      else r)"
  by pat_completeness auto
termination by (relation "measure (\<lambda>(m, base, i, rem, r). nat rem)") auto

declare fake_read_loop.simps [simp del]

definition fake_Read :: "int \<Rightarrow> int \<Rightarrow> (fakeCard, bytes) io" where
  "fake_Read offset len fc =
     (let l = fakeCardNumBlocks * fakeCardBlockSize in
      if l \<le> offset then (Err (ErrorsNew ''offset past end of storage''), fc)
      else
        let len' = (if l < int64 (offset + len) then l - offset else len) in
        if go_rem offset fakeCardBlockSize \<noteq> 0 then (Halt ''non sector-aligned read'', fc)
        else if len' < 0 then (Halt ''makeslice: len out of range'', fc)
        else (Ok (fake_read_loop (mem fc) (go_div offset fakeCardBlockSize) 0 len'
                (zeros (nat len'))), fc))"

text \<open>The loop of \<open>WriteBlocks\<close>: a fresh zeroed block per 512 bytes of input.\<close>

function fake_write_loop ::
  "(int \<Rightarrow> bytes option) \<Rightarrow> int \<Rightarrow> nat \<Rightarrow> int \<Rightarrow> bytes \<Rightarrow> (int \<Rightarrow> bytes option)" where
  "fake_write_loop m lba i rem b =
     (if 0 < rem
      then fake_write_loop (m(lba + int i \<mapsto> go_copy (zeros 512) (drop (i * 512) b)))
             lba (i + 1) (rem - 512) b
      else m)"
  by pat_completeness auto
termination by (relation "measure (\<lambda>(m, lba, i, rem, b). nat rem)") auto

declare fake_write_loop.simps [simp del]

definition fake_WriteBlocks :: "int \<Rightarrow> bytes \<Rightarrow> (fakeCard, unit) io" where
  "fake_WriteBlocks lba b fc =
     (if fakeCardNumBlocks \<le> lba then (Err (ErrorsNew ''lba >= device blocks''), fc)
      else
        let r = int (length b) mod fakeCardBlockSize;
            b' = (if r \<noteq> 0 then b @ zeros (nat (fakeCardBlockSize - r)) else b)
        in (Ok (), fc\<lparr>mem := fake_write_loop (mem fc) lba 0 (int (length b')) b'\<rparr>))"

definition fake_Info :: "fakeCard \<Rightarrow> CardInfo" where
  "fake_Info fc = info fc"

definition fake_Detect :: "(fakeCard, unit) io" where
  "fake_Detect = retS ()"

text \<open>The methods of \<open>*fakeCard\<close> as a \<open>Card\<close>.\<close>

definition fake_ops :: "fakeCard Card" where
  "fake_ops = \<lparr>card_Read = fake_Read, card_WriteBlocks = fake_WriteBlocks,
     card_Info = fake_Info, card_Detect = fake_Detect\<rparr>"

section \<open>The image of a fake card\<close>

text \<open>Every stored block is a whole block.\<close>

definition fake_inv :: "fakeCard \<Rightarrow> bool" where
  "fake_inv fc \<longleftrightarrow> BlockSize (info fc) = 512 \<and> (\<forall>k b. mem fc k = Some b \<longrightarrow> length b = 512)"

definition blocks_img :: "(int \<Rightarrow> bytes option) \<Rightarrow> image" where
  "blocks_img m = (\<lambda>x. case m (x div 512) of None \<Rightarrow> 0 | Some b \<Rightarrow> b ! nat (x mod 512))"

definition fake_img :: "fakeCard \<Rightarrow> image" where
  "fake_img fc = blocks_img (mem fc)"

lemma fakeCardNumBlocks_eq [simp]: "fakeCardNumBlocks = 8388608"
  by (simp add: fakeCardNumBlocks_def fakeCardBlockSize_def push_bit_eq_mult)

lemma int64_id: "- (2 ^ 63) \<le> x \<Longrightarrow> x < 2 ^ 63 \<Longrightarrow> int64 x = x"
  by (simp add: int64_def signed_of_int signed_take_bit_int_eq_self)

lemma fake_inv_new [simp]: "fake_inv (newFakeCard n)"
  by (simp add: fake_inv_def newFakeCard_def fakeCardBlockSize_def)

lemma blocks_img_upd:
  assumes "length b = 512"
  shows "blocks_img (m(k \<mapsto> b)) = put_bytes (blocks_img m) (k * 512) b"
proof
  fix x :: int
  show "blocks_img (m(k \<mapsto> b)) x = put_bytes (blocks_img m) (k * 512) b x"
    using assms block_div_iff [of x k] block_mod [of k x]
    by (simp add: blocks_img_def put_bytes_def)
qed

lemma fake_write_loop_step:
  assumes "0 < rem"
  shows "fake_write_loop m lba i rem b =
    fake_write_loop (m(lba + int i \<mapsto> go_copy (zeros 512) (drop (i * 512) b))) lba (i + 1) (rem - 512) b"
  using assms by (simp add: fake_write_loop.simps [of m lba i rem b])

lemma fake_write_loop_stop: "rem \<le> 0 \<Longrightarrow> fake_write_loop m lba i rem b = m"
  by (simp add: fake_write_loop.simps)

lemma fake_write_loop_img:
  assumes "length b = (i + n) * 512"
  shows "blocks_img (fake_write_loop m lba i (int n * 512) b)
    = put_bytes (blocks_img m) ((lba + int i) * 512) (drop (i * 512) b)"
  using assms
proof (induction n arbitrary: m i)
  case 0
  then show ?case by (simp add: fake_write_loop_stop)
next
  case (Suc n)
  let ?c = "take 512 (drop (i * 512) b)"
  let ?m = "m(lba + int i \<mapsto> ?c)"
  have lenc: "length ?c = 512" using Suc.prems by simp
  have blk: "go_copy (zeros 512) (drop (i * 512) b) = ?c"
    using Suc.prems by (simp add: go_copy_shorter)
  have IH: "blocks_img (fake_write_loop ?m lba (i + 1) (int n * 512) b)
      = put_bytes (blocks_img ?m) ((lba + int (i + 1)) * 512) (drop ((i + 1) * 512) b)"
    using Suc.prems by (intro Suc.IH) simp
  have "fake_write_loop m lba i (int (Suc n) * 512) b
      = fake_write_loop ?m lba (i + 1) (int n * 512) b"
    using fake_write_loop_step [of "int (Suc n) * 512" m lba i b]
    unfolding blk by (simp add: algebra_simps)
  then have "blocks_img (fake_write_loop m lba i (int (Suc n) * 512) b)
      = put_bytes (put_bytes (blocks_img m) ((lba + int i) * 512) ?c)
        ((lba + int i) * 512 + int (length ?c)) (drop 512 (drop (i * 512) b))"
    using IH lenc by (simp add: blocks_img_upd algebra_simps)
  also have "\<dots> = put_bytes (blocks_img m) ((lba + int i) * 512) (?c @ drop 512 (drop (i * 512) b))"
    by (rule put_bytes_append)
  finally show ?case by (simp only: append_take_drop_id)
qed

lemma fake_write_loop_blocks:
  assumes "\<And>k b. m k = Some b \<Longrightarrow> length b = 512"
  shows "fake_write_loop m lba i rem data k = Some b \<Longrightarrow> length b = 512"
  using assms
proof (induction m lba i rem data rule: fake_write_loop.induct)
  case (1 m lba i rem data)
  show ?case
  proof (cases "0 < rem")
    case True
    with "1.prems"(1) have
      "fake_write_loop (m(lba + int i \<mapsto> go_copy (zeros 512) (drop (i * 512) data)))
         lba (i + 1) (rem - 512) data k = Some b"
      by (simp only: fake_write_loop_step)
    then show ?thesis
      by (rule "1.IH" [OF True]) (auto dest: "1.prems"(2) split: if_splits)
  next
    case False
    with "1.prems" show ?thesis by (simp add: fake_write_loop_stop)
  qed
qed

lemma fake_read_loop_nth:
  assumes "\<And>k b. m k = Some b \<Longrightarrow> length b = 512"
    and "int (length r) \<le> int i * 512 + rem" and "\<And>j. i * 512 \<le> j \<Longrightarrow> j < length r \<Longrightarrow> r ! j = 0"
  shows "length (fake_read_loop m base i rem r) = length r \<and>
    (\<forall>j < length r. fake_read_loop m base i rem r ! j =
      (if i * 512 \<le> j then blocks_img m (base * 512 + int j) else r ! j))"
  using assms
proof (induction m base i rem r rule: fake_read_loop.induct)
  case (1 m base i rem r)
  show ?case
  proof (cases "0 < rem")
    case True
    let ?blk = "case m (base + int i) of None \<Rightarrow> [] | Some b \<Rightarrow> b"
    let ?r = "take (i * 512) r @ go_copy (drop (i * 512) r) ?blk"
    have len: "length ?r = length r" by simp
    have img: "blocks_img m (base * 512 + int j) = (if ?blk = [] then 0 else ?blk ! (j - i * 512))"
      if "i * 512 \<le> j" "j < (i + 1) * 512" for j
    proof -
      have "(base * 512 + int j) div 512 = base + int i"
        "nat ((base * 512 + int j) mod 512) = j - i * 512"
        using that block_div_iff [of "base * 512 + int j" "base + int i"]
          block_mod [of "base + int i" "base * 512 + int j"]
        by (simp_all add: algebra_simps)
      then show ?thesis
        using "1.prems"(1) [of "base + int i"] by (auto simp: blocks_img_def split: option.splits)
    qed
    have blk: "?blk = [] \<or> length ?blk = 512"
      using "1.prems"(1) by (auto split: option.splits)
    have nth: "?r ! j = (if i * 512 \<le> j \<and> j < (i + 1) * 512 then blocks_img m (base * 512 + int j)
        else r ! j)" if "j < length r" for j
      using that blk img [of j] "1.prems"(3) [of j]
      by (auto simp: go_copy_def nth_append not_less)
    have "length (fake_read_loop m base (i + 1) (rem - 512) ?r) = length ?r \<and>
      (\<forall>j < length ?r. fake_read_loop m base (i + 1) (rem - 512) ?r ! j =
        (if (i + 1) * 512 \<le> j then blocks_img m (base * 512 + int j) else ?r ! j))"
    proof (rule "1.IH" [OF True])
      show "\<And>k b. m k = Some b \<Longrightarrow> length b = 512" by (rule "1.prems"(1))
      show "int (length ?r) \<le> int (i + 1) * 512 + (rem - 512)" using "1.prems"(2) len by simp
      show "\<And>j. (i + 1) * 512 \<le> j \<Longrightarrow> j < length ?r \<Longrightarrow> ?r ! j = 0"
        using nth "1.prems"(3) len by simp
    qed
    then show ?thesis
      using True nth unfolding len fake_read_loop.simps [of m base i rem r] by simp
  next
    case False
    with "1.prems" show ?thesis by (simp add: fake_read_loop.simps [of m base i rem r])
  qed
qed

lemma fake_read_loop_img:
  assumes "\<And>k b. m k = Some b \<Longrightarrow> length b = 512"
  shows "fake_read_loop m base 0 (int n) (zeros n) = get_bytes (blocks_img m) (base * 512) n"
  using fake_read_loop_nth [of m "zeros n" 0 "int n" base] assms
  by (intro nth_equalityI) (auto simp: zeros_def)

section \<open>The fake card meets the contracts\<close>

lemma fake_write_whole:
  assumes "length data mod 512 = 0"
  shows "blocks_img (fake_write_loop m lba 0 (int (length data)) data)
    = put_bytes (blocks_img m) (lba * 512) data"
proof -
  have n: "length data = (length data div 512) * 512" using assms by (simp add: mod_0_imp_dvd)
  then have "int (length data div 512) * 512 = int (length data)" by (metis of_nat_mult of_nat_numeral)
  moreover have "length data = (0 + length data div 512) * 512" using n by simp
  note fake_write_loop_img [OF this, of m lba]
  ultimately show ?thesis by simp
qed

lemma fake_WriteBlocks_whole:
  assumes "length data mod 512 = 0"
  shows "fake_WriteBlocks lba data fc =
    (if fakeCardNumBlocks \<le> lba then (Err (ErrorsNew ''lba >= device blocks''), fc)
     else (Ok (), fc\<lparr>mem := fake_write_loop (mem fc) lba 0 (int (length data)) data\<rparr>))"
  using whole_blocks(1) [OF assms] by (simp add: fake_WriteBlocks_def fakeCardBlockSize_def)

interpretation fc: block_card fake_ops fake_img fake_inv fakeCardNumBlocks
proof (unfold_locales, goal_cases)
  case (1 w off size r w')
  then show ?case by (auto simp: fake_ops_def fake_Read_def fake_Info_def Let_def split: if_splits)
next
  case (2 w data lba r w')
  then show ?case
    using fake_write_loop_blocks [of "mem w"]
    by (auto simp: fake_ops_def fake_WriteBlocks_whole fake_Info_def fake_inv_def fake_img_def
        fake_write_whole simp del: fakeCardNumBlocks_eq split: if_splits)
next
  case (3 w data lba u w')
  then show ?case
    by (auto simp: fake_ops_def fake_WriteBlocks_whole fake_img_def fake_write_whole
        simp del: fakeCardNumBlocks_eq split: if_splits)
next
  case (4 w)
  then show ?case by (simp add: fake_ops_def fake_Info_def fake_inv_def)
next
  case (5 w off n)
  then have "int64 (off + int n) = off + int n" by (intro int64_id) simp_all
  with 5 show ?case
    using fake_read_loop_img [of "mem w" "off div 512" n] whole_blocks(3) [OF 5(3)]
    by (simp add: fake_ops_def fake_Read_def fake_inv_def fake_img_def fakeCardBlockSize_def)
next
  case (6 w lba data)
  then show ?case by (simp add: fake_ops_def fake_WriteBlocks_whole)
qed

end
