(* ===== verification/Machine.thy ===== *)
theory Machine
  imports Os Fake_Card
begin

text \<open>
  A machine for concrete runs of the OS: the in-memory card, an eMMC replay protected block that
  follows the standard, and a fuse array, with the OS's other surroundings reduced to functions
  of the state. The properties of the components above this theory hold for every \<open>board\<close>;
  this one shows that their hypotheses can be met.
\<close>

record machine =
  m_card :: fakeCard
  m_emmc :: emmc
  m_fuses :: fuses

definition on_card :: "(fakeCard, 'a) io \<Rightarrow> (machine, 'a) io" where
  "on_card = zoomS m_card (\<lambda>c m. m\<lparr>m_card := c\<rparr>)"

definition on_emmc :: "(emmc, 'a) io \<Rightarrow> (machine, 'a) io" where
  "on_emmc = zoomS m_emmc (\<lambda>c m. m\<lparr>m_emmc := c\<rparr>)"

definition on_fuses :: "(fuses, 'a) io \<Rightarrow> (machine, 'a) io" where
  "on_fuses = zoomS m_fuses (\<lambda>c m. m\<lparr>m_fuses := c\<rparr>)"

definition machine_card :: "machine Card" where
  "machine_card = \<lparr>card_Read = (\<lambda>off n. on_card (fake_Read off n)),
     card_WriteBlocks = (\<lambda>lba b. on_card (fake_WriteBlocks lba b)),
     card_Info = (\<lambda>m. fake_Info (m_card m)), card_Detect = on_card fake_Detect\<rparr>"

definition machine_rpmb :: "machine rpmb_hw" where
  "machine_rpmb = \<lparr>hw_MMC = (\<lambda>m. hw_MMC emmc_hw (m_emmc m)),
     hw_WriteRPMB = (\<lambda>b r. on_emmc (hw_WriteRPMB emmc_hw b r)),
     hw_ReadRPMB = (\<lambda>n. on_emmc (hw_ReadRPMB emmc_hw n)), hw_rand = (\<lambda>n. on_emmc (hw_rand emmc_hw n))\<rparr>"

definition machine_otp :: "machine otp" where
  "machine_otp = \<lparr>ReadOCOTP = (\<lambda>b w p n. on_fuses (ReadOCOTP fuse_array b w p n)),
     BlowOCOTP = (\<lambda>b w p n v. on_fuses (BlowOCOTP fuse_array b w p n v))\<rparr>"

text \<open>The card of the machine meets the storage contract.\<close>

interpretation mc: block_card machine_card "\<lambda>m. fake_img (m_card m)" "\<lambda>m. fake_inv (m_card m)" fakeCardNumBlocks
proof (unfold_locales, goal_cases)
  case (1 w off len r w')
  then show ?case
    using fc.read_frame_law [of "m_card w" off len]
    by (auto simp: machine_card_def on_card_def zoomS_apply fake_ops_def split: prod.splits)
next
  case (2 w data lba q w')
  then show ?case
    using fc.write_frame_law [of "m_card w" data lba]
    by (auto simp: machine_card_def on_card_def zoomS_apply fake_ops_def split: prod.splits)
next
  case (3 w data lba u w')
  then show ?case
    using fc.write_done_law [of "m_card w" data lba]
    by (auto simp: machine_card_def on_card_def zoomS_apply fake_ops_def split: prod.splits)
next
  case (4 w)
  then show ?case using fc.block_size [of "m_card w"] by (simp add: machine_card_def fake_ops_def)
next
  case (5 w off n)
  then show ?case
    using fc.read_law [of "m_card w" off n]
    by (auto simp: machine_card_def on_card_def zoomS_apply fake_ops_def split: prod.splits)
next
  case (6 w lba data)
  then show ?case
    using fc.write_law [of "m_card w" lba data]
    by (auto simp: machine_card_def on_card_def zoomS_apply fake_ops_def split: prod.splits)
qed

text \<open>So do its replay protected block and its fuses.\<close>

lemmas machine_rpmb_simps = machine_rpmb_def on_emmc_def zoomS_apply

interpretation mr: rpmb_device machine_rpmb "\<lambda>m. e_key (m_emmc m)" "\<lambda>m. e_counter (m_emmc m)"
  "\<lambda>m. emmc_sector (m_emmc m)"
proof (unfold_locales, goal_cases)
  case (1 w a)
  show ?case by (rule ref_dev.sector_len)
next
  case (2 n w)
  show ?case using ref_dev.rand [of n "m_emmc w"] by (auto simp: machine_rpmb_simps)
next
  case (3 f w k)
  from ref_dev.counter_read [OF 3] obtain w1 w2 r where
    "hw_WriteRPMB emmc_hw (Bytes f) False (m_emmc w) = (Ok (), w1)"
    "hw_ReadRPMB emmc_hw FrameLength w1 = (Ok (Bytes r), w2)"
    "frame_ok r" "authentic k r" "Resp r = WriteCounterRead" "Nonce r = Nonce f"
    "frame_Counter r = e_counter (m_emmc w)" "be16 (Result r) = OperationOK"
    "e_key w2 = e_key (m_emmc w)" "e_counter w2 = e_counter (m_emmc w)" "emmc_sector w2 = emmc_sector (m_emmc w)"
    by blast
  then show ?case
    by (intro exI [of _ "w\<lparr>m_emmc := w1\<rparr>"] exI [of _ "w\<lparr>m_emmc := w2\<rparr>"] exI [of _ r])
      (simp add: machine_rpmb_simps)
next
  case (4 f w)
  from ref_dev.counter_read_blank [OF 4] obtain w1 w2 r where
    "hw_WriteRPMB emmc_hw (Bytes f) False (m_emmc w) = (Ok (), w1)"
    "hw_ReadRPMB emmc_hw FrameLength w1 = (Ok (Bytes r), w2)"
    "frame_ok r" "Resp r = WriteCounterRead" "Nonce r = Nonce f"
    "be16 (Result r) = AuthenticationKeyNotYetProgrammed"
    "e_key w2 = e_key (m_emmc w)" "e_counter w2 = e_counter (m_emmc w)" "emmc_sector w2 = emmc_sector (m_emmc w)"
    by blast
  then show ?case
    by (intro exI [of _ "w\<lparr>m_emmc := w1\<rparr>"] exI [of _ "w\<lparr>m_emmc := w2\<rparr>"] exI [of _ r])
      (simp add: machine_rpmb_simps)
next
  case (5 f w)
  from ref_dev.key_program [OF 5] obtain w1 w2 w3 r where
    "hw_WriteRPMB emmc_hw (Bytes f) True (m_emmc w) = (Ok (), w1)"
    "hw_WriteRPMB emmc_hw (Bytes (zero_frame\<lparr>Req := ResultReadRequest\<rparr>)) False w1 = (Ok (), w2)"
    "hw_ReadRPMB emmc_hw FrameLength w2 = (Ok (Bytes r), w3)"
    "frame_ok r" "Resp r = AuthenticationKeyProgramming" "Nonce r = zeros 16" "be16 (Result r) = OperationOK"
    "e_key w3 = Some (KeyMAC f)" "e_counter w3 = e_counter (m_emmc w)" "emmc_sector w3 = emmc_sector (m_emmc w)"
    by blast
  then show ?case
    by (intro exI [of _ "w\<lparr>m_emmc := w1\<rparr>"] exI [of _ "w\<lparr>m_emmc := w2\<rparr>"] exI [of _ "w\<lparr>m_emmc := w3\<rparr>"] exI [of _ r])
      (simp add: machine_rpmb_simps)
next
  case (6 f w k)
  from ref_dev.data_write [OF 6] obtain w1 w2 w3 r where
    "hw_WriteRPMB emmc_hw (Bytes f) True (m_emmc w) = (Ok (), w1)"
    "hw_WriteRPMB emmc_hw (Bytes (zero_frame\<lparr>Req := ResultReadRequest\<rparr>)) False w1 = (Ok (), w2)"
    "hw_ReadRPMB emmc_hw FrameLength w2 = (Ok (Bytes r), w3)"
    "frame_ok r" "authentic k r" "Resp r = AuthenticatedDataWrite" "Nonce r = zeros 16"
    "frame_Counter r = e_counter (m_emmc w) + 1" "be16 (Result r) = OperationOK"
    "e_key w3 = e_key (m_emmc w)" "e_counter w3 = e_counter (m_emmc w) + 1"
    "emmc_sector w3 = (emmc_sector (m_emmc w))(be16 (Address f) := Data f)"
    by blast
  then show ?case
    by (intro exI [of _ "w\<lparr>m_emmc := w1\<rparr>"] exI [of _ "w\<lparr>m_emmc := w2\<rparr>"] exI [of _ "w\<lparr>m_emmc := w3\<rparr>"] exI [of _ r])
      (simp add: machine_rpmb_simps)
next
  case (7 f w k)
  from ref_dev.data_read [OF 7] obtain w1 w2 r where
    "hw_WriteRPMB emmc_hw (Bytes f) False (m_emmc w) = (Ok (), w1)"
    "hw_ReadRPMB emmc_hw FrameLength w1 = (Ok (Bytes r), w2)"
    "frame_ok r" "authentic k r" "Resp r = AuthenticatedDataRead" "Nonce r = Nonce f"
    "Data r = emmc_sector (m_emmc w) (be16 (Address f))" "be16 (Result r) = OperationOK"
    "e_key w2 = e_key (m_emmc w)" "e_counter w2 = e_counter (m_emmc w)" "emmc_sector w2 = emmc_sector (m_emmc w)"
    by blast
  then show ?case
    by (intro exI [of _ "w\<lparr>m_emmc := w1\<rparr>"] exI [of _ "w\<lparr>m_emmc := w2\<rparr>"] exI [of _ r])
      (simp add: machine_rpmb_simps)
qed

interpretation mrb: rollback_device machine_rpmb "\<lambda>m. e_key (m_emmc m)" "\<lambda>m. e_counter (m_emmc m)"
  "\<lambda>m. emmc_sector (m_emmc m)" tiny_semver
  by unfold_locales

interpretation mf: otp_working machine_otp "\<lambda>m. fuse_field (m_fuses m)"
proof (unfold_locales, goal_cases)
  case (1 b w p n st r st')
  then show ?case
    using ocotp.read_law [of b w p n "m_fuses st"]
    by (auto simp: machine_otp_def on_fuses_def zoomS_apply split: prod.splits)
next
  case (2 b w p n val st q st' b' w' p' n')
  then show ?case
    using ocotp.blow_law [of b w p n val "m_fuses st"]
    by (auto simp: machine_otp_def on_fuses_def zoomS_apply split: prod.splits)
next
  case (3 b w p n st)
  then show ?case
    using ocotp.read_total [of b w p n "m_fuses st"]
    by (auto simp: machine_otp_def on_fuses_def zoomS_apply)
next
  case (4 w p n val st b)
  then show ?case
    using ocotp.blow_total [of w p n val "m_fuses st" b]
    by (auto simp: machine_otp_def on_fuses_def zoomS_apply)
qed

definition demo_ctx :: ExecCtx where
  "demo_ctx = \<lparr>ExceptionVector = 8, ctx_A0 = 0, ctx_A1 = 0, ctx_R0 = 0, ctx_R1 = 0, ctx_R2 = 0, ctx_R3 = 0,
     ctx_R13 = 0, ctx_R14 = 0, ctx_R15 = 0, SPSR = 0x10, ctx_mem = (\<lambda>_. 0)\<rparr>"

text \<open>A boot configuration codec that knows the configurations of one small image.\<close>

definition tiny_pb :: ProofBundle where
  "tiny_pb = \<lparr>pb_Checkpoint = [1], pb_Manifest = [2], pb_LogIndex = 7, pb_InclusionProof = [[3]]\<rparr>"

definition tiny_boot_codec :: boot_codec where
  "tiny_boot_codec = \<lparr>MaxLength = 40960,
     cfg_Encode = (\<lambda>c. if cfg_Size c < 256 then Ok [word_of_int (cfg_Size c)] else Err EOF),
     cfg_Decode = (\<lambda>b. Ok \<lparr>cfg_Size = uint (hd b), cfg_Offset = taBlockA * 512, cfg_Bundle = tiny_pb\<rparr>)\<rparr>"

definition demo_board :: "(machine, nat \<times> nat \<times> nat) board" where
  "demo_board = \<lparr>Native = True, debug = False, SNVS_Available = (\<lambda>_. True), LAN = True, USB = False,
     mem_layout = mem_default, key_hardware = demo_keys, fuse_box = machine_otp, rpmb_driver = machine_rpmb,
     Storage = Some machine_card, boot_config = tiny_boot_codec, semvers = tiny_semver,
     AppletBundle_Verify = (\<lambda>b. if fb_Checkpoint b = [1] then Ok () else Err EOF),
     OSBundle_Verify = (\<lambda>b. if fb_Checkpoint b = [1] then Ok () else Err EOF),
     SwitchEndianness = rev,
     board_LED = (\<lambda>n b w. if n \<in> {''white'', ''blue''} then (Ok (), w) else (Err (External ''invalid LED''), w)),
     Stdout_Write = (\<lambda>b w. (Ok (), w)), SetARMFreq = (\<lambda>f w. (Ok (), w)), GetInterrupt = (\<lambda>w. (Ok 42, w)),
     TransferRegion = (\<lambda>c. Ok (unat (ctx_R1 c), unat (ctx_R2 c))),
     Memory_Write = (\<lambda>c off b. c\<lparr>ctx_mem := (\<lambda>x. if off \<le> x \<and> x < off + length b then b ! (x - off) else ctx_mem c x)\<rparr>),
     Memory_Read = (\<lambda>c off n. map (ctx_mem c) [off ..< off + n]),
     Ret = (\<lambda>c n. c\<lparr>ctx_R0 := word_of_nat n\<rparr>),
     saved_Mode = (\<lambda>c. and (SPSR c) 0x1f), bits_Set = (\<lambda>w i. or w (push_bit i 1)),
     bits_Clear = (\<lambda>w i. and w (not (push_bit i 1))), arm_FIQ = 0x1c, arm_SUPERVISOR = 8,
     arm_USR_MODE = 0x10, SYS_WRITE = 4, LAN_IRQ = 152, USB_IRQ = 75, WDOG2_IRQ = 42,
     SecureHandler = retS (), ELF_Load = (\<lambda>b w. (Ok 0x90010000, w)),
     Monitor_Load = (\<lambda>e w. (Ok (demo_ctx\<lparr>ctx_R15 := e\<rparr>), w)), applet_end = 0xa0000000, Ctx_Run = retS (),
     PHY_Register = (\<lambda>_ _. 4), LAN_MAC = (\<lambda>_. ''00:00''), FrontPortMode = (\<lambda>_. (True, None)),
     NIC_Init = (\<lambda>_ _. Ok ()), runtime_text = ''go1.25 tamago/arm''\<rparr>"

definition demo_os :: "(machine, nat \<times> nat \<times> nat) os" where
  "demo_os = \<lparr>world = \<lparr>m_card = newFakeCard fakeCardNumBlocks, m_emmc = demo_emmc, m_fuses = blank_fuses\<rparr>,
     appletLoadedFromBlock = taBlockB, osLoadedFromBlock = osBlockA, rpmb_is_usdhc = True,
     rpmb_partition = Some demo_rpmb, rpc_Cfg = [], rpc_Ctx = True, ectx = demo_ctx, rxQueue = Some [],
     txQueue = None, lan_ring = [], lan_sent = [], stdout_buf = [], irqHandler = [42 \<mapsto> ServiceWatchdog],
     appletHandlerG = 0x90000010, appletHandlerP = 0x90000020, wHandler = Some wakeHandlerGo125,
     osFirmwareBuffer = [], appletFirmwareBuffer = [], witnessStatus = None, osVersion = (1, 0, 0),
     loadedAppletVersion = (0, 0, 0), events = []\<rparr>"

lemma demo_board_simps [simp]:
  "Native demo_board" "\<not> debug demo_board" "SNVS_Available demo_board w" "LAN demo_board" "\<not> USB demo_board"
  "semvers demo_board = tiny_semver" "Storage demo_board = Some machine_card"
  "rpmb_driver demo_board = machine_rpmb" "fuse_box demo_board = machine_otp"
  "mem_layout demo_board = mem_default" "boot_config demo_board = tiny_boot_codec"
  "arm_SUPERVISOR demo_board = 8" "arm_FIQ demo_board = 0x1c" "SYS_WRITE demo_board = 4"
  "SwitchEndianness demo_board = rev" "GetInterrupt demo_board w = (Ok 42, w)"
  "arm_USR_MODE demo_board = 0x10" "saved_Mode demo_board demo_ctx = 0x10" "Ctx_Run demo_board = retS ()"
  by (simp_all add: demo_board_def demo_ctx_def)

lemma demo_os_simps [simp]:
  "rxQueue demo_os = Some []" "ectx demo_os = demo_ctx" "events demo_os = []" "rpc_Cfg demo_os = []"
  "wHandler demo_os = Some wakeHandlerGo125" "m_card (world demo_os) = newFakeCard fakeCardNumBlocks"
  "appletLoadedFromBlock demo_os = taBlockB" "osLoadedFromBlock demo_os = osBlockA" "rpc_Ctx demo_os"
  "rpmb_is_usdhc demo_os" "rpmb_partition demo_os = Some demo_rpmb" "m_emmc (world demo_os) = demo_emmc"
  "irqHandler demo_os = [42 \<mapsto> ServiceWatchdog]"
  "appletFirmwareBuffer demo_os = []" "osFirmwareBuffer demo_os = []"
  by (simp_all add: demo_os_def)

end
