(* ===== verification/Net_Addr.thy ===== *)
theory Net_Addr
  imports Go_Std
begin

text \<open>
  The checks on network addresses that \<open>src/cmd/witnessctl/api.go\<close> makes with Go's package
  \<open>net\<close>: whether \<open>net.ParseIP\<close> accepts a text, and \<open>net.SplitHostPort\<close>; and \<open>net.ParseMAC\<close>, which
  \<open>src/trusted_os/net.go\<close> uses.
\<close>

section \<open>net.ParseIP\<close>

definition digit_value :: "char \<Rightarrow> nat option" where
  "digit_value c = (let n = of_char c in if 48 \<le> n \<and> n \<le> 57 then Some (n - 48) else None)"

text \<open>The fields between the occurrences of a separator.\<close>

fun split_on :: "char \<Rightarrow> string \<Rightarrow> string list" where
  "split_on x [] = [[]]"
| "split_on x (c # cs) =
     (if c = x then [] # split_on x cs
      else case split_on x cs of [] \<Rightarrow> [[c]] | f # fs \<Rightarrow> (c # f) # fs)"

fun decimal :: "nat \<Rightarrow> string \<Rightarrow> nat option" where
  "decimal acc [] = Some acc"
| "decimal acc (c # cs) = (case digit_value c of None \<Rightarrow> None | Some d \<Rightarrow> decimal (10 * acc + d) cs)"

text \<open>A field of a dotted address: digits, no leading zero, at most 255.\<close>

definition ipv4_field :: "string \<Rightarrow> bool" where
  "ipv4_field f \<longleftrightarrow> f \<noteq> [] \<and> (length f = 1 \<or> hd f \<noteq> CHR ''0'')
     \<and> (case decimal 0 f of None \<Rightarrow> False | Some n \<Rightarrow> n \<le> 255)"

definition ipv4_ok :: "string \<Rightarrow> bool" where
  "ipv4_ok s \<longleftrightarrow> length (split_on CHR ''.'' s) = 4 \<and> list_all ipv4_field (split_on CHR ''.'' s)"

definition is_hex :: "char \<Rightarrow> bool" where
  "is_hex c = (let n = (of_char c :: nat) in
     48 \<le> n \<and> n \<le> 57 \<or> 97 \<le> n \<and> n \<le> 102 \<or> 65 \<le> n \<and> n \<le> 70)"

text \<open>The loop over the groups of an IPv6 address: \<open>i\<close> bytes are filled, \<open>ell\<close> tells that
  \<open>::\<close> was seen. At the end all sixteen bytes are filled, or \<open>::\<close> stands for the rest.\<close>

fun ipv6_groups :: "nat \<Rightarrow> bool \<Rightarrow> string \<Rightarrow> bool" where
  "ipv6_groups i ell s =
     (let g = takeWhile is_hex s; r = drop (length g) s in
      if 16 \<le> i \<or> g = [] \<or> 4 < length g then False
      else if r = [] then (if i + 2 < 16 then ell else \<not> ell)
      else if hd r = CHR ''.'' then
        (ell \<or> i = 12) \<and> i + 4 \<le> 16 \<and> ipv4_ok s \<and> (if i + 4 < 16 then ell else \<not> ell)
      else if hd r \<noteq> CHR '':'' \<or> tl r = [] then False
      else if hd (tl r) = CHR '':'' then
        \<not> ell \<and> (if tl (tl r) = [] then i + 2 < 16 else ipv6_groups (i + 2) True (tl (tl r)))
      else ipv6_groups (i + 2) ell (tl r))"

declare ipv6_groups.simps [simp del]

definition ipv6_ok :: "string \<Rightarrow> bool" where
  "ipv6_ok s =
     (case s of
        CHR '':'' # CHR '':'' # r \<Rightarrow> r = [] \<or> ipv6_groups 0 True r
      | _ \<Rightarrow> ipv6_groups 0 False s)"

text \<open>\<open>net.ParseIP(s) != nil\<close>: the first of \<open>.\<close>, \<open>:\<close> and \<open>%\<close> decides the form; an address with a
  zone is refused.\<close>

definition ParseIP_ok :: "string \<Rightarrow> bool" where
  "ParseIP_ok s =
     (case dropWhile (\<lambda>c. c \<notin> {CHR ''.'', CHR '':'', CHR ''%''}) s of
        [] \<Rightarrow> False
      | c # _ \<Rightarrow> if c = CHR ''.'' then ipv4_ok s
                  else if c = CHR '':'' then CHR ''%'' \<notin> set s \<and> ipv6_ok s else False)"

section \<open>net.ParseMAC\<close>

text \<open>Groups of two hexadecimal digits separated by colons or hyphens, or of four separated by dots,
  that make 6, 8 or 20 bytes.\<close>

definition hex_byte :: "string \<Rightarrow> byte" where
  "hex_byte p = (case map hex_val p of [Some h, Some l] \<Rightarrow> word_of_nat (16 * h + l) | _ \<Rightarrow> 0)"

definition hex_group :: "nat \<Rightarrow> string \<Rightarrow> bool" where
  "hex_group n p \<longleftrightarrow> length p = n \<and> list_all (\<lambda>c. hex_val c \<noteq> None) p"

definition ParseMAC :: "string \<Rightarrow> bytes res" where
  "ParseMAC s =
     (if 14 \<le> length s \<and> (s ! 2 = CHR '':'' \<or> s ! 2 = CHR ''-'')
        \<and> length (split_on (s ! 2) s) \<in> {6, 8, 20} \<and> list_all (hex_group 2) (split_on (s ! 2) s)
      then Ok (map hex_byte (split_on (s ! 2) s))
      else if 14 \<le> length s \<and> s ! 2 \<noteq> CHR '':'' \<and> s ! 2 \<noteq> CHR ''-'' \<and> s ! 4 = CHR ''.''
        \<and> length (split_on CHR ''.'' s) \<in> {3, 4, 10} \<and> list_all (hex_group 4) (split_on CHR ''.'' s)
      then Ok (concat (map (\<lambda>g. [hex_byte (take 2 g), hex_byte (drop 2 g)]) (split_on CHR ''.'' s)))
      else Err (External ''invalid MAC address''))"

lemma ParseMAC_length: "ParseMAC s = Ok a \<Longrightarrow> length a \<in> {6, 8, 20}"
proof -
  have "length (concat (map (\<lambda>g. [hex_byte (take 2 g), hex_byte (drop 2 g)]) gs)) = 2 * length gs" for gs
    by (induction gs) simp_all
  then show "ParseMAC s = Ok a \<Longrightarrow> length a \<in> {6, 8, 20}" by (auto simp: ParseMAC_def split: if_splits)
qed

section \<open>net.SplitHostPort\<close>

fun index_of :: "char \<Rightarrow> string \<Rightarrow> nat option" where
  "index_of x [] = None"
| "index_of x (c # cs) = (if c = x then Some 0 else map_option Suc (index_of x cs))"

definition last_index :: "char \<Rightarrow> string \<Rightarrow> nat option" where
  "last_index x s = map_option (\<lambda>k. length s - Suc k) (index_of x (rev s))"

definition addr_error :: "string \<Rightarrow> error" where "addr_error why = External why"

text \<open>The checks shared by both forms: no further brackets, from the positions \<open>j\<close> and \<open>k\<close> on.\<close>

definition split_rest :: "string \<Rightarrow> nat \<Rightarrow> string \<Rightarrow> nat \<Rightarrow> nat \<Rightarrow> (string \<times> string) res" where
  "split_rest s i host j k =
     (if CHR ''['' \<in> set (drop j s) then Err (addr_error ''unexpected opening bracket in address'')
      else if CHR '']'' \<in> set (drop k s) then Err (addr_error ''unexpected closing bracket in address'')
      else Ok (host, drop (Suc i) s))"

definition SplitHostPort :: "string \<Rightarrow> (string \<times> string) res" where
  "SplitHostPort s =
     (case last_index CHR '':'' s of
        None \<Rightarrow> Err (addr_error ''missing port in address'')
      | Some i \<Rightarrow>
          if hd s = CHR ''['' then
            (case index_of CHR '']'' s of
               None \<Rightarrow> Err (addr_error ''missing closing bracket in address'')
             | Some e \<Rightarrow>
                 if Suc e = length s then Err (addr_error ''missing port in address'')
                 else if Suc e = i then split_rest s i (take (e - 1) (tl s)) 1 (Suc e)
                 else if s ! Suc e = CHR '':'' then Err (addr_error ''too many colons in address'')
                 else Err (addr_error ''missing port in address''))
          else if CHR '':'' \<in> set (take i s) then Err (addr_error ''too many colons in address'')
          else split_rest s i (take i s) 0 0)"

section \<open>Lemmas\<close>

lemma index_of_Some:
  "index_of x s = Some i \<Longrightarrow> i < length s \<and> s ! i = x \<and> x \<notin> set (take i s)"
proof (induction s arbitrary: i)
  case (Cons c cs)
  then show ?case by (cases i) (auto split: if_splits)
qed simp

lemma last_index_Some:
  assumes "last_index x s = Some i"
  shows "i < length s \<and> s ! i = x \<and> x \<notin> set (drop (Suc i) s)"
proof -
  from assms obtain k where k: "index_of x (rev s) = Some k" "i = length s - Suc k"
    by (auto simp: last_index_def)
  from index_of_Some [OF k(1)] have "k < length s" "rev s ! k = x" "x \<notin> set (take k (rev s))" by simp_all
  moreover from \<open>k < length s\<close> k(2) have "Suc i = length s - k" by simp
  ultimately show ?thesis using k(2) by (auto simp: rev_nth take_rev)
qed

text \<open>What \<open>SplitHostPort\<close> accepts is \<open>host:port\<close> or \<open>[host]:port\<close>, and the host has no colon unless
  it is bracketed.\<close>

lemma SplitHostPort_form:
  assumes "SplitHostPort s = Ok (h, p)"
  shows "CHR '':'' \<notin> set p
    \<and> (s = h @ CHR '':'' # p \<and> CHR '':'' \<notin> set h \<or> s = CHR ''['' # h @ CHR '']'' # CHR '':'' # p)"
proof -
  from assms obtain i where i: "last_index CHR '':'' s = Some i" and p: "p = drop (Suc i) s"
    by (auto simp: SplitHostPort_def split_rest_def split: option.splits if_splits)
  note li = last_index_Some [OF i]
  show ?thesis
  proof (cases "hd s = CHR ''[''")
    case True
    with assms i obtain e where e: "index_of CHR '']'' s = Some e" "Suc e = i" "h = take (e - 1) (tl s)"
      by (auto simp: SplitHostPort_def split_rest_def split: option.splits if_splits)
    note ie = index_of_Some [OF e(1)]
    obtain t where t: "s = CHR ''['' # t" using True li by (cases s) auto
    with ie obtain e' where e': "e = Suc e'" by (cases e) auto
    have "t = take e' t @ t ! e' # t ! Suc e' # drop (Suc (Suc e')) t"
      using li e(2) e' t by (metis Cons_nth_drop_Suc Suc_lessD Suc_less_eq append_take_drop_id length_Cons)
    with t e' e ie li p show ?thesis by auto
  next
    case False
    with assms i have "h = take i s" "CHR '':'' \<notin> set (take i s)"
      by (auto simp: SplitHostPort_def split_rest_def split: option.splits if_splits)
    moreover have "s = take i s @ s ! i # drop (Suc i) s" using li by (intro id_take_nth_drop) simp
    ultimately show ?thesis using li p by auto
  qed
qed

end
