(* ===== verification/Net.thy ===== *)
theory Net
  imports Machine Net_Addr "HOL-Library.Sublist"
begin

text \<open>
  Packet queues between the network interface and the applet (\<open>src/trusted_os/net.go\<close>). A
  buffered channel is an optional list (\<open>None\<close> for a nil channel) with the capacity it was made
  with. \<open>select\<close> with a \<open>default\<close> never blocks; the one plain send, to \<open>txQueue\<close>,
  blocks the caller when the channel is full or nil, which ends the run of the model with
  \<open>Halt\<close>.
\<close>

section \<open>Definitions\<close>

definition RXQueueSize :: nat where "RXQueueSize = 1000"

definition TXQueueSize :: nat where "TXQueueSize = 1000"

definition RX :: "32 word" where "RX = 0x10000000"

definition TX :: "32 word" where "TX = 0x10000001"

definition FIQ :: "32 word" where "FIQ = 0x10000002"

definition FREQ :: "32 word" where "FREQ = 0x10000003"

definition asyncRx :: "bytes \<Rightarrow> ('w, 'v, unit) osio" where
  "asyncRx buf = modifyS (\<lambda>s. case rxQueue s of
      None \<Rightarrow> s
    | Some q \<Rightarrow> if length q < RXQueueSize then s\<lparr>rxQueue := Some (q @ [buf])\<rparr> else s)"

definition asyncTx :: "('w, 'v, bytes) osio" where
  "asyncTx s = (case txQueue s of
      Some (p # q) \<Rightarrow> (Ok p, s\<lparr>txQueue := Some q\<rparr>)
    | _ \<Rightarrow> (Ok [], s))"

definition rxFromApplet :: "('w, 'v) board \<Rightarrow> ('w, 'v, unit) osio" where
  "rxFromApplet E =
     bindS (getS rxQueue) (\<lambda>queue. case queue of
         Some (buf # q) \<Rightarrow>
           bindS (modifyS (\<lambda>s. s\<lparr>rxQueue := Some q\<rparr>)) (\<lambda>_.
           bindS (getS ectx) (\<lambda>c.
           bindS (liftRes (TransferRegion E c)) (\<lambda>(off, n).
             let r = length buf in
             if n < r then failS (ErrorsNew ''invalid transfer size'')
             else onCtx (\<lambda>c. Ret E (Memory_Write E c off buf) r))))
       | _ \<Rightarrow> onCtx (\<lambda>c. Ret E c 0))"

definition send_tx :: "bytes \<Rightarrow> ('w, 'v, unit) osio" where
  "send_tx buf s = (case txQueue s of
      Some q \<Rightarrow> if length q < TXQueueSize then (Ok (), s\<lparr>txQueue := Some (q @ [buf])\<rparr>)
                 else (Halt ''blocked on txQueue'', s)
    | None \<Rightarrow> (Halt ''blocked on txQueue'', s))"

definition txFromApplet :: "('w, 'v) board \<Rightarrow> ('w, 'v, unit) osio" where
  "txFromApplet E =
     bindS (getS ectx) (\<lambda>c.
     bindS (liftRes (TransferRegion E c)) (\<lambda>(off, n).
       let buf = Memory_Read E c off n in
       if LAN E then modifyS (\<lambda>s. s\<lparr>lan_sent := lan_sent s @ [buf]\<rparr>)
       else if USB E then send_tx buf
       else retS ()))"

text \<open>The interrupt handler installed for the Ethernet interface drains its receive ring.\<close>

fun receiveLAN :: "bytes list \<Rightarrow> ('w, 'v, unit) osio" where
  "receiveLAN [] = modifyS (\<lambda>s. s\<lparr>lan_ring := []\<rparr>)"
| "receiveLAN (buf # ring) =
     bindS (asyncRx buf) (\<lambda>_. bindS (emit ClearRXF) (\<lambda>_. receiveLAN ring))"

text \<open>The default addresses of the USB network. An address that does not parse would be nil; the errors are
  ignored.\<close>

definition deviceMAC :: string where "deviceMAC = ''1a:55:89:a2:69:41''"

definition hostMAC :: string where "hostMAC = ''1a:55:89:a2:69:42''"

definition hardware_addr :: "string \<Rightarrow> bytes" where
  "hardware_addr t = (case ParseMAC t of Ok a \<Rightarrow> a | _ \<Rightarrow> [])"

text \<open>The interface passes packets on with \<open>asyncRx\<close> and \<open>asyncTx\<close>; the code panics if it cannot be
  initialised.\<close>

definition netStartUSB :: "('w, 'v) board \<Rightarrow> ('w, 'v, unit) osio" where
  "netStartUSB E =
     bindS (emit (ConfigureNetDevice deviceMAC)) (\<lambda>_.
     bindS (modifyS (\<lambda>s. s\<lparr>rxQueue := Some [], txQueue := Some []\<rparr>)) (\<lambda>_.
     bindS (case NIC_Init E (hardware_addr hostMAC) (hardware_addr deviceMAC) of
              Ok _ \<Rightarrow> retS ()
            | Err e \<Rightarrow> haltS (error_text e)
            | Halt m \<Rightarrow> haltS m) (\<lambda>_.
     bindS (emit USBInit) (\<lambda>_.
     bindS (emit (DeviceMode USB_port)) (\<lambda>_.
     bindS (emit (EnableUSBInterrupt USB_port ''IRQ_URI'')) (\<lambda>_.
     bindS (emit (EnableUSBInterrupt USB_port ''IRQ_PCI'')) (\<lambda>_.
     bindS (emit (EnableUSBInterrupt USB_port ''IRQ_UI'')) (\<lambda>_.
     bindS (modifyS (\<lambda>s. s\<lparr>irqHandler := (irqHandler s)(USB_IRQ E \<mapsto> ServiceUSB)\<rparr>)) (\<lambda>_.
     emit (GICEnable (USB_IRQ E)))))))))))"

definition netStartLAN :: "('w, 'v) board \<Rightarrow> ('w, 'v, unit) osio" where
  "netStartLAN E =
     bindS (modifyS (\<lambda>s. s\<lparr>rxQueue := Some [], irqHandler := (irqHandler s)(LAN_IRQ E \<mapsto> ReceiveLAN)\<rparr>)) (\<lambda>_.
     bindS (emit (ENETEnableInterrupt ''IRQ_RXF'')) (\<lambda>_.
     bindS (emit (ENETStart False)) (\<lambda>_.
     emit (GICEnable (LAN_IRQ E)))))"

definition netStart :: "('w, 'v) board \<Rightarrow> ('w, 'v, unit) osio" where
  "netStart E = (if LAN E then netStartLAN E else if USB E then netStartUSB E else retS ())"

text \<open>The two addresses parse, to different addresses of one network card each.\<close>

lemma default_addresses:
  "hardware_addr hostMAC = [0x1a, 0x55, 0x89, 0xa2, 0x69, 0x42]" "hardware_addr deviceMAC = [0x1a, 0x55, 0x89, 0xa2, 0x69, 0x41]"
  by code_simp+

text \<open>However the network starts, its interrupt is enabled last, when its handler and queues are there.\<close>

lemma netStart_interrupt_last:
  assumes "netStart E s = (Ok (), s')" and "LAN E \<or> USB E"
  shows "\<exists>irq. last (events s') = GICEnable irq \<and> irqHandler s' irq \<noteq> None \<and> rxQueue s' = Some []"
  using assms
  by (auto simp: netStart_def netStartLAN_def netStartUSB_def bindS_apply split: if_splits res.splits)

section \<open>The queue as an interface\<close>

text \<open>What the packet path relies on: a queue that takes packets at the end while there is room and drops
  them otherwise; a fetch takes the packet in front off the queue and delivers it, if the fetch \<open>takes\<close> it
  (otherwise the packet is lost).\<close>

locale drop_queue =
  fixes push :: "'p \<Rightarrow> 's \<Rightarrow> 's"
    and pop :: "'c \<Rightarrow> 's \<Rightarrow> 'p option \<times> 's"
    and items :: "'s \<Rightarrow> 'p list"
    and opened :: "'s \<Rightarrow> bool"
    and cap :: nat
    and takes :: "'c \<Rightarrow> 'p \<Rightarrow> bool"
  assumes push_law: "opened s \<Longrightarrow> opened (push p s)
      \<and> items (push p s) = (if length (items s) < cap then items s @ [p] else items s)"
    and pop_law: "opened s \<Longrightarrow> opened (snd (pop c s))
      \<and> fst (pop c s) = (case items s of [] \<Rightarrow> None | p # _ \<Rightarrow> if takes c p then Some p else None)
      \<and> items (snd (pop c s)) = tl (items s)"

text \<open>Arrivals (\<open>Inl\<close>) and fetches (\<open>Inr\<close>) in any order, and the packets delivered.\<close>

fun queue_run ::
  "('p \<Rightarrow> 's \<Rightarrow> 's) \<Rightarrow> ('c \<Rightarrow> 's \<Rightarrow> 'p option \<times> 's) \<Rightarrow> ('p + 'c) list \<Rightarrow> 's \<Rightarrow> 'p list \<times> 's" where
  "queue_run push pop [] s = ([], s)"
| "queue_run push pop (Inl p # es) s = queue_run push pop es (push p s)"
| "queue_run push pop (Inr c # es) s = (case pop c s of (q, s') \<Rightarrow> case queue_run push pop es s' of (out, s'') \<Rightarrow>
     ((case q of None \<Rightarrow> [] | Some p \<Rightarrow> [p]) @ out, s''))"

fun arrivals :: "('p + 'c) list \<Rightarrow> 'p list" where
  "arrivals [] = []"
| "arrivals (Inl p # es) = p # arrivals es"
| "arrivals (Inr c # es) = arrivals es"

context drop_queue
begin

abbreviation "run \<equiv> queue_run push pop"

lemma run_fetch:
  assumes "opened s" and "run (Inr c # es) s = (out, s')"
  obtains s1 out1 where "opened s1" and "items s1 = tl (items s)" and "run es s1 = (out1, s')"
    and "out = filter (takes c) (take 1 (items s)) @ out1"
  using pop_law [OF assms(1), of c] assms(2) that
  by (cases "items s") (auto split: prod.splits)

lemma run_subseq:
  "opened s \<Longrightarrow> run es s = (out, s') \<Longrightarrow> subseq (out @ items s') (items s @ arrivals es)"
proof (induction es arbitrary: s out)
  case (Cons e es)
  show ?case
  proof (cases e)
    case (Inl p)
    have "subseq (out @ items s') (items (push p s) @ arrivals es)"
      using Cons.prems Inl push_law by (intro Cons.IH) auto
    moreover have "subseq (items (push p s) @ arrivals es) (items s @ arrivals (e # es))"
      using Inl push_law [OF Cons.prems(1)] by (auto intro: list_emb_append_mono)
    ultimately show ?thesis by (rule subseq_order.trans)
  next
    case (Inr c)
    obtain s1 out1 where s1: "opened s1" "items s1 = tl (items s)" "run es s1 = (out1, s')"
      "out = filter (takes c) (take 1 (items s)) @ out1"
      using run_fetch [OF Cons.prems(1) Cons.prems(2) [unfolded Inr]] by blast
    show ?thesis unfolding s1(4) using Cons.IH [OF s1(1,3)] s1(2) Inr by (cases "items s") auto
  qed
qed simp

lemma run_bounded:
  "opened s \<Longrightarrow> length (items s) \<le> cap \<Longrightarrow> run es s = (out, s') \<Longrightarrow> length (items s') \<le> cap"
proof (induction es arbitrary: s out)
  case (Cons e es)
  show ?case
  proof (cases e)
    case (Inl p)
    show ?thesis
      by (rule Cons.IH [of "push p s" out]) (use Cons.prems Inl push_law [OF Cons.prems(1)] in auto)
  next
    case (Inr u)
    obtain s1 out1 where "opened s1" "items s1 = tl (items s)" "run es s1 = (out1, s')"
      using run_fetch [OF Cons.prems(1) Cons.prems(3) [unfolded Inr]] by blast
    then show ?thesis using Cons.IH [of s1 out1] Cons.prems(2) by simp
  qed
qed simp

lemma run_lossless:
  "opened s \<Longrightarrow> length (items s) + length (arrivals es) \<le> cap \<Longrightarrow> run es s = (out, s') \<Longrightarrow>
     (\<And>c p. Inr c \<in> set es \<Longrightarrow> p \<in> set (items s @ arrivals es) \<Longrightarrow> takes c p) \<Longrightarrow>
     out @ items s' = items s @ arrivals es"
proof (induction es arbitrary: s out)
  case (Cons e es)
  show ?case
  proof (cases e)
    case (Inl p)
    have "out @ items s' = items (push p s) @ arrivals es"
      by (rule Cons.IH) (use Cons.prems Inl push_law [OF Cons.prems(1), of p] in \<open>auto split: if_splits\<close>)
    with Inl Cons.prems(2) push_law [OF Cons.prems(1)] show ?thesis by simp
  next
    case (Inr c)
    obtain s1 out1 where s1: "opened s1" "items s1 = tl (items s)" "run es s1 = (out1, s')"
      "out = filter (takes c) (take 1 (items s)) @ out1"
      using run_fetch [OF Cons.prems(1) Cons.prems(3) [unfolded Inr]] by blast
    have t: "p \<in> set (items s1 @ arrivals es) \<Longrightarrow> p \<in> set (items s @ arrivals es)" for p
      using s1(2) by (cases "items s") auto
    have "out1 @ items s' = items s1 @ arrivals es"
      by (rule Cons.IH [OF s1(1) _ s1(3)]) (use s1(2) t Cons.prems(2,4) Inr in auto)
    then show ?thesis unfolding s1(4) using s1(2) Inr Cons.prems(4) [of c] by (cases "items s") auto
  qed
qed simp

end

section \<open>The receive and transmit queues\<close>

text \<open>Arrival and fetch as the code performs them. The applet fetches with the registers and memory \<open>c\<close> of
  its system call; what it gets is what it finds afterwards in its memory, at the region it named, in
  the length the call returned (0: no packet).\<close>

definition rx_arrive :: "bytes \<Rightarrow> ('w, 'v) os \<Rightarrow> ('w, 'v) os" where
  "rx_arrive p s = snd (asyncRx p s)"

definition applet_sees :: "('w, 'v) board \<Rightarrow> ExecCtx \<Rightarrow> ExecCtx \<Rightarrow> bytes option" where
  "applet_sees E c c' = (case TransferRegion E c of
      Ok (off, _) \<Rightarrow> if ctx_R0 c' = 0 then None else Some (Memory_Read E c' off (unat (ctx_R0 c')))
    | _ \<Rightarrow> None)"

definition rx_fetch :: "('w, 'v) board \<Rightarrow> ExecCtx \<Rightarrow> ('w, 'v) os \<Rightarrow> bytes option \<times> ('w, 'v) os" where
  "rx_fetch E c s = (case rxFromApplet E (s\<lparr>ectx := c\<rparr>) of (r, s') \<Rightarrow> (if r = Ok () then applet_sees E c (ectx s') else None, s'))"

definition rx_fits :: "('w, 'v) board \<Rightarrow> ExecCtx \<Rightarrow> bytes \<Rightarrow> bool" where
  "rx_fits E c p \<longleftrightarrow> p \<noteq> [] \<and> (case TransferRegion E c of Ok (_, n) \<Rightarrow> length p \<le> n | _ \<Rightarrow> False)"

definition tx_send :: "bytes \<Rightarrow> ('w, 'v) os \<Rightarrow> ('w, 'v) os" where
  "tx_send p s = snd (send_tx p s)"

definition tx_fetch :: "unit \<Rightarrow> ('w, 'v) os \<Rightarrow> bytes option \<times> ('w, 'v) os" where
  "tx_fetch u s = (case asyncTx s of (r, s') \<Rightarrow> (case r of Ok p \<Rightarrow> if p = [] then None else Some p | _ \<Rightarrow> None, s'))"

definition queued :: "bytes list option \<Rightarrow> bytes list" where
  "queued q = (case q of None \<Rightarrow> [] | Some ps \<Rightarrow> ps)"

lemma rxFromApplet_queue:
  "rxQueue (snd (rxFromApplet E s)) = (case rxQueue s of Some (p # q) \<Rightarrow> Some q | q \<Rightarrow> q)"
  by (auto simp: rxFromApplet_def bindS_apply Let_def split: option.splits list.splits res.splits prod.splits)

lemma rx_fetch_queue:
  "rxQueue (snd (rx_fetch E c s)) = (case rxQueue s of Some (p # q) \<Rightarrow> Some q | q \<Rightarrow> q)"
  using rxFromApplet_queue [of E "s\<lparr>ectx := c\<rparr>"] by (simp add: rx_fetch_def case_prod_beta)

text \<open>What is relied on of the monitor: the size of a transfer region is a register of the applet, what is
  written to the region is what the applet reads there, and \<open>Ret\<close> sets the register of the result.\<close>

locale applet_memory =
  fixes E :: "('w, 'v) board"
  assumes region_law: "TransferRegion E c = Ok (off, n) \<Longrightarrow> n < 2 ^ 32"
    and memory_law: "TransferRegion E c = Ok (off, n) \<Longrightarrow> length b \<le> n \<Longrightarrow>
      Memory_Read E (Ret E (Memory_Write E c off b) k) off (length b) = b"
    and ret_law: "k < 2 ^ 32 \<Longrightarrow> ctx_R0 (Ret E c k) = word_of_nat k"
begin

lemma rx_fetch_result:
  "fst (rx_fetch E c s) = (case queued (rxQueue s) of [] \<Rightarrow> None | p # _ \<Rightarrow> if rx_fits E c p then Some p else None)"
proof (cases "queued (rxQueue s)")
  case Nil
  then show ?thesis using ret_law [of 0 c]
    by (auto simp: rx_fetch_def rxFromApplet_def bindS_apply applet_sees_def queued_def split: option.splits list.splits res.splits)
next
  case (Cons p q)
  then have q: "rxQueue s = Some (p # q)" by (simp add: queued_def split: option.splits)
  show ?thesis
  proof (cases "TransferRegion E c")
    case (Ok on)
    obtain off n where on: "on = (off, n)" by (cases on)
    show ?thesis
    proof (cases "length p \<le> n")
      case True
      then have k: "length p < 2 ^ 32" using region_law [OF Ok [unfolded on]] by simp
      then have u: "unat (word_of_nat (length p) :: 32 word) = length p" by (simp add: unsigned_of_nat take_bit_nat_eq_self)
      then have "(word_of_nat (length p) :: 32 word) = 0 \<longleftrightarrow> p = []"
        using unat_eq_zero [of "word_of_nat (length p) :: 32 word"] by (simp only: length_0_conv)
      moreover have "rxFromApplet E (s\<lparr>ectx := c\<rparr>) = (Ok (), s\<lparr>rxQueue := Some q, ectx := Ret E (Memory_Write E c off p) (length p)\<rparr>)"
        using True q Ok by (simp add: rxFromApplet_def bindS_apply on)
      ultimately show ?thesis using True u ret_law [OF k] memory_law [OF Ok [unfolded on] True] Ok
        by (simp add: rx_fetch_def applet_sees_def rx_fits_def Cons on)
    next
      case False
      then show ?thesis using q Ok by (simp add: rx_fetch_def rxFromApplet_def bindS_apply rx_fits_def queued_def on)
    qed
  qed (use q in \<open>simp_all add: rx_fetch_def rxFromApplet_def bindS_apply rx_fits_def queued_def\<close>)
qed

end

sublocale applet_memory \<subseteq> rxq: drop_queue rx_arrive "rx_fetch E" "\<lambda>s. queued (rxQueue s)" "\<lambda>s. rxQueue s \<noteq> None" RXQueueSize
  "rx_fits E"
proof (unfold_locales, goal_cases)
  case (1 s p)
  then show ?case by (auto simp: rx_arrive_def asyncRx_def queued_def)
next
  case (2 s c)
  with rx_fetch_result [of c s] rx_fetch_queue [of E c s] show ?case
    by (auto simp: queued_def split: option.splits list.splits)
qed

context applet_memory
begin

lemmas rx_subseq = rxq.run_subseq and rx_bounded = rxq.run_bounded and rx_lossless = rxq.run_lossless

end

interpretation demo_mem: applet_memory demo_board
proof (unfold_locales, goal_cases)
  case (1 c off n)
  then show ?case using unsigned_less [of "ctx_R2 c", where 'a = nat] by (simp add: demo_board_def)
next
  case (2 c off n b k)
  show ?case by (rule nth_equalityI) (simp_all add: demo_board_def)
qed (simp add: demo_board_def)

interpretation txq: drop_queue tx_send tx_fetch "\<lambda>s. queued (txQueue s)" "\<lambda>s. txQueue s \<noteq> None" TXQueueSize "\<lambda>_ p. p \<noteq> []"
  by unfold_locales
    (auto simp: tx_send_def tx_fetch_def send_tx_def asyncTx_def queued_def split: option.splits list.splits)

section \<open>Properties\<close>

text \<open>C31: received packets reach the applet in order. Take any interleaving of arriving packets and receive
  system calls of the applet, each with registers of its own, once the network is started. What the
  applet finds in its memory after these calls, followed by the packets still queued, is a subsequence
  of the packets queued before followed by the arrivals: packets may be dropped, never duplicated,
  altered or reordered. At most 1000 packets are queued. Nothing is lost if no more than 1000 packets are
  involved, none is empty and each fits the region of every call.\<close>

theorem rx_packets_in_order:
  assumes "applet_memory E" and "rxQueue s \<noteq> None" and "queue_run rx_arrive (rx_fetch E) es s = (out, s')"
  shows "subseq (out @ queued (rxQueue s')) (queued (rxQueue s) @ arrivals es)
    \<and> (length (queued (rxQueue s)) \<le> RXQueueSize \<longrightarrow> length (queued (rxQueue s')) \<le> RXQueueSize)
    \<and> (length (queued (rxQueue s)) + length (arrivals es) \<le> RXQueueSize
        \<and> (\<forall>c p. Inr c \<in> set es \<and> p \<in> set (queued (rxQueue s) @ arrivals es) \<longrightarrow> rx_fits E c p) \<longrightarrow>
        out @ queued (rxQueue s') = queued (rxQueue s) @ arrivals es)"
  using applet_memory.rx_subseq [OF assms] applet_memory.rx_bounded [OF assms(1,2) _ assms(3)]
    applet_memory.rx_lossless [OF assms(1,2) _ assms(3)]
  by blast

theorem rx_packets_in_order_witness:
  "fst (queue_run rx_arrive (rx_fetch demo_board) [Inl [1, 2], Inl [3], Inr (demo_ctx\<lparr>ctx_R2 := 1500\<rparr>)] demo_os) = [[1, 2]]"
proof -
  let ?es = "[Inl [1, 2], Inl [3], Inr (demo_ctx\<lparr>ctx_R2 := 1500\<rparr>)]"
  let ?run = "queue_run rx_arrive (rx_fetch demo_board) ?es demo_os"
  have fits: "rx_fits demo_board (demo_ctx\<lparr>ctx_R2 := 1500\<rparr>) p" if "p \<in> {[1, 2], [3]}" for p
    using that by (auto simp: rx_fits_def demo_board_def)
  have "fst ?run @ queued (rxQueue (snd ?run)) = [[1, 2], [3]]"
    using rx_packets_in_order [OF demo_mem.applet_memory_axioms, of demo_os ?es "fst ?run" "snd ?run"] fits
    by (simp add: queued_def RXQueueSize_def)
  moreover have "snd ?run = snd (rx_fetch demo_board (demo_ctx\<lparr>ctx_R2 := 1500\<rparr>) (demo_os\<lparr>rxQueue := Some [[1, 2], [3]]\<rparr>))"
    by (simp add: rx_arrive_def asyncRx_def RXQueueSize_def split: prod.splits)
  then have "queued (rxQueue (snd ?run)) = [[3]]" by (simp only: rx_fetch_queue) (simp add: queued_def)
  ultimately show ?thesis by simp
qed

text \<open>C37: a packet never overruns the applet's transfer region. When the receive system call succeeds
  it has either found no packet and returned 0, or written the oldest packet, which fits the
  region the applet asked for, at that region, and returned its length. When it fails, the
  applet's registers and memory are untouched (the packet is lost).\<close>

theorem rxFromApplet_bounds:
  assumes "rxFromApplet E s = (r, s')"
  shows "(r = Ok () \<longrightarrow>
      (queued (rxQueue s) = [] \<and> ectx s' = Ret E (ectx s) 0)
      \<or> (\<exists>p q off n. queued (rxQueue s) = p # q \<and> TransferRegion E (ectx s) = Ok (off, n) \<and> length p \<le> n
          \<and> ectx s' = Ret E (Memory_Write E (ectx s) off p) (length p)))
    \<and> (r \<noteq> Ok () \<longrightarrow> ectx s' = ectx s \<and> queued (rxQueue s) \<noteq> [])"
  using assms
  by (auto simp: rxFromApplet_def bindS_apply queued_def Let_def
      split: option.splits list.splits res.splits prod.splits if_splits)

theorem rxFromApplet_bounds_witness:
  "\<exists>s'. rxFromApplet demo_board (demo_os\<lparr>rxQueue := Some [[7, 8]], ectx := demo_ctx\<lparr>ctx_R2 := 1500\<rparr>\<rparr>) = (Ok (), s')
    \<and> ectx s' = Ret demo_board (Memory_Write demo_board (demo_ctx\<lparr>ctx_R2 := 1500\<rparr>) 0 [7, 8]) 2"
proof -
  let ?s = "demo_os\<lparr>rxQueue := Some [[7, 8]], ectx := demo_ctx\<lparr>ctx_R2 := 1500\<rparr>\<rparr>"
  have tr: "TransferRegion demo_board (ectx ?s) = Ok (0, 1500)" by (simp add: demo_board_def demo_ctx_def)
  then obtain s' where run: "rxFromApplet demo_board ?s = (Ok (), s')"
    by (simp add: rxFromApplet_def bindS_apply)
  from rxFromApplet_bounds [OF run] run tr show ?thesis by (auto simp: queued_def numeral_2_eq_2)
qed

end
