(* ===== verification/Console_Log.thy ===== *)
theory Console_Log
  imports Go_Std
begin

text \<open>
  Line buffering of the applet's standard output (\<open>src/trusted_os/log.go\<close>). The buffer is a
  package variable; \<open>os.Stdout.Write\<close> is a parameter.
\<close>

section \<open>Definitions\<close>

definition outputLimit :: nat where "outputLimit = 1024"

definition flushChr :: byte where "flushChr = 0x0a"

record 'w stdout_state =
  out_dev :: 'w
  log_buf :: bytes

definition bufferedStdoutLog ::
  "(bytes \<Rightarrow> ('w, unit) io) \<Rightarrow> byte \<Rightarrow> ('w stdout_state, unit) io" where
  "bufferedStdoutLog Stdout_Write c =
     bindS (modifyS (\<lambda>s. s\<lparr>log_buf := log_buf s @ [c]\<rparr>)) (\<lambda>_.
     bindS (getS log_buf) (\<lambda>buf.
     if c = flushChr \<or> outputLimit < length buf
     then tryS (zoomS out_dev (\<lambda>w s. s\<lparr>out_dev := w\<rparr>) (Stdout_Write buf)) (\<lambda>r.
          bindS (modifyS (\<lambda>s. s\<lparr>log_buf := []\<rparr>)) (\<lambda>_.
          case r of Inl e \<Rightarrow> failS e | Inr _ \<Rightarrow> retS ()))
     else retS ()))"

text \<open>A sequence of calls; the caller stops at the first error.\<close>

fun log_bytes :: "(bytes \<Rightarrow> ('w, unit) io) \<Rightarrow> bytes \<Rightarrow> ('w stdout_state, unit) io" where
  "log_bytes W [] = retS ()"
| "log_bytes W (c # cs) = bindS (bufferedStdoutLog W c) (\<lambda>_. log_bytes W cs)"

section \<open>Properties\<close>

text \<open>A standard output that records each write.\<close>

definition record_write :: "bytes \<Rightarrow> (bytes list, unit) io" where
  "record_write b w = (Ok (), w @ [b])"

definition log_inv :: "bytes list stdout_state \<Rightarrow> bool" where
  "log_inv s \<longleftrightarrow> length (log_buf s) \<le> outputLimit \<and> flushChr \<notin> set (log_buf s)
     \<and> (\<forall>b \<in> set (out_dev s). b \<noteq> [] \<and> length b \<le> outputLimit + 1
          \<and> (last b = flushChr \<or> length b = outputLimit + 1) \<and> flushChr \<notin> set (butlast b))"

lemma bufferedStdoutLog_step:
  assumes "log_inv s"
  shows "\<exists>s'. bufferedStdoutLog record_write c s = (Ok (), s') \<and> log_inv s'
    \<and> concat (out_dev s') @ log_buf s' = concat (out_dev s) @ log_buf s @ [c]"
  using assms
  by (auto simp: bufferedStdoutLog_def io_simps record_write_def log_inv_def outputLimit_def)

text \<open>Nothing of the applet's output is lost or reordered. Whatever bytes are logged, what has
  been written followed by what is still buffered is what was logged; every write is a line or a
  run of 1025 bytes without a newline before its end, and less than 1025 bytes stay buffered.\<close>

lemma log_bytes_faithful:
  "\<exists>s'. log_bytes record_write cs \<lparr>out_dev = [], log_buf = []\<rparr> = (Ok (), s')
    \<and> concat (out_dev s') @ log_buf s' = cs \<and> log_inv s'"
proof -
  have "log_inv s \<Longrightarrow> \<exists>s'. log_bytes record_write cs s = (Ok (), s')
    \<and> concat (out_dev s') @ log_buf s' = concat (out_dev s) @ log_buf s @ cs \<and> log_inv s'" for s
  proof (induction cs arbitrary: s)
    case (Cons c cs)
    then obtain s1 where s1: "bufferedStdoutLog record_write c s = (Ok (), s1)" "log_inv s1"
      "concat (out_dev s1) @ log_buf s1 = concat (out_dev s) @ log_buf s @ [c]"
      using bufferedStdoutLog_step by blast
    from Cons.IH [OF s1(2)] s1 show ?case by (auto simp: bindS_apply)
  qed simp
  from this [of "\<lparr>out_dev = [], log_buf = []\<rparr>"] show ?thesis by (simp add: log_inv_def)
qed

end
