(* ===== verification/Handler.thy ===== *)
theory Handler
  imports Net Console_Log
begin

text \<open>
  Exceptions raised by the applet (\<open>src/trusted_os/handler.go\<close>) and loading and running it
  (\<open>src/trusted_os/load.go\<close>). A call of a wake handler appears as an event; the handlers themselves
  (\<open>src/trusted_os/handler.s\<close>) are in theory \<open>Wake_Handlers\<close>; the monitor's own system call handler
  and the execution of the applet are parameters.
\<close>

section \<open>Choosing the wake handler\<close>

definition CPSR_FIQ :: nat where "CPSR_FIQ = 6"

definition handler123Cutover :: string where "handler123Cutover = ''1.23.0''"

definition handler124Cutover :: string where "handler124Cutover = ''1.24.0''"

definition handler125Cutover :: string where "handler125Cutover = ''1.25.0''"

text \<open>\<open>semver.New\<close> panics on a text that does not parse.\<close>

definition semver_New :: "'v semver \<Rightarrow> string \<Rightarrow> 'v res" where
  "semver_New sv s = (case NewVersion sv s of Ok v \<Rightarrow> Ok v | _ \<Rightarrow> Halt ''semver.New'')"

definition choose_wake_handler :: "'v semver \<Rightarrow> 'v \<Rightarrow> 'v \<Rightarrow> 'v \<Rightarrow> 'v \<Rightarrow> wake_handler" where
  "choose_wake_handler sv wHandler123Cutover wHandler124Cutover wHandler125Cutover rtVersion =
     (if LessThan sv rtVersion wHandler123Cutover then wakeHandlerPreGo123
      else if LessThan sv rtVersion wHandler124Cutover then wakeHandlerGo123
      else if LessThan sv rtVersion wHandler125Cutover then wakeHandlerGo124
      else wakeHandlerGo125)"

definition configureWakeHandler :: "('w, 'v) board \<Rightarrow> 'v \<Rightarrow> ('w, 'v, unit) osio" where
  "configureWakeHandler E rtVersion =
     bindS (liftRes (semver_New (semvers E) handler123Cutover)) (\<lambda>c123.
     bindS (liftRes (semver_New (semvers E) handler124Cutover)) (\<lambda>c124.
     bindS (liftRes (semver_New (semvers E) handler125Cutover)) (\<lambda>c125.
     modifyS (\<lambda>s. s\<lparr>wHandler := Some (choose_wake_handler (semvers E) c123 c124 c125 rtVersion)\<rparr>))))"

section \<open>Interrupts and exceptions\<close>

definition watchdogTimeout :: nat where "watchdogTimeout = 60 * 1000"

definition watchdogWarningInterval :: nat where "watchdogWarningInterval = 5 * 1000"

definition run_irq :: "irq_action \<Rightarrow> ('w, 'v, unit) osio" where
  "run_irq a = (case a of
      ServiceWatchdog \<Rightarrow> emit (WatchdogService watchdogTimeout)
    | ReceiveLAN \<Rightarrow> bindS (getS lan_ring) receiveLAN
    | ServiceUSB \<Rightarrow> emit (ServiceInterrupts ''USB'')
    | ServiceControl \<Rightarrow> emit (ServiceInterrupts ''control''))"

definition isr :: "('w, 'v) board \<Rightarrow> ('w, 'v, unit) osio" where
  "isr E =
     bindS (onWorld (GetInterrupt E)) (\<lambda>irq.
     bindS (getS irqHandler) (\<lambda>handlers. case handlers irq of
         Some handle \<Rightarrow> run_irq handle
       | None \<Rightarrow> retS ()))"

definition fiqHandler :: "('w, 'v) board \<Rightarrow> ('w, 'v, unit) osio" where
  "fiqHandler E =
     bindS (getS ectx) (\<lambda>c.
     if saved_Mode E c \<noteq> arm_USR_MODE E
     then onCtx (\<lambda>c. c\<lparr>SPSR := bits_Set E (SPSR c) CPSR_FIQ\<rparr>)
     else
       bindS (isr E) (\<lambda>_.
       bindS (onCtx (\<lambda>c. c\<lparr>SPSR := bits_Set E (SPSR c) CPSR_FIQ\<rparr>)) (\<lambda>_.
       bindS (getS (\<lambda>s. (wHandler s, appletHandlerG s, appletHandlerP s))) (\<lambda>(h, g, p). case h of
           None \<Rightarrow> haltS nil_dereference
         | Some w \<Rightarrow> emit (Wake w g p)))))"

text \<open>The buffered standard output of the applet is part of the OS state.\<close>

definition onStdout :: "('w stdout_state, 'a) io \<Rightarrow> ('w, 'v, 'a) osio" where
  "onStdout m = zoomS (\<lambda>s. \<lparr>out_dev = world s, log_buf = stdout_buf s\<rparr>)
     (\<lambda>t s. s\<lparr>world := out_dev t, stdout_buf := log_buf t\<rparr>) m"

definition handler :: "('w, 'v) board \<Rightarrow> ('w, 'v, unit) osio" where
  "handler E =
     bindS (getS ectx) (\<lambda>c.
     if ExceptionVector c = arm_FIQ E then fiqHandler E
     else if ExceptionVector c = arm_SUPERVISOR E then
       (if ctx_A0 c = SYS_WRITE E then onStdout (bufferedStdoutLog (Stdout_Write E) (ucast (ctx_A1 c)))
        else if ctx_A0 c = RX then rxFromApplet E
        else if ctx_A0 c = TX then
          bindS (emit (WatchdogService watchdogTimeout)) (\<lambda>_. txFromApplet E)
        else if ctx_A0 c = FIQ then onCtx (\<lambda>c. c\<lparr>SPSR := bits_Clear E (SPSR c) CPSR_FIQ\<rparr>)
        else if ctx_A0 c = FREQ then onWorld (SetARMFreq E (ctx_A1 c))
        else SecureHandler E)
     else haltS ''unhandled exception'')"

section \<open>Loading and running the applet\<close>

text \<open>\<open>inspect\<close> of the debug build dumps the applet's state and may restart it at its fault
  handler; it is a parameter here. Other builds have a version without effect.\<close>

definition run_applet :: "('w, 'v) board \<Rightarrow> ('w, 'v, unit) osio \<Rightarrow> ('w, 'v, unit) osio" where
  "run_applet E inspect =
     bindS (modifyS (\<lambda>s. s\<lparr>irqHandler := (irqHandler s)(WDOG2_IRQ E \<mapsto> ServiceWatchdog)\<rparr>)) (\<lambda>_.
     bindS (emit (GICEnable (WDOG2_IRQ E))) (\<lambda>_.
     bindS (emit (WatchdogEnable watchdogWarningInterval watchdogTimeout)) (\<lambda>_.
     bindS (emit (GICFIQEn True)) (\<lambda>_.
     tryS (Ctx_Run E) (\<lambda>r.
     bindS (emit (GICFIQEn False)) (\<lambda>_.
     bindS (emit EnableInterrupts) (\<lambda>_.
     case r of
       Inr _ \<Rightarrow> retS ()
     | Inl e \<Rightarrow> if debug E then inspect else failS e)))))))"

text \<open>\<open>loadApplet\<close> returns whether the context pointer is set, and the error.\<close>

definition loadApplet ::
  "('w, 'v) board \<Rightarrow> ('w, 'v, unit) osio \<Rightarrow> bytes \<Rightarrow> ('w, 'v, bool \<times> error option) osio" where
  "loadApplet E inspect elf =
     bindS (emit (ConfigureMMU (unat (appletStart (mem_layout E)))
              (unat (appletStart (mem_layout E)) + unat (appletSize (mem_layout E))))) (\<lambda>_.
     tryS (onWorld (ELF_Load E elf)) (\<lambda>image. case image of
         Inl e \<Rightarrow> retS (False, Some e)
       | Inr entry \<Rightarrow>
           tryS (onWorld (Monitor_Load E entry)) (\<lambda>loaded. case loaded of
               Inl e \<Rightarrow> retS (False, Some (Errorf ''SM could not load applet'' e))
             | Inr ta \<Rightarrow>
                 bindS (modifyS (\<lambda>s. s\<lparr>rpc_Ctx := True,
                   ectx := ta\<lparr>ctx_R13 := applet_end E, SPSR := bits_Clear E (SPSR ta) CPSR_FIQ\<rparr>\<rparr>)) (\<lambda>_.
                 tryS (run_applet E inspect) (\<lambda>q. case q of
                     Inl e \<Rightarrow> retS (True, Some e)
                   | Inr _ \<Rightarrow> retS (True, None))))))"

section \<open>Lemmas\<close>

text \<open>Servicing an interrupt touches neither the applet's context nor the choice of wake handler.\<close>

definition fiq_view :: "('w, 'v) os \<Rightarrow> ExecCtx \<times> wake_handler option \<times> 32 word \<times> 32 word" where
  "fiq_view s = (ectx s, wHandler s, appletHandlerG s, appletHandlerP s)"

lemma fiq_view_updates [simp]:
  "fiq_view (s\<lparr>events := x\<rparr>) = fiq_view s" "fiq_view (s\<lparr>lan_ring := y\<rparr>) = fiq_view s"
  "fiq_view (s\<lparr>rxQueue := z\<rparr>) = fiq_view s" "fiq_view (s\<lparr>world := w\<rparr>) = fiq_view s"
  by (simp_all add: fiq_view_def)

lemma leaves_asyncRx [keeps_rules]: "leaves fiq_view (asyncRx p)"
  by (auto simp: asyncRx_def intro!: leaves_modifyS split: option.split)

lemma leaves_receiveLAN [keeps_rules]: "leaves fiq_view (receiveLAN ring)"
proof (induction ring)
  case Nil
  show ?case by (simp add: leaves_def)
next
  case (Cons p ring)
  then show ?case by (auto intro!: keeps_rules)
qed

lemma leaves_run_irq [keeps_rules]: "leaves fiq_view (run_irq a)"
  by (cases a) (auto simp: run_irq_def intro!: keeps_rules)

lemma leaves_isr: "leaves fiq_view (isr E)"
  unfolding isr_def by (intro keeps_rules) (auto intro!: keeps_rules split: option.split)

section \<open>Properties\<close>

text \<open>Fast interrupts. When \<open>fiqHandler\<close> returns, FIQs are masked in the mode the applet
  resumes with and nothing else of its context has changed. An interrupt raised while the OS was
  running does nothing else at all; one raised while the applet was running is serviced first,
  and then the applet's registered event handler is woken with the configured wake handler.\<close>

lemma fiqHandler_masks:
  assumes "fiqHandler E s = (Ok (), s')"
  shows "ectx s' = (ectx s)\<lparr>SPSR := bits_Set E (SPSR (ectx s)) CPSR_FIQ\<rparr>
    \<and> (saved_Mode E (ectx s) \<noteq> arm_USR_MODE E \<longrightarrow> s' = s\<lparr>ectx := ectx s'\<rparr>)
    \<and> (saved_Mode E (ectx s) = arm_USR_MODE E \<longrightarrow>
        (\<exists>s1 w. isr E s = (Ok (), s1) \<and> wHandler s = Some w
          \<and> s' = s1\<lparr>ectx := ectx s', events := events s1 @ [Wake w (appletHandlerG s) (appletHandlerP s)]\<rparr>))"
proof (cases "saved_Mode E (ectx s) = arm_USR_MODE E")
  case False
  with assms show ?thesis by (auto simp: fiqHandler_def bindS_apply)
next
  case True
  with assms obtain s1 where s1: "isr E s = (Ok (), s1)"
    by (auto simp: fiqHandler_def elim!: bindS_OkE)
  have "fiq_view s1 = fiq_view s" by (rule leavesD [OF leaves_isr s1])
  with True assms s1 show ?thesis
    by (auto simp: fiqHandler_def bindS_apply fiq_view_def split: option.splits)
qed

lemma fiqHandler_masks_example:
  "\<exists>s'. fiqHandler demo_board demo_os = (Ok (), s')
    \<and> ectx s' = demo_ctx\<lparr>SPSR := bits_Set demo_board 0x10 CPSR_FIQ\<rparr>"
proof -
  have "\<exists>s'. fiqHandler demo_board demo_os = (Ok (), s')"
    by (simp add: fiqHandler_def isr_def bindS_apply onWorld_apply run_irq_def)
  then obtain s' where run: "fiqHandler demo_board demo_os = (Ok (), s')" by blast
  from fiqHandler_masks [OF run] run show ?thesis by (simp add: demo_ctx_def)
qed

text \<open>A fast interrupt leaves a masked mode masked even if its handler does not return.\<close>

lemma fiqHandler_stays_masked:
  assumes "\<And>w. bit (bits_Set E w CPSR_FIQ) CPSR_FIQ" and "bit (SPSR (ectx s)) CPSR_FIQ"
  shows "bit (SPSR (ectx (snd (fiqHandler E s)))) CPSR_FIQ"
proof -
  obtain r s1 where s1: "isr E s = (r, s1)" by (cases "isr E s")
  have "fiq_view s1 = fiq_view s" by (rule leavesD [OF leaves_isr s1])
  with assms s1 show ?thesis
    by (cases r) (auto simp: fiqHandler_def bindS_apply fiq_view_def split: option.splits)
qed

text \<open>C32: how fast interrupts are unmasked while the applet runs. Take any exception in any state. If FIQs were
  masked in the mode the applet resumes with and are not afterwards, then it was the \<open>FIQ\<close> system call, or
  a call that the handler leaves to the monitor and the monitor did it. The output, receive, transmit and
  frequency calls leave the saved mode as it was, whatever their outcome; a fast interrupt that is
  handled masks FIQs; the \<open>FIQ\<close> call clears the mask and does nothing else.\<close>

theorem handler_fiq_mask:
  assumes "\<And>c n. SPSR (Ret E c n) = SPSR c" and "\<And>c off b. SPSR (Memory_Write E c off b) = SPSR c"
    and "\<And>w. bit (bits_Set E w CPSR_FIQ) CPSR_FIQ" and "SYS_WRITE E \<noteq> FIQ" and "arm_FIQ E \<noteq> arm_SUPERVISOR E"
  shows "(bit (SPSR (ectx s)) CPSR_FIQ \<and> \<not> bit (SPSR (ectx (snd (handler E s)))) CPSR_FIQ \<longrightarrow>
        ExceptionVector (ectx s) = arm_SUPERVISOR E
        \<and> (ctx_A0 (ectx s) = FIQ \<or> ctx_A0 (ectx s) \<notin> {SYS_WRITE E, RX, TX, FREQ} \<and> handler E s = SecureHandler E s))
    \<and> (ExceptionVector (ectx s) = arm_SUPERVISOR E \<and> ctx_A0 (ectx s) \<in> {SYS_WRITE E, RX, TX, FREQ} \<longrightarrow>
        SPSR (ectx (snd (handler E s))) = SPSR (ectx s))
    \<and> (ExceptionVector (ectx s) = arm_FIQ E \<and> fst (handler E s) = Ok () \<longrightarrow> bit (SPSR (ectx (snd (handler E s)))) CPSR_FIQ)
    \<and> (ExceptionVector (ectx s) = arm_SUPERVISOR E \<and> ctx_A0 (ectx s) = FIQ \<longrightarrow>
        handler E s = (Ok (), s\<lparr>ectx := (ectx s)\<lparr>SPSR := bits_Clear E (SPSR (ectx s)) CPSR_FIQ\<rparr>\<rparr>))"
proof -
  have rx: "SPSR (ectx (snd (rxFromApplet E t))) = SPSR (ectx t)" for t
    using assms(1,2)
    by (auto simp: rxFromApplet_def bindS_apply Let_def split: option.splits list.splits res.splits prod.splits)
  have tx: "SPSR (ectx (snd (txFromApplet E t))) = SPSR (ectx t)" for t
    by (auto simp: txFromApplet_def bindS_apply Let_def send_tx_def
        split: option.splits res.splits prod.splits)
  have out: "SPSR (ectx (snd (onStdout m t))) = SPSR (ectx t)"
    for m :: "('a stdout_state, unit) io" and t :: "('a, 'b) os"
    by (auto simp: onStdout_def zoomS_apply split: prod.splits)
  have fr: "SPSR (ectx (snd (onWorld m t))) = SPSR (ectx t)"
    for m :: "('a, unit) io" and t :: "('a, 'b) os"
    by (auto simp: onWorld_apply split: prod.splits)
  have same: "SPSR (ectx (snd (handler E s))) = SPSR (ectx s)"
    if "ExceptionVector (ectx s) = arm_SUPERVISOR E" "ctx_A0 (ectx s) \<in> {SYS_WRITE E, RX, TX, FREQ}"
    using that assms(4,5) rx tx out fr by (auto simp: handler_def bindS_apply RX_def TX_def FIQ_def FREQ_def)
  have clear: "handler E s = (Ok (), s\<lparr>ectx := (ectx s)\<lparr>SPSR := bits_Clear E (SPSR (ectx s)) CPSR_FIQ\<rparr>\<rparr>)"
    if "ExceptionVector (ectx s) = arm_SUPERVISOR E" "ctx_A0 (ectx s) = FIQ"
    using that assms(4,5) by (simp add: handler_def bindS_apply RX_def TX_def FIQ_def)
  have fiq: "handler E s = fiqHandler E s" if "ExceptionVector (ectx s) = arm_FIQ E"
    using that by (simp add: handler_def bindS_apply)
  have masks: "bit (SPSR (ectx (snd (handler E s)))) CPSR_FIQ" if "ExceptionVector (ectx s) = arm_FIQ E" "fst (handler E s) = Ok ()"
  proof -
    have "fiqHandler E s = (Ok (), snd (handler E s))" using fiq [OF that(1)] that(2) by (metis prod.collapse)
    from fiqHandler_masks [OF this] assms(3) show ?thesis by simp
  qed
  have other: "handler E s = SecureHandler E s"
    if "ExceptionVector (ectx s) = arm_SUPERVISOR E" "ctx_A0 (ectx s) \<notin> {SYS_WRITE E, RX, TX, FREQ, FIQ}"
    using that assms(5) by (simp add: handler_def bindS_apply)
  have rest: "handler E s = (Halt ''unhandled exception'', s)"
    if "ExceptionVector (ectx s) \<notin> {arm_FIQ E, arm_SUPERVISOR E}"
    using that by (simp add: handler_def bindS_apply)
  have "ExceptionVector (ectx s) = arm_SUPERVISOR E
      \<and> (ctx_A0 (ectx s) = FIQ \<or> ctx_A0 (ectx s) \<notin> {SYS_WRITE E, RX, TX, FREQ} \<and> handler E s = SecureHandler E s)"
    if m: "bit (SPSR (ectx s)) CPSR_FIQ" "\<not> bit (SPSR (ectx (snd (handler E s)))) CPSR_FIQ"
  proof -
    have "ExceptionVector (ectx s) = arm_SUPERVISOR E"
      using m rest fiq fiqHandler_stays_masked [of E s, OF assms(3)] by (metis empty_iff insert_iff snd_conv)
    with m same other show ?thesis by (cases "ctx_A0 (ectx s) \<in> {SYS_WRITE E, RX, TX, FREQ}") auto
  qed
  with same masks clear show ?thesis by blast
qed

theorem handler_fiq_mask_witness:
  "handler demo_board (demo_os\<lparr>ectx := demo_ctx\<lparr>ctx_A0 := FIQ\<rparr>\<rparr>)
     = (Ok (), demo_os\<lparr>ectx := demo_ctx\<lparr>ctx_A0 := FIQ, SPSR := bits_Clear demo_board 0x10 CPSR_FIQ\<rparr>\<rparr>)"
proof -
  have "SPSR (Ret demo_board c n) = SPSR c" "SPSR (Memory_Write demo_board c off b) = SPSR c"
    "bit (bits_Set demo_board w CPSR_FIQ) CPSR_FIQ" for c n off b w
    by (simp_all add: demo_board_def CPSR_FIQ_def bit_simps)
  from handler_fiq_mask [OF this, where s = "demo_os\<lparr>ectx := demo_ctx\<lparr>ctx_A0 := FIQ\<rparr>\<rparr>"] show ?thesis
    by (simp add: demo_ctx_def FIQ_def)
qed

text \<open>The wake handler matches the applet's runtime. With the three cut-over versions parsed and
  in ascending order, each handler is chosen exactly for the runtimes from its cut-over up to the
  next one.\<close>

lemma configureWakeHandler_intervals:
  assumes "semver_ops (semvers E)" and "NewVersion (semvers E) ''1.23.0'' = Ok a"
    and "NewVersion (semvers E) ''1.24.0'' = Ok b" and "NewVersion (semvers E) ''1.25.0'' = Ok c"
    and "LessThan (semvers E) a b" and "LessThan (semvers E) b c"
  shows "\<exists>h. configureWakeHandler E v s = (Ok (), s\<lparr>wHandler := Some h\<rparr>)
    \<and> (h = wakeHandlerPreGo123 \<longleftrightarrow> LessThan (semvers E) v a)
    \<and> (h = wakeHandlerGo123 \<longleftrightarrow> \<not> LessThan (semvers E) v a \<and> LessThan (semvers E) v b)
    \<and> (h = wakeHandlerGo124 \<longleftrightarrow> \<not> LessThan (semvers E) v b \<and> LessThan (semvers E) v c)
    \<and> (h = wakeHandlerGo125 \<longleftrightarrow> \<not> LessThan (semvers E) v c)"
proof -
  let ?h = "choose_wake_handler (semvers E) a b c v"
  have lt: "LessThan (semvers E) v a \<longrightarrow> LessThan (semvers E) v b" "LessThan (semvers E) v b \<longrightarrow> LessThan (semvers E) v c"
    using semver_ops.less_trans [OF assms(1)] assms(5,6) by blast+
  have "configureWakeHandler E v s = (Ok (), s\<lparr>wHandler := Some ?h\<rparr>)"
    using assms(2-4) by (simp add: configureWakeHandler_def bindS_apply semver_New_def handler123Cutover_def
        handler124Cutover_def handler125Cutover_def)
  then show ?thesis
    by (intro exI [of _ ?h]) (use lt in \<open>auto simp: choose_wake_handler_def\<close>)
qed

text \<open>Running the applet. In a build without debugging, whatever the applet does and however it
  stops: when \<open>run\<close> calls it the watchdog is armed with its service handler installed and
  interrupts are routed as FIQs; when it comes back the routing is restored and interrupts are
  enabled, before anything else happens, and the applet's result is returned.\<close>

lemma run_applet_brackets:
  assumes "\<not> debug E" and "run_applet E inspect s = (r, s')" and "\<forall>m. r \<noteq> Halt m"
  shows "\<exists>s1 s2. Ctx_Run E s1 = (r, s2)
    \<and> events s1 = events s @ [GICEnable (WDOG2_IRQ E), WatchdogEnable 5000 60000, GICFIQEn True]
    \<and> irqHandler s1 (WDOG2_IRQ E) = Some ServiceWatchdog \<and> ectx s1 = ectx s
    \<and> s' = s2\<lparr>events := events s2 @ [GICFIQEn False, EnableInterrupts]\<rparr>"
proof -
  let ?s1 = "s\<lparr>irqHandler := (irqHandler s)(WDOG2_IRQ E \<mapsto> ServiceWatchdog),
    events := events s @ [GICEnable (WDOG2_IRQ E), WatchdogEnable 5000 60000, GICFIQEn True]\<rparr>"
  obtain q s2 where run: "Ctx_Run E ?s1 = (q, s2)" by (cases "Ctx_Run E ?s1")
  have "run_applet E inspect s = (q, case q of Halt _ \<Rightarrow> s2
      | _ \<Rightarrow> s2\<lparr>events := events s2 @ [GICFIQEn False, EnableInterrupts]\<rparr>)"
    using run assms(1)
    by (auto simp: run_applet_def bindS_apply tryS_apply watchdogWarningInterval_def watchdogTimeout_def
        split: res.splits)
  with run assms(2,3) show ?thesis
    by (intro exI [of _ ?s1] exI [of _ s2]) (auto split: res.splits)
qed

text \<open>Loading an applet that can be loaded comes to the point where the monitor is told to run it, in a state in
  which nothing of the configuration has changed; the outcome is the monitor's. One that cannot be loaded is
  reported and leaves the state as it was but for the memory configuration.\<close>

lemma loadApplet_starts:
  assumes "ELF_Load E elf (world s) = (Ok entry, w1)" and "Monitor_Load E entry w1 = (Ok c, w2)"
  obtains s0 where "rpc_Cfg s0 = rpc_Cfg s" and "rpc_Ctx s0" and "\<exists>es. events s0 = events s @ es"
    and "ectx s0 = c\<lparr>ctx_R13 := applet_end E, SPSR := bits_Clear E (SPSR c) CPSR_FIQ\<rparr>"
    and "\<And>s1. Ctx_Run E s0 = (Ok (), s1) \<Longrightarrow>
      loadApplet E inspect elf s = (Ok (True, None), s1\<lparr>events := events s1 @ [GICFIQEn False, EnableInterrupts]\<rparr>)"
    and "\<And>e s1. Ctx_Run E s0 = (Err e, s1) \<Longrightarrow> \<not> debug E \<Longrightarrow>
      loadApplet E inspect elf s = (Ok (True, Some e), s1\<lparr>events := events s1 @ [GICFIQEn False, EnableInterrupts]\<rparr>)"
proof -
  let ?m = "ConfigureMMU (unat (appletStart (mem_layout E))) (unat (appletStart (mem_layout E)) + unat (appletSize (mem_layout E)))"
  let ?s0 = "s\<lparr>world := w2, rpc_Ctx := True, ectx := c\<lparr>ctx_R13 := applet_end E, SPSR := bits_Clear E (SPSR c) CPSR_FIQ\<rparr>,
    irqHandler := (irqHandler s)(WDOG2_IRQ E \<mapsto> ServiceWatchdog),
    events := events s @ [?m, GICEnable (WDOG2_IRQ E), WatchdogEnable watchdogWarningInterval watchdogTimeout, GICFIQEn True]\<rparr>"
  show ?thesis
    by (rule that [of ?s0]) (use assms in \<open>simp_all add: loadApplet_def run_applet_def bindS_apply tryS_apply onWorld_apply\<close>)
qed

lemma loadApplet_fails:
  assumes "ELF_Load E elf (world s) = (Err e, w1)"
  obtains s1 where "loadApplet E inspect elf s = (Ok (False, Some e), s1)" and "rpc_Cfg s1 = rpc_Cfg s"
    and "\<exists>m. events s1 = events s @ [ConfigureMMU (unat (appletStart (mem_layout E))) m]"
  using assms that by (simp add: loadApplet_def bindS_apply tryS_apply onWorld_apply)

lemma run_applet_brackets_example:
  "\<exists>s'. run_applet demo_board (retS ()) demo_os = (Ok (), s')
    \<and> (\<exists>s2. s' = s2\<lparr>events := events s2 @ [GICFIQEn False, EnableInterrupts]\<rparr>)"
proof -
  have "\<exists>s'. run_applet demo_board (retS ()) demo_os = (Ok (), s')"
    by (simp add: run_applet_def bindS_apply tryS_apply)
  then obtain s' where run: "run_applet demo_board (retS ()) demo_os = (Ok (), s')" by blast
  from run_applet_brackets [OF demo_board_simps(2) run] run show ?thesis by blast
qed

end
