(* ===== verification/Flash_Props.thy ===== *)
theory Flash_Props
  imports Flash Fake_Card
begin

text \<open>
  What firmware storage promises, over any card that meets the contracts of \<open>Card\<close>: an update
  can be interrupted at any point, a finished update is what the next boot reads, images that
  fail verification are never written, and a stored crash log is retrieved.
\<close>

section \<open>Interrupted updates\<close>

text \<open>C3: an interrupted update leaves a bootable device. Whatever the card does and wherever an
  update stops (an error, or a call that never returns), every byte outside the target slot and
  the configuration area is unchanged; the slot of the running firmware is among them if the
  firmware was loaded from one of the layout's slots; and unless the new image is completely
  stored in the target slot, the configuration area is unchanged too.\<close>

theorem flashFirmware_interruptible:
  assumes "card_frame C img I" and "I (world s)"
    and "flash_target s t = Some (confBlock, elfBlock)"
    and "int (length elf) < slotBytes"
    and "cfg_Encode K \<lparr>cfg_Size = int (length elf), cfg_Offset = elfBlock * 512, cfg_Bundle = pb\<rparr> = Ok enc"
    and "length enc < 40960"
    and "flashFirmware K (Some C) t elf pb s = (q, s')"
  shows "(\<forall>x. (x < elfBlock * 512 \<or> elfBlock * 512 + slotBytes \<le> x)
          \<and> (x < confBlock * 512 \<or> confBlock * 512 + 40960 \<le> x)
          \<longrightarrow> img (world s') x = img (world s) x)
    \<and> (running_block s t \<in> {taBlockA, taBlockB, osBlockA, osBlockB} \<longrightarrow>
        get_bytes (img (world s')) (running_block s t * 512) (nat slotBytes)
        = get_bytes (img (world s)) (running_block s t * 512) (nat slotBytes))
    \<and> (get_bytes (img (world s')) (elfBlock * 512) (length elf) = elf
        \<or> q \<noteq> Ok () \<and> get_bytes (img (world s')) (confBlock * 512) 40960
          = get_bytes (img (world s)) (confBlock * 512) 40960)"
proof (intro conjI)
  note E = flashFirmware_effect [OF assms]
  show "\<forall>x. (x < elfBlock * 512 \<or> elfBlock * 512 + slotBytes \<le> x)
          \<and> (x < confBlock * 512 \<or> confBlock * 512 + 40960 \<le> x)
          \<longrightarrow> img (world s') x = img (world s) x"
    using E(1) by blast
  show "running_block s t \<in> {taBlockA, taBlockB, osBlockA, osBlockB} \<longrightarrow>
        get_bytes (img (world s')) (running_block s t * 512) (nat slotBytes)
        = get_bytes (img (world s)) (running_block s t * 512) (nat slotBytes)"
  proof
    assume "running_block s t \<in> {taBlockA, taBlockB, osBlockA, osBlockB}"
    note G = flash_target_geometry(2) [OF assms(3) this]
    have "int (nat slotBytes) = slotBytes" by (simp add: slotBytes_def)
    with G show "get_bytes (img (world s')) (running_block s t * 512) (nat slotBytes)
        = get_bytes (img (world s)) (running_block s t * 512) (nat slotBytes)"
      by (intro get_bytes_cong E(1)) linarith+
  qed
qed (rule flashFirmware_effect(2) [OF assms])

text \<open>A codec for the witnesses: it knows one configuration.\<close>

definition demo_pb :: ProofBundle where
  "demo_pb = \<lparr>pb_Checkpoint = [1], pb_Manifest = [2], pb_LogIndex = 7, pb_InclusionProof = [[3]]\<rparr>"

definition demo_conf :: BootConfig where
  "demo_conf = \<lparr>cfg_Size = 3, cfg_Offset = taBlockA * 512, cfg_Bundle = demo_pb\<rparr>"

definition demo_codec :: boot_codec where
  "demo_codec = \<lparr>MaxLength = 40960,
     cfg_Encode = (\<lambda>c. if c = demo_conf then Ok [1, 2, 3] else Err EOF),
     cfg_Decode = (\<lambda>b. if take 3 b = [1, 2, 3] then Ok demo_conf else Err EOF)\<rparr>"

definition demo_flash :: "fakeCard flash_state" where
  "demo_flash = \<lparr>world = newFakeCard fakeCardNumBlocks, appletLoadedFromBlock = taBlockB,
     osLoadedFromBlock = osBlockA\<rparr>"

lemma demo_target: "flash_target demo_flash Firmware_Applet = Some (taConfBlock, taBlockA)"
  by (simp add: flash_target_def demo_flash_def layout_defs)

lemma demo_encode:
  "cfg_Encode demo_codec \<lparr>cfg_Size = 3, cfg_Offset = taBlockA * 512, cfg_Bundle = demo_pb\<rparr> = Ok [1, 2, 3]"
  by (simp add: demo_codec_def demo_conf_def)

theorem flashFirmware_interruptible_witness:
  "get_bytes (fake_img (world (snd (flashFirmware demo_codec (Some fake_ops) Firmware_Applet [9, 8, 7]
        demo_pb demo_flash)))) (taBlockB * 512) (nat slotBytes)
     = get_bytes (fake_img (world demo_flash)) (taBlockB * 512) (nat slotBytes)"
proof -
  let ?run = "flashFirmware demo_codec (Some fake_ops) Firmware_Applet [9, 8, 7] demo_pb demo_flash"
  have "running_block demo_flash Firmware_Applet = taBlockB"
    by (simp add: running_block_def demo_flash_def)
  moreover have "fake_inv (world demo_flash)" by (simp add: demo_flash_def)
  note flashFirmware_interruptible [OF fc.card_frame_axioms this demo_target, of "[9, 8, 7]" demo_codec
      demo_pb "[1, 2, 3]" "fst ?run" "snd ?run"]
  ultimately show ?thesis using demo_encode by (simp add: slotBytes_def)
qed

section \<open>Finished updates\<close>

text \<open>The state after a finished update: image and configuration are in place.\<close>

lemma flashFirmware_done:
  assumes bc: "block_card C img I cap" and "I (world s)"
    and t: "flash_target s t = Some (confBlock, elfBlock)" and "elfBlock + 0xFD000 \<le> cap"
    and elf: "int (length elf) < slotBytes"
    and conf: "cfg_Encode K \<lparr>cfg_Size = int (length elf), cfg_Offset = elfBlock * 512, cfg_Bundle = pb\<rparr>
      = Ok enc" and enc: "length enc < 40960"
  obtains w' where "flashFirmware K (Some C) t elf pb s = (Ok (), s\<lparr>world := w'\<rparr>)" and "I w'"
    and "img w' = put_bytes (put_bytes (img (world s)) (elfBlock * 512) (flash_image elf))
           (confBlock * 512) (flash_image enc)"
proof -
  have elf': "int (length (flash_image elf)) \<le> 0xFD000 * 512"
    using elf flash_image_fits [of elf "0xFD000"] by (simp add: slotBytes_def)
  have enc': "int (length (flash_image enc)) \<le> 40960" using enc flash_image_fits [of enc 80] by simp
  have pos: "0 \<le> elfBlock" "0 \<le> confBlock" "confBlock * 512 + 40960 \<le> elfBlock * 512"
    using flash_target_cases [OF t] flash_target_geometry(1) [OF t] by (auto simp: layout_defs)
  obtain w1 where w1: "flash C elf elfBlock (world s) = (Ok (), w1)" "I w1"
    "img w1 = put_bytes (img (world s)) (elfBlock * 512) (flash_image elf)"
    by (rule block_card.flash_total [OF bc assms(2) pos(1), of elf]) (use elf' assms(4) in auto)
  obtain w2 where w2: "flash C enc confBlock w1 = (Ok (), w2)" "I w2"
    "img w2 = put_bytes (img w1) (confBlock * 512) (flash_image enc)"
    by (rule block_card.flash_total [OF bc w1(2) pos(2), of enc]) (use enc' pos(3) assms(4) in auto)
  have "flashFirmware K (Some C) t elf pb s = (Ok (), s\<lparr>world := w2\<rparr>)"
    using t conf w1(1) w2(1)
    by (simp add: flashFirmware_def bindS_apply wrapS_apply onWorld_apply expectedBlockSize_def)
  with w1 w2 that show ?thesis by simp
qed

text \<open>Installing an applet and reading it. On a working card large enough for the layout, with a
  configuration codec that decodes what it encodes (whatever follows it on the medium), an applet
  that verifies and fits its slot is installed without error in the slot not in use, and \<open>read\<close>
  on the resulting medium returns exactly the bundle that was verified.\<close>

lemma updateApplet_reads_back:
  assumes bc: "block_card C img I cap" and inv0: "I (world s)" and "taBlockB + 0xFD000 \<le> cap"
    and verified: "verify (bundle_of elf pb) = Ok m" and fits: "int (length elf) < slotBytes"
    and t: "flash_target s Firmware_Applet = Some (taConfBlock, elfBlock)"
    and conf: "c = \<lparr>cfg_Size = int (length elf), cfg_Offset = elfBlock * 512, cfg_Bundle = pb\<rparr>"
    and enc: "cfg_Encode K c = Ok enc" and dec: "\<forall>rest. cfg_Decode K (enc @ rest) = Ok c"
    and len: "length enc < 40960" "int (length enc) \<le> MaxLength K" "MaxLength K \<le> 40960"
  shows "\<exists>w1. updateApplet K verify (Some C) elf pb s = (Ok (), s\<lparr>world := w1\<rparr>) \<and> elfBlock \<noteq> appletLoadedFromBlock s
    \<and> (\<forall>b. world b = w1 \<longrightarrow> (\<exists>w3. read K C b = (Ok (bundle_of elf pb), b\<lparr>world := w3, appletLoadedFromBlock := elfBlock\<rparr>)))"
proof -
  have block: "elfBlock \<in> {taBlockA, taBlockB}" "elfBlock \<noteq> appletLoadedFromBlock s"
    using flash_target_cases [OF t] by (auto simp: layout_defs Firmware_Applet_def Firmware_OS_def)
  then have cap: "elfBlock + 0xFD000 \<le> cap" "0 \<le> elfBlock" using assms(3) by (auto simp: layout_defs)
  obtain w1 where run: "flashFirmware K (Some C) Firmware_Applet elf pb s = (Ok (), s\<lparr>world := w1\<rparr>)"
    and "I w1" and img: "img w1 = put_bytes (put_bytes (img (world s)) (elfBlock * 512) (flash_image elf))
           (taConfBlock * 512) (flash_image enc)"
    using flashFirmware_done [OF bc inv0 t cap(1) fits enc [unfolded conf] len(1)] by blast
  let ?max = "nat (MaxLength K)" and ?i = "img w1"
  have geo: "taConfBlock * 512 + 40960 \<le> elfBlock * 512" by (rule flash_target_geometry(1) [OF t])
  have enc': "int (length (flash_image enc)) \<le> 40960" using len(1) flash_image_fits [of enc 80] by simp
  have "get_bytes ?i (taConfBlock * 512) (length enc) = enc"
    unfolding img using get_put_bytes [of "length enc" "flash_image enc"] by (simp add: flash_image_def)
  then obtain rest where rest: "get_bytes ?i (taConfBlock * 512) ?max = enc @ rest"
    using len(2) get_bytes_append [of ?i "taConfBlock * 512" "length enc" "?max - length enc"] by simp
  have "get_bytes ?i (elfBlock * 512) (length elf)
      = get_bytes (put_bytes (img (world s)) (elfBlock * 512) (flash_image elf)) (elfBlock * 512) (length elf)"
    unfolding img using geo enc' by (intro get_put_disjoint) linarith
  then have fw: "get_bytes ?i (elfBlock * 512) (length elf) = elf"
    by (simp add: get_put_bytes flash_image_def)
  have bs: "BlockSize (card_Info C w1) = 512" by (rule block_card.block_size [OF bc \<open>I w1\<close>])
  obtain w2 where w2: "card_Read C (taConfBlock * 512) (int ?max) w1 = (Ok (enc @ rest), w2)"
      "I w2" "img w2 = ?i"
    using block_card.read_ok [OF bc \<open>I w1\<close>, of "taConfBlock * 512" ?max] rest len cap geo
    by (auto simp: layout_defs)
  obtain w3 where w3: "card_Read C (elfBlock * 512) (int (length elf)) w2 = (Ok elf, w3)"
    using block_card.read_ok [OF bc w2(2), of "elfBlock * 512" "length elf"] fw cap fits w2(3)
    by (auto simp: slotBytes_def)
  have upd: "updateApplet K verify (Some C) elf pb s = (Ok (), s\<lparr>world := w1\<rparr>)"
    using verified run by (simp add: updateApplet_def bindS_apply)
  have "int ?max = MaxLength K" using len by simp
  then have "read K C b = (Ok (bundle_of elf pb), b\<lparr>world := w3, appletLoadedFromBlock := elfBlock\<rparr>)" if "world b = w1" for b
    using that bs w2(1) w3 dec conf cap(2)
    by (simp add: read_def readConfig_def bindS_apply wrapS_apply onWorld_apply expectedBlockSize_def
        bundle_of_def)
  with upd block(2) show ?thesis by blast
qed

section \<open>Rejected updates\<close>

text \<open>A firmware image whose bundle does not verify is not installed. Neither update function
  writes anything, on any card, when the verifier rejects the bundle made of the image and its
  proofs, and the verifier's error is what the caller gets.\<close>

lemma update_rejects_unverified:
  assumes "verify (bundle_of elf pb) = Err e"
  shows "updateApplet K verify storage elf pb s = (Err e, s)
    \<and> updateOS K verify storage elf pb s = (Err e, s)"
  using assms by (simp add: updateApplet_def updateOS_def bindS_apply)

section \<open>The crash log\<close>

lemma maxLogSize_eq: "maxLogSize = 1048576"
  by (simp add: maxLogSize_def layout_defs)

text \<open>What is kept of a log: its last mebibyte.\<close>

definition crash_log_tail :: "bytes \<Rightarrow> bytes" where
  "crash_log_tail l = drop (length l - maxLogSize) l"

lemma storeAppletCrashLog_eq:
  "storeAppletCrashLog C l =
     card_WriteBlocks C crashLogBlock (crash_log_tail l @ zeros (maxLogSize - length l))"
  by (simp add: storeAppletCrashLog_def crash_log_tail_def Let_def zeros_def)

lemma zeros_0: "zeros 0 = []"
  by (simp add: zeros_def)

lemma index_byte_zeros [simp]: "index_byte (zeros n) 0 = (if n = 0 then -1 else 0)"
  by (cases n) (simp_all add: zeros_def)

text \<open>The crash log round trip. On a working card that reaches the crash log area, storing a
  log succeeds and the next retrieval returns its last mebibyte if the log is not empty and has no
  zero byte; an empty log comes back as a mebibyte of zeros. A shorter log replaces a longer one
  completely.\<close>

lemma crash_log_reads_back:
  assumes bc: "block_card C img I cap" and "I w" and cap: "crashLogBlock + crashLogNumBlocks \<le> cap"
    and zero: "0 \<notin> set l"
  shows "\<exists>w1 w2. storeAppletCrashLog C l w = (Ok (), w1)
    \<and> retrieveLastCrashLog C w1 = (Ok (if l = [] then zeros maxLogSize else crash_log_tail l), w2)"
proof -
  let ?t = "crash_log_tail l" and ?z = "zeros (maxLogSize - length l)" and ?a = "crashLogBlock * 512"
  have len: "length (?t @ ?z) = maxLogSize" by (simp add: crash_log_tail_def)
  obtain w1 where w1: "storeAppletCrashLog C l w = (Ok (), w1)" "I w1"
      "img w1 = put_bytes (img w) ?a (?t @ ?z)"
    unfolding storeAppletCrashLog_eq
    by (rule block_card.write_ok [OF bc \<open>I w\<close>, of crashLogBlock "?t @ ?z"])
      (use len cap in \<open>simp_all add: maxLogSize_eq layout_defs\<close>)
  obtain w2 where w2: "card_Read C ?a (int maxLogSize) w1 = (Ok (get_bytes (img w1) ?a maxLogSize), w2)"
    by (rule block_card.read_ok [OF bc w1(2), of ?a maxLogSize])
      (use cap in \<open>simp_all add: maxLogSize_eq layout_defs\<close>)
  have img: "get_bytes (img w1) ?a maxLogSize = ?t @ ?z"
    using get_put_bytes [of maxLogSize "?t @ ?z" "img w" ?a] by (simp only: w1(3) len order_refl take_all)
  have nz: "0 \<notin> set ?t" using zero set_drop_subset [of _ l] by (auto simp: crash_log_tail_def)
  have "length ?t = min (length l) maxLogSize" by (simp add: crash_log_tail_def)
  then have t: "?t = [] \<longleftrightarrow> l = []" by (simp add: maxLogSize_eq min_def flip: length_0_conv split: if_splits)
  have "retrieveLastCrashLog C w1 = (Ok (if l = [] then zeros maxLogSize else ?t), w2)"
    using w2 img nz t
    by (cases "l = []") (simp_all add: retrieveLastCrashLog_def bindS_apply expectedBlockSize_def Let_def
        index_byte_absent zeros_0 maxLogSize_eq)
  with w1(1) show ?thesis by blast
qed

text \<open>The in-memory card of emulated runs is smaller than the crash log's address, so there
  storing and retrieving a crash log always fail and change nothing.\<close>

lemma crash_log_fake_card:
  "(\<exists>e. storeAppletCrashLog fake_ops l fc = (Err e, fc))
    \<and> (\<exists>e. retrieveLastCrashLog fake_ops fc = (Err e, fc))"
  by (simp add: storeAppletCrashLog_eq retrieveLastCrashLog_def fake_ops_def fake_WriteBlocks_def
      fake_Read_def bindS_apply layout_defs fakeCardBlockSize_def)

end
