(* ===== verification/Rpc.thy ===== *)
theory Rpc
  imports Handler Flash_Props
begin

text \<open>
  The RPC receiver that serves the applet's requests (\<open>src/trusted_os/rpc.go\<close>): one definition
  per method, on the state of \<open>Os\<close>. A result parameter is the value the method stores through
  its pointer, \<open>None\<close> where it stores nothing. Waiting for the applet's context to be done is
  recorded, not modelled.
\<close>

section \<open>Definitions\<close>

record FirmwareUpdate =
  fu_Sequence :: nat
  fu_Image :: bytes
  fu_Proof :: ProofBundle

text \<open>\<open>r.Ctx.Stop()\<close>; the context is nil until an applet is loaded.\<close>

definition Ctx_Stop :: "('w, 'v, unit) osio" where
  "Ctx_Stop = bindS (getS rpc_Ctx) (\<lambda>c. if c then emit CtxStop else haltS nil_dereference)"

definition RPC_Version :: "('w, 'v) board \<Rightarrow> string \<Rightarrow> ('w, 'v, unit) osio" where
  "RPC_Version E version =
     bindS (getS (\<lambda>s. SNVS_Available E (world s))) (\<lambda>available.
     if \<not> Native E \<or> \<not> available then retS ()
     else tryS (onRPMB (checkVersion (rpmb_driver E) (semvers E) taVersionSector version)) (\<lambda>r. case r of
         Inl _ \<Rightarrow> Ctx_Stop
       | Inr _ \<Rightarrow> retS ()))"

definition RPC_Config :: "('w, 'v) board \<Rightarrow> bytes \<Rightarrow> bool \<Rightarrow> ('w, 'v, bytes option) osio" where
  "RPC_Config E current wants_previous =
     bindS (getS rpc_Cfg) (\<lambda>cfg.
     bindS (modifyS (\<lambda>s. s\<lparr>rpc_Cfg := current\<rparr>)) (\<lambda>_.
     if cfg = [] then bindS (netStart E) (\<lambda>_. retS None)
     else retS (if wants_previous then Some cfg else None)))"

definition RPC_Address :: "('w, 'v) board \<Rightarrow> bytes \<Rightarrow> ('w, 'v, unit) osio" where
  "RPC_Address E mac = (if LAN E then emit (SetMAC mac) else retS ())"

definition RPC_Register :: "('w, 'v) board \<Rightarrow> Handler \<Rightarrow> ('w, 'v, unit) osio" where
  "RPC_Register E h =
     (if \<not> isAppletMemory (mem_layout E) (h_G h) \<or> \<not> isAppletMemory (mem_layout E) (h_P h)
      then failS (ErrorsNew ''invalid argument'')
      else modifyS (\<lambda>s. s\<lparr>appletHandlerG := h_G h, appletHandlerP := h_P h\<rparr>))"

text \<open>\<open>getStatus\<close> of \<open>src/trusted_os/ctl.go\<close>; the texts fixed at build time are arguments.\<close>

record build_info =
  bi_SRKHash :: string
  bi_Revision :: string
  bi_Build :: string

definition hex_digit :: "nat \<Rightarrow> char" where
  "hex_digit n = (if n < 10 then char_of (n + 48) else char_of (n + 55))"

definition hex_upper :: "bytes \<Rightarrow> string" where
  "hex_upper bs = concat (map (\<lambda>b. [hex_digit (unat b div 16), hex_digit (unat b mod 16)]) bs)"

definition MII_STATUS :: nat where "MII_STATUS = 1"

definition STATUS_LINK :: nat where "STATUS_LINK = 2"

text \<open>The status the applet reported, as a message.\<close>

definition api_WitnessStatus :: "rpc_WitnessStatus \<Rightarrow> WitnessStatus" where
  "api_WitnessStatus w = \<lparr>ws_Identity = rw_Identity w, ws_IP = rw_IP w, ws_IDAttestPublicKey = rw_IDAttestPublicKey w,
     ws_AttestedID = rw_AttestedID w, ws_AttestedBastionID = rw_AttestedBastionID w\<rparr>"

definition getStatus :: "build_info \<Rightarrow> ('w, 'v) board \<Rightarrow> ('w, 'v) os \<Rightarrow> Status" where
  "getStatus B E s = \<lparr>
     st_Serial = (if Native E then hex_upper (UniqueID (key_hardware E)) else []),
     st_HAB = (Native E \<and> SNVS_Available E (world s)),
     st_Revision = bi_Revision B, st_Build = bi_Build B,
     st_Version = Version_String (semvers E) (osVersion s), st_Runtime = runtime_text E,
     st_Link = (if LAN E then bit (PHY_Register E MII_STATUS (world s)) STATUS_LINK
                else if USB E then (case FrontPortMode E (world s) of (attached, err) \<Rightarrow> err \<noteq> None \<and> attached)
                else False),
     st_Witness = map_option api_WitnessStatus (witnessStatus s), st_IdentityCounter = 0, st_SRKHash = bi_SRKHash B,
     st_MAC = (if LAN E then LAN_MAC E (world s) else [])\<rparr>"

definition RPC_Status :: "build_info \<Rightarrow> ('w, 'v) board \<Rightarrow> bool \<Rightarrow> ('w, 'v, Status) osio" where
  "RPC_Status B E has_status =
     (if \<not> has_status then failS (ErrorsNew ''invalid argument'') else getS (getStatus B E))"

definition RPC_SetWitnessStatus :: "rpc_WitnessStatus \<Rightarrow> ('w, 'v, unit) osio" where
  "RPC_SetWitnessStatus w = modifyS (\<lambda>s. s\<lparr>witnessStatus := Some w\<rparr>)"

definition RPC_LED :: "('w, 'v) board \<Rightarrow> LEDStatus \<Rightarrow> ('w, 'v, unit) osio" where
  "RPC_LED E led =
     (if equal_fold (led_Name led) ''white'' then failS (ErrorsNew ''LED is secure only'')
      else onWorld (board_LED E (led_Name led) (led_On led)))"

definition missingStorage :: error where "missingStorage = ErrorsNew ''missing Storage''"

definition RPC_CardInfo :: "('w, 'v) board \<Rightarrow> ('w, 'v, CardInfo) osio" where
  "RPC_CardInfo E = (case Storage E of
      None \<Rightarrow> failS missingStorage
    | Some C \<Rightarrow> getS (\<lambda>s. card_Info C (world s)))"

definition RPC_WriteBlocks :: "('w, 'v) board \<Rightarrow> WriteBlocksArg \<Rightarrow> ('w, 'v, unit) osio" where
  "RPC_WriteBlocks E xfer = (case Storage E of
      None \<Rightarrow> failS missingStorage
    | Some C \<Rightarrow> onWorld (card_WriteBlocks C (wb_LBA xfer) (wb_Data xfer)))"

definition RPC_Read :: "('w, 'v) board \<Rightarrow> ReadArg \<Rightarrow> ('w, 'v, bytes) osio" where
  "RPC_Read E xfer = (case Storage E of
      None \<Rightarrow> failS missingStorage
    | Some C \<Rightarrow> onWorld (card_Read C (rd_Offset xfer) (rd_Size xfer)))"

definition RPC_WriteRPMB ::
  "('w, 'v) board \<Rightarrow> bytes \<Rightarrow> 32 word option \<Rightarrow> ('w, 'v, error option \<times> bytes \<times> 32 word option) osio" where
  "RPC_WriteRPMB E buf n = onRPMB (rb_transfer (rpmb_driver E) taUserSector buf n True)"

definition RPC_ReadRPMB ::
  "('w, 'v) board \<Rightarrow> bytes \<Rightarrow> 32 word option \<Rightarrow> ('w, 'v, error option \<times> bytes \<times> 32 word option) osio" where
  "RPC_ReadRPMB E buf n = onRPMB (rb_transfer (rpmb_driver E) taUserSector buf n False)"

text \<open>\<open>DeriveKey\<close> returns the caller's 32-byte key after the call. \<open>osDiversifier\<close> is the
  receiver's \<open>Diversifier\<close>, the hash of the applet's manifest verifier key.\<close>

definition RPC_DeriveKey ::
  "('w, 'v) board \<Rightarrow> bytes \<Rightarrow> bytes \<Rightarrow> bytes \<Rightarrow> ('w, 'v, bytes) osio" where
  "RPC_DeriveKey E osDiversifier diversifier k0 =
     bindS (getS (\<lambda>s. SNVS_Available E (world s))) (\<lambda>available.
     if Native E \<and> \<not> debug E \<and> \<not> available
     then failS (ErrorsNew ''Weird - SNVS not available but we are not in debug?!'')
     else if \<not> Native E \<and> debug E then retS k0
     else if \<not> Native E \<and> \<not> debug E
     then failS (ErrorsNew ''Weird - under emulation but we are not in debug?!'')
     else (case CAAM_DeriveKey (key_hardware E) of
         Some f \<Rightarrow> bindS (onWorld (f (sha256 (osDiversifier @ diversifier)) (length k0)))
                         (\<lambda>k. retS (go_copy k0 k))
       | None \<Rightarrow> (case DCP_DeriveKey (key_hardware E) of
           Some g \<Rightarrow> bindS (onWorld (g osDiversifier diversifier (-1))) (\<lambda>k. retS (go_copy k0 k))
         | None \<Rightarrow> failS (ErrorsNew ''unsupported hardware''))))"

definition RPC_HAB :: "('w, 'v) board \<Rightarrow> bytes \<Rightarrow> ('w, 'v, unit) osio" where
  "RPC_HAB E srk = onWorld (Activate (SNVS_Available E) (fuse_box E) (SwitchEndianness E) srk)"

definition RPC_GetInstalledVersions :: "('w, 'v, 'v InstalledVersions) osio" where
  "RPC_GetInstalledVersions = getS (\<lambda>s. \<lparr>iv_OS = osVersion s, iv_Applet = loadedAppletVersion s\<rparr>)"

definition RPC_Reboot :: "('w, 'v, unit) osio" where
  "RPC_Reboot = emit BoardReset"

definition RPC_InstallOS :: "('w, 'v) board \<Rightarrow> FirmwareUpdate \<Rightarrow> ('w, 'v, unit) osio" where
  "RPC_InstallOS E b =
     bindS (modifyS (\<lambda>s. s\<lparr>osFirmwareBuffer :=
        (if fu_Sequence b = 0 then [] else osFirmwareBuffer s) @ fu_Image b\<rparr>)) (\<lambda>_.
     if pb_Checkpoint (fu_Proof b) = [] then retS ()
     else
       bindS (getS osFirmwareBuffer) (\<lambda>fw.
       bindS (updateOS (boot_config E) (OSBundle_Verify E) (Storage E) fw (fu_Proof b)) (\<lambda>_.
       bindS Ctx_Stop (\<lambda>_.
       bindS (emit CtxWait) (\<lambda>_.
       RPC_Reboot)))))"

text \<open>\<open>InstallApplet\<close> resets the device before it returns; the goroutine it starts before, which waits for
  the applet and resets the device, comes too late to do anything.\<close>

definition RPC_InstallApplet :: "('w, 'v) board \<Rightarrow> FirmwareUpdate \<Rightarrow> ('w, 'v, unit) osio" where
  "RPC_InstallApplet E b =
     bindS (modifyS (\<lambda>s. s\<lparr>appletFirmwareBuffer :=
        (if fu_Sequence b = 0 then [] else appletFirmwareBuffer s) @ fu_Image b\<rparr>)) (\<lambda>_.
     if pb_Checkpoint (fu_Proof b) = [] then retS ()
     else
       bindS (getS appletFirmwareBuffer) (\<lambda>fw.
       bindS (updateApplet (boot_config E) (AppletBundle_Verify E) (Storage E) fw (fu_Proof b)) (\<lambda>_.
       bindS Ctx_Stop (\<lambda>_.
       RPC_Reboot))))"

text \<open>\<open>getConsoleLogs\<close> is the ring buffer in a debug build and nil otherwise.\<close>

definition RPC_ConsoleLog :: "bytes \<Rightarrow> bool \<Rightarrow> ('w, 'v, bytes) osio" where
  "RPC_ConsoleLog consoleLogs has_ret =
     (if \<not> has_ret then failS (ErrorsNew ''nil buffer passed'') else retS consoleLogs)"

definition RPC_CrashLog :: "('w, 'v) board \<Rightarrow> bool \<Rightarrow> ('w, 'v, bytes) osio" where
  "RPC_CrashLog E has_ret =
     (if \<not> has_ret then failS (ErrorsNew ''nil buffer passed'')
      else case Storage E of
        None \<Rightarrow> haltS nil_dereference
      | Some C \<Rightarrow> onWorld (retrieveLastCrashLog C))"

section \<open>Lemmas\<close>

lemma Ctx_Stop_apply: "Ctx_Stop s = (if rpc_Ctx s then (Ok (), s\<lparr>events := events s @ [CtxStop]\<rparr>) else (Halt nil_dereference, s))"
  by (simp add: Ctx_Stop_def bindS_apply)

text \<open>A sequence of install requests, stopping at the first error.\<close>

fun install_seq :: "(FirmwareUpdate \<Rightarrow> ('w, 'v, unit) osio) \<Rightarrow> FirmwareUpdate list \<Rightarrow> ('w, 'v, unit) osio" where
  "install_seq rpc [] = retS ()"
| "install_seq rpc (b # bs) = bindS (rpc b) (\<lambda>_. install_seq rpc bs)"

text \<open>An image cut into chunks: the requests before the last carry no proof.\<close>

definition no_proof :: ProofBundle where
  "no_proof = \<lparr>pb_Checkpoint = [], pb_Manifest = [], pb_LogIndex = 0, pb_InclusionProof = []\<rparr>"

fun chunked :: "nat \<Rightarrow> bytes list \<Rightarrow> ProofBundle \<Rightarrow> FirmwareUpdate list" where
  "chunked n [] pb = []"
| "chunked n [c] pb = [\<lparr>fu_Sequence = n, fu_Image = c, fu_Proof = pb\<rparr>]"
| "chunked n (c # d # cs) pb = \<lparr>fu_Sequence = n, fu_Image = c, fu_Proof = no_proof\<rparr> # chunked (Suc n) (d # cs) pb"

lemma InstallOS_partial:
  "pb_Checkpoint (fu_Proof b) = [] \<Longrightarrow> RPC_InstallOS E b s
     = (Ok (), s\<lparr>osFirmwareBuffer := (if fu_Sequence b = 0 then [] else osFirmwareBuffer s) @ fu_Image b\<rparr>)"
  by (simp add: RPC_InstallOS_def bindS_apply)

lemma InstallApplet_partial:
  "pb_Checkpoint (fu_Proof b) = [] \<Longrightarrow> RPC_InstallApplet E b s
     = (Ok (), s\<lparr>appletFirmwareBuffer := (if fu_Sequence b = 0 then [] else appletFirmwareBuffer s) @ fu_Image b\<rparr>)"
  by (simp add: RPC_InstallApplet_def bindS_apply)

text \<open>Two requests in a row are one with the joined image; so is a sequence of chunks, for any request
  with that law.\<close>

lemma InstallOS_join:
  "bindS (RPC_InstallOS E \<lparr>fu_Sequence = n, fu_Image = c, fu_Proof = no_proof\<rparr>)
     (\<lambda>_. RPC_InstallOS E \<lparr>fu_Sequence = Suc n, fu_Image = d, fu_Proof = pb\<rparr>) s
   = RPC_InstallOS E \<lparr>fu_Sequence = n, fu_Image = c @ d, fu_Proof = pb\<rparr> s"
  by (simp add: bindS_apply InstallOS_partial no_proof_def) (simp add: RPC_InstallOS_def bindS_apply)

lemma InstallApplet_join:
  "bindS (RPC_InstallApplet E \<lparr>fu_Sequence = n, fu_Image = c, fu_Proof = no_proof\<rparr>)
     (\<lambda>_. RPC_InstallApplet E \<lparr>fu_Sequence = Suc n, fu_Image = d, fu_Proof = pb\<rparr>) s
   = RPC_InstallApplet E \<lparr>fu_Sequence = n, fu_Image = c @ d, fu_Proof = pb\<rparr> s"
  by (simp add: bindS_apply InstallApplet_partial no_proof_def) (simp add: RPC_InstallApplet_def bindS_apply)

lemma install_seq_whole:
  assumes "\<And>n c d pb s. bindS (rpc \<lparr>fu_Sequence = n, fu_Image = c, fu_Proof = no_proof\<rparr>)
      (\<lambda>_. rpc \<lparr>fu_Sequence = Suc n, fu_Image = d, fu_Proof = pb\<rparr>) s = rpc \<lparr>fu_Sequence = n, fu_Image = c @ d, fu_Proof = pb\<rparr> s"
    and "cs \<noteq> []"
  shows "install_seq rpc (chunked n cs pb) s = rpc \<lparr>fu_Sequence = n, fu_Image = concat cs, fu_Proof = pb\<rparr> s"
  using assms(2)
proof (induction n cs pb arbitrary: s rule: chunked.induct)
  case (3 n c d cs pb)
  then have "install_seq rpc (chunked (Suc n) (d # cs) pb) = rpc \<lparr>fu_Sequence = Suc n, fu_Image = concat (d # cs), fu_Proof = pb\<rparr>"
    by (intro ext) simp
  with assms(1) [of n c "concat (d # cs)" pb s] show ?case by simp
qed (simp_all add: bindS_retS_right)

lemma leaves_update:
  assumes "\<And>s w. f (s\<lparr>world := w\<rparr>) = f s"
  shows "leaves f (updateOS K v st elf pb)" and "leaves f (updateApplet K v st elf pb)"
proof -
  have "leaves f (flashFirmware K st t elf pb)" for t
    unfolding flashFirmware_def
    by (auto intro!: keeps_rules assms split: option.split)
  then show "leaves f (updateOS K v st elf pb)" "leaves f (updateApplet K v st elf pb)"
    by (auto simp: updateOS_def updateApplet_def intro!: keeps_rules)
qed

section \<open>Properties\<close>

text \<open>C30: installing in chunks is installing at once. For any division of a firmware image into
  chunks sent with ascending sequence numbers from 0, the proof in the last, the sequence of
  install requests has exactly the effect and the result of one request with the whole image.\<close>

theorem install_chunks:
  assumes "cs \<noteq> []"
  shows "install_seq (RPC_InstallOS E) (chunked n cs pb) s
      = RPC_InstallOS E \<lparr>fu_Sequence = n, fu_Image = concat cs, fu_Proof = pb\<rparr> s
    \<and> install_seq (RPC_InstallApplet E) (chunked n cs pb) s
      = RPC_InstallApplet E \<lparr>fu_Sequence = n, fu_Image = concat cs, fu_Proof = pb\<rparr> s"
  using install_seq_whole [where rpc = "RPC_InstallOS E", OF InstallOS_join assms]
    install_seq_whole [where rpc = "RPC_InstallApplet E", OF InstallApplet_join assms] by simp

theorem install_chunks_witness:
  "install_seq (RPC_InstallOS demo_board) (chunked 0 [[1, 2], [3]] tiny_pb) demo_os
     = RPC_InstallOS demo_board \<lparr>fu_Sequence = 0, fu_Image = [1, 2, 3], fu_Proof = tiny_pb\<rparr> demo_os"
  using install_chunks [of "[[1, 2], [3]]" demo_board 0 tiny_pb demo_os] by simp

text \<open>The image an install request completes.\<close>

definition os_image :: "FirmwareUpdate \<Rightarrow> ('w, 'v) os \<Rightarrow> bytes" where
  "os_image b s = (if fu_Sequence b = 0 then [] else osFirmwareBuffer s) @ fu_Image b"

definition applet_image :: "FirmwareUpdate \<Rightarrow> ('w, 'v) os \<Rightarrow> bytes" where
  "applet_image b s = (if fu_Sequence b = 0 then [] else appletFirmwareBuffer s) @ fu_Image b"

lemma InstallOS_update:
  assumes "RPC_InstallOS E b s = (r, s')" and "events s' \<noteq> events s"
  shows "\<exists>s2. updateOS (boot_config E) (OSBundle_Verify E) (Storage E) (os_image b s) (fu_Proof b)
    (s\<lparr>osFirmwareBuffer := os_image b s\<rparr>) = (Ok (), s2)"
proof -
  let ?upd = "updateOS (boot_config E) (OSBundle_Verify E) (Storage E) (os_image b s) (fu_Proof b)
    (s\<lparr>osFirmwareBuffer := os_image b s\<rparr>)"
  obtain q s2 where u: "?upd = (q, s2)" by (cases ?upd)
  then have "events s2 = events s" using leavesD [OF leaves_update(1) [of events] u] by simp
  with assms u have "q = Ok ()"
    by (auto simp: RPC_InstallOS_def bindS_apply os_image_def split: if_splits res.splits)
  with u show ?thesis by simp
qed

lemma InstallApplet_update:
  assumes "RPC_InstallApplet E b s = (r, s')" and "events s' \<noteq> events s"
  shows "\<exists>s2. updateApplet (boot_config E) (AppletBundle_Verify E) (Storage E) (applet_image b s) (fu_Proof b)
    (s\<lparr>appletFirmwareBuffer := applet_image b s\<rparr>) = (Ok (), s2)"
proof -
  let ?upd = "updateApplet (boot_config E) (AppletBundle_Verify E) (Storage E) (applet_image b s) (fu_Proof b)
    (s\<lparr>appletFirmwareBuffer := applet_image b s\<rparr>)"
  obtain q s2 where u: "?upd = (q, s2)" by (cases ?upd)
  then have "events s2 = events s" using leavesD [OF leaves_update(2) [of events] u] by simp
  with assms u have "q = Ok ()"
    by (auto simp: RPC_InstallApplet_def bindS_apply applet_image_def split: if_splits res.splits)
  with u show ?thesis by simp
qed

text \<open>C6: an install request restarts the device only after a complete, verified update. If an install
  request causes any event at all (stopping the applet, a reset), then the collected image passed
  the verifier of its kind with the request's proof, and was flashed with its configuration
  without error.\<close>

theorem install_only_verified:
  shows "(RPC_InstallOS E b s = (r, s') \<and> events s' \<noteq> events s \<longrightarrow>
      OSBundle_Verify E (bundle_of (os_image b s) (fu_Proof b)) = Ok ()
      \<and> fst (flashFirmware (boot_config E) (Storage E) Firmware_OS (os_image b s) (fu_Proof b)
          (s\<lparr>osFirmwareBuffer := os_image b s\<rparr>)) = Ok ())
    \<and> (RPC_InstallApplet E b s = (r, s') \<and> events s' \<noteq> events s \<longrightarrow>
      AppletBundle_Verify E (bundle_of (applet_image b s) (fu_Proof b)) = Ok ()
      \<and> fst (flashFirmware (boot_config E) (Storage E) Firmware_Applet (applet_image b s) (fu_Proof b)
          (s\<lparr>appletFirmwareBuffer := applet_image b s\<rparr>)) = Ok ())"
  using InstallOS_update [of E b s r s'] InstallApplet_update [of E b s r s']
  by (auto simp: updateOS_def updateApplet_def elim!: bindS_OkE)

lemma demo_install:
  "\<exists>w. flashFirmware tiny_boot_codec (Some machine_card) Firmware_Applet [1, 2, 3] tiny_pb
     (demo_os\<lparr>appletFirmwareBuffer := [1, 2, 3]\<rparr>) = (Ok (), demo_os\<lparr>appletFirmwareBuffer := [1, 2, 3], world := w\<rparr>)"
proof -
  let ?s = "demo_os\<lparr>appletFirmwareBuffer := [1, 2, 3]\<rparr>"
  have t: "flash_target ?s Firmware_Applet = Some (taConfBlock, taBlockA)"
    by (simp add: flash_target_def layout_defs)
  obtain w where "flashFirmware tiny_boot_codec (Some machine_card) Firmware_Applet [1, 2, 3] tiny_pb ?s
      = (Ok (), ?s\<lparr>world := w\<rparr>)"
    by (rule flashFirmware_done [OF mc.block_card_axioms _ t, of "[1, 2, 3]" tiny_boot_codec tiny_pb "[3]"])
      (simp_all add: slotBytes_def tiny_boot_codec_def layout_defs)
  then show ?thesis by auto
qed

theorem install_only_verified_witness:
  "\<exists>s'. RPC_InstallApplet demo_board \<lparr>fu_Sequence = 0, fu_Image = [1, 2, 3], fu_Proof = tiny_pb\<rparr> demo_os = (Ok (), s')
    \<and> events s' = [CtxStop, BoardReset]
    \<and> AppletBundle_Verify demo_board (bundle_of [1, 2, 3] tiny_pb) = Ok ()"
proof -
  let ?b = "\<lparr>fu_Sequence = 0, fu_Image = [1, 2, 3], fu_Proof = tiny_pb\<rparr>"
  have v: "AppletBundle_Verify demo_board (bundle_of [1, 2, 3] tiny_pb) = Ok ()"
    by (simp add: demo_board_def bundle_of_def tiny_pb_def)
  have c: "pb_Checkpoint tiny_pb \<noteq> []" by (simp add: tiny_pb_def)
  obtain w where w: "flashFirmware tiny_boot_codec (Some machine_card) Firmware_Applet [1, 2, 3] tiny_pb
     (demo_os\<lparr>appletFirmwareBuffer := [1, 2, 3]\<rparr>) = (Ok (), demo_os\<lparr>appletFirmwareBuffer := [1, 2, 3], world := w\<rparr>)"
    using demo_install by blast
  obtain s' where run: "RPC_InstallApplet demo_board ?b demo_os = (Ok (), s')" "events s' = [CtxStop, BoardReset]"
    using v w c by (simp add: RPC_InstallApplet_def bindS_apply updateApplet_def Ctx_Stop_apply RPC_Reboot_def)
  from run install_only_verified [of demo_board ?b demo_os "Ok ()" s'] show ?thesis
    by (simp add: applet_image_def)
qed

text \<open>C17: the applet cannot reach the version epochs. On a device that follows the standard, with
  counters left, no RPMB write or read request of the applet changes any sector but the one
  allocated to it, whatever its data; the sectors holding the OS and applet versions keep their
  contents.\<close>

theorem applet_rpmb_confined:
  assumes "rpmb_device (rpmb_driver E) dkey dctr dmem" and "rpmb_partition s = Some p" and "init p"
    and "dkey (world s) = Some (key p)" and "dctr (world s) \<noteq> -1" and "x \<noteq> taUserSector"
  shows "dmem (world (snd (RPC_WriteRPMB E buf n s))) x = dmem (world s) x
    \<and> dmem (world (snd (RPC_ReadRPMB E buf n s))) = dmem (world s)
    \<and> osVersionSector \<noteq> taUserSector \<and> taVersionSector \<noteq> taUserSector"
proof -
  let ?hw = "rpmb_driver E" and ?w = "world s"
  obtain wc where wc: "Counter ?hw p True ?w = (Ok (dctr ?w), wc)" "dmem wc = dmem ?w"
    using rpmb_device.Counter_ok [OF assms(1,3,4)] rpmb_device.same_dev_def [OF assms(1)] by metis
  have big: "Write ?hw p y buf w = (Err (ErrorsNew ''transfer size must not exceed 256 bytes''), w)"
    "Read ?hw p y buf w = (Err (ErrorsNew ''transfer size must not exceed 256 bytes''), w)"
    if "256 < length buf" for y w
    using that by (simp_all add: Write_def Read_def transfer_def FrameLength_def)
  show ?thesis
  proof (cases "length buf \<le> 256")
    case True
    obtain w1 where w1: "Write ?hw p taUserSector buf ?w = (Ok (), w1)"
        "dmem w1 = (dmem ?w)(taUserSector := go_copy (zeros 256) buf)"
      using rpmb_device.Write_ok [OF assms(1,3,4,5) True] by blast
    obtain w2 b where w2: "Read ?hw p taUserSector buf ?w = (Ok b, w2)" "dmem w2 = dmem ?w"
      using rpmb_device.Read_ok [OF assms(1,3,4) True] rpmb_device.same_dev_def [OF assms(1)] by metis
    from w1 w2 assms(2,6) show ?thesis
      by (simp add: RPC_WriteRPMB_def RPC_ReadRPMB_def onRPMB_apply rb_transfer_def bindS_apply tryS_apply
          onDev_apply osVersionSector_def taVersionSector_def taUserSector_def)
  next
    case False
    with big wc assms(2) show ?thesis
      by (cases n) (simp_all add: RPC_WriteRPMB_def RPC_ReadRPMB_def onRPMB_apply rb_transfer_def bindS_apply
          tryS_apply onDev_apply osVersionSector_def taVersionSector_def taUserSector_def)
  qed
qed

theorem applet_rpmb_confined_witness:
  "emmc_sector (m_emmc (world (snd (RPC_WriteRPMB demo_board [1, 2, 3] None demo_os)))) osVersionSector
     = emmc_sector (m_emmc (world demo_os)) osVersionSector"
  using applet_rpmb_confined [of demo_board "\<lambda>m. e_key (m_emmc m)" "\<lambda>m. e_counter (m_emmc m)"
      "\<lambda>m. emmc_sector (m_emmc m)" demo_os demo_rpmb osVersionSector "[1, 2, 3]" None] mr.rpmb_device_axioms
  by (simp add: osVersionSector_def taUserSector_def)

text \<open>Requests of the applet that the OS refuses. An event handler outside the applet's memory is
  rejected and the registered one stays, so what is registered lies in applet memory; the white
  LED, however its name is spelled, cannot be switched.\<close>

lemma applet_requests_refused:
  shows "(isAppletMemory (mem_layout E) (appletHandlerG s) \<and> isAppletMemory (mem_layout E) (appletHandlerP s) \<longrightarrow>
      isAppletMemory (mem_layout E) (appletHandlerG (snd (RPC_Register E h s)))
      \<and> isAppletMemory (mem_layout E) (appletHandlerP (snd (RPC_Register E h s))))
    \<and> (\<not> (isAppletMemory (mem_layout E) (h_G h) \<and> isAppletMemory (mem_layout E) (h_P h)) \<longrightarrow>
      RPC_Register E h s = (Err (ErrorsNew ''invalid argument''), s))
    \<and> (map ascii_lower (led_Name led) = ''white'' \<longrightarrow>
      RPC_LED E led s = (Err (ErrorsNew ''LED is secure only''), s))"
  by (auto simp: RPC_Register_def RPC_LED_def equal_fold_def ascii_lower_def)

lemma char_119: "char_of (119 :: nat) = CHR ''w''"
  by code_simp

lemma applet_requests_refused_example:
  "RPC_LED demo_board \<lparr>led_Name = ''White'', led_On = True\<rparr> demo_os = (Err (ErrorsNew ''LED is secure only''), demo_os)
    \<and> RPC_Register demo_board \<lparr>h_G = 0x80000000, h_P = 0x90000000\<rparr> demo_os
        = (Err (ErrorsNew ''invalid argument''), demo_os)"
  using applet_requests_refused [of demo_board demo_os "\<lparr>h_G = 0x80000000, h_P = 0x90000000\<rparr>"
      "\<lparr>led_Name = ''White'', led_On = True\<rparr>"] char_119
  by (simp add: ascii_lower_def isAppletMemory_def mem_default_def)

text \<open>The version request, by the outcome of the check.\<close>

lemma RPC_Version_apply:
  assumes "Native E" and "SNVS_Available E (world s)" and "rpc_Ctx s"
    and "checkVersion (rpmb_driver E) (semvers E) taVersionSector str (rb_of s) = (q, t)"
  shows "RPC_Version E str s = (let s1 = s\<lparr>world := rb_dev t, rpmb_partition := partition t\<rparr> in
     case q of Ok _ \<Rightarrow> (Ok (), s1) | Err _ \<Rightarrow> (Ok (), s1\<lparr>events := events s @ [CtxStop]\<rparr>) | Halt m \<Rightarrow> (Halt m, s1))"
  using assms by (auto simp: RPC_Version_def bindS_apply tryS_apply Ctx_Stop_apply onRPMB_apply rb_of_def Let_def split: res.splits)

text \<open>C34: a rolled back applet is stopped. On secured hardware whose replay protected block follows the
  standard, let \<open>e\<close> be the applet version recorded. If the version the applet reports precedes \<open>e\<close>, its
  execution context is told to stop and what is recorded stays. If it does not (and its text can be
  recorded), the applet is not stopped and the later of the two versions is recorded. The request itself
  reports no error either way.\<close>

theorem version_rpc_stops_rollback:
  assumes "rollback_device (rpmb_driver E) dkey dctr dmem (semvers E)"
    and "Native E" and "SNVS_Available E (world s)" and "rpc_Ctx s"
    and "rb_ready dkey (rb_of s)" and "0 < rb_room dctr (rb_of s)"
    and "rb_stored (semvers E) dmem (rb_of s) taVersionSector = Ok e" and "NewVersion (semvers E) str = Ok v"
  shows "(LessThan (semvers E) v e \<longrightarrow> (\<exists>s'. RPC_Version E str s = (Ok (), s') \<and> events s' = events s @ [CtxStop]
        \<and> rb_stored (semvers E) dmem (rb_of s') = rb_stored (semvers E) dmem (rb_of s)))
    \<and> (\<not> LessThan (semvers E) v e \<and> length (Version_String (semvers E) v) \<le> 28 \<longrightarrow>
      (\<exists>s'. RPC_Version E str s = (Ok (), s') \<and> events s' = events s
        \<and> rb_stored (semvers E) dmem (rb_of s') taVersionSector = Ok (if LessThan (semvers E) e v then v else e)))"
proof (intro conjI impI)
  note store = rollback_device.axioms_store [OF assms(1)]
  note R = RPC_Version_apply [OF assms(2-4)]
  assume "LessThan (semvers E) v e"
  then obtain t where "checkVersion (rpmb_driver E) (semvers E) taVersionSector str (rb_of s) = (Err (ErrorsNew ''version mismatch''), t)"
    "rb_stored (semvers E) dmem t = rb_stored (semvers E) dmem (rb_of s)"
    using version_store.check_older [OF store assms(5,8,7)] by (auto simp: checkVersion_def)
  then show "\<exists>s'. RPC_Version E str s = (Ok (), s') \<and> events s' = events s @ [CtxStop]
      \<and> rb_stored (semvers E) dmem (rb_of s') = rb_stored (semvers E) dmem (rb_of s)"
    using R by (simp add: rb_of_def rb_stored_def fun_eq_iff)
next
  note store = rollback_device.axioms_store [OF assms(1)]
  note R = RPC_Version_apply [OF assms(2-4)]
  assume "\<not> LessThan (semvers E) v e \<and> length (Version_String (semvers E) v) \<le> 28"
  then obtain t where "checkVersion (rpmb_driver E) (semvers E) taVersionSector str (rb_of s) = (Ok (), t)"
    "rb_stored (semvers E) dmem t taVersionSector = Ok (if LessThan (semvers E) e v then v else e)"
    using version_store.check_ok [OF store assms(5,6,8) _ assms(7)] assms(7) by (auto simp: checkVersion_def rb_storable_def)
  then show "\<exists>s'. RPC_Version E str s = (Ok (), s') \<and> events s' = events s
      \<and> rb_stored (semvers E) dmem (rb_of s') taVersionSector = Ok (if LessThan (semvers E) e v then v else e)"
    using R by (simp add: rb_of_def rb_stored_def)
qed

text \<open>The machine for concrete runs after its applet reported version 1.2.3: then 1.2.2 is refused.\<close>

lemma demo_os_rb:
  "rb_ready (\<lambda>m. e_key (m_emmc m)) (rb_of demo_os)" "2 \<le> rb_room (\<lambda>m. e_counter (m_emmc m)) (rb_of demo_os)"
  "rb_stored tiny_semver (\<lambda>m. emmc_sector (m_emmc m)) (rb_of demo_os) x = Ok (0, 0, 0)"
  using demo_rb_ready(1,2) demo_rb_ready(3) [of x]
  by (simp_all add: rb_ready_def rb_room_def demo_rb_def rb_of_def rb_stored_def)

lemma demo_reported:
  obtains s1 where "RPC_Version demo_board ''1.2.3'' demo_os = (Ok (), s1)" and "rpc_Ctx s1" and "events s1 = []"
    and "rb_ready (\<lambda>m. e_key (m_emmc m)) (rb_of s1)" and "0 < rb_room (\<lambda>m. e_counter (m_emmc m)) (rb_of s1)"
    and "rb_stored tiny_semver (\<lambda>m. emmc_sector (m_emmc m)) (rb_of s1) taVersionSector = Ok (1, 2, 3)"
proof -
  obtain t where t: "checkVersion machine_rpmb tiny_semver taVersionSector ''1.2.3'' (rb_of demo_os) = (Ok (), t)"
      "rb_ready (\<lambda>m. e_key (m_emmc m)) t" "0 < rb_room (\<lambda>m. e_counter (m_emmc m)) t"
      "rb_stored tiny_semver (\<lambda>m. emmc_sector (m_emmc m)) t taVersionSector = Ok (1, 2, 3)"
    using mrb.check_ok [folded checkVersion_def, OF demo_os_rb(1) _ tiny_parse(1) tiny_storable demo_os_rb(3) [of taVersionSector]]
      demo_os_rb(2) by (auto simp: tiny_semver_def tiny_less_def)
  with RPC_Version_apply [of demo_board demo_os "''1.2.3''"] show ?thesis
    by (intro that [of "demo_os\<lparr>world := rb_dev t, rpmb_partition := partition t\<rparr>"])
      (simp_all add: rb_of_def rb_stored_def rb_ready_def rb_room_def)
qed

theorem version_rpc_stops_rollback_witness:
  "\<exists>s1 s2. RPC_Version demo_board ''1.2.3'' demo_os = (Ok (), s1) \<and> events s1 = []
    \<and> RPC_Version demo_board ''1.2.2'' s1 = (Ok (), s2) \<and> events s2 = [CtxStop]"
proof -
  obtain s1 where s1: "RPC_Version demo_board ''1.2.3'' demo_os = (Ok (), s1)" "rpc_Ctx s1" "events s1 = []"
    "rb_ready (\<lambda>m. e_key (m_emmc m)) (rb_of s1)" "0 < rb_room (\<lambda>m. e_counter (m_emmc m)) (rb_of s1)"
    "rb_stored tiny_semver (\<lambda>m. emmc_sector (m_emmc m)) (rb_of s1) taVersionSector = Ok (1, 2, 3)" by (rule demo_reported)
  have "LessThan tiny_semver (1, 2, 2) (1, 2, 3)" by (simp add: tiny_semver_def tiny_less_def)
  with version_rpc_stops_rollback [of demo_board "\<lambda>m. e_key (m_emmc m)" "\<lambda>m. e_counter (m_emmc m)" "\<lambda>m. emmc_sector (m_emmc m)"
      s1 "(1, 2, 3)" "''1.2.2''" "(1, 2, 2)"] mrb.rollback_device_axioms s1 tiny_parse(2)
  show ?thesis by auto
qed

end
