(* ===== verification/Debug_Build.thy ===== *)
theory Debug_Build
  imports Rpc
begin

text \<open>
  What differs between builds: the console of production builds (\<open>src/trusted_os/console.go\<close>)
  and of debug builds (\<open>src/trusted_os/debug.go\<close>), which keep the output in a ring buffer and
  inspect an applet that stopped with an error. The ring buffer package is a parameter, with its
  documented behaviour as the locale \<open>log_ring\<close>; Go's ELF and symbol table readers are a record
  of what the code asks of them.
\<close>

section \<open>The console\<close>

record 'r ring =
  ring_New :: "nat \<Rightarrow> 'r"
  ring_WriteByte :: "'r \<Rightarrow> byte \<Rightarrow> 'r \<times> error option"
  ring_Bytes :: "'r \<Rightarrow> bytes"

record 'r console =
  logBuffer :: 'r
  con_serial :: bool
  uart_out :: bytes
  serial_out :: bytes

definition debug_init :: "'r ring \<Rightarrow> 'r console" where
  "debug_init R = \<lparr>logBuffer = ring_New R (2 ^ 20), con_serial = False, uart_out = [], serial_out = []\<rparr>"

text \<open>\<open>printk\<close>; the error of the ring buffer is ignored.\<close>

definition debug_printk :: "'r ring \<Rightarrow> byte \<Rightarrow> 'r console \<Rightarrow> 'r console" where
  "debug_printk R c s =
     (let s1 = s\<lparr>uart_out := uart_out s @ [c], logBuffer := fst (ring_WriteByte R (logBuffer s) c)\<rparr>
      in if con_serial s1 then s1\<lparr>serial_out := serial_out s1 @ [c]\<rparr> else s1)"

definition debug_getConsoleLogs :: "'r ring \<Rightarrow> 'r console \<Rightarrow> bytes" where
  "debug_getConsoleLogs R s = ring_Bytes R (logBuffer s)"

text \<open>With a LAN board the output also goes to a serial port over USB; the variable is set even if
  its initialisation then fails.\<close>

definition debug_configureUART :: "bool \<Rightarrow> unit res \<Rightarrow> ('r console, unit) io" where
  "debug_configureUART lan serial_Init =
     (if \<not> lan then retS ()
      else bindS (modifyS (\<lambda>s. s\<lparr>con_serial := True\<rparr>)) (\<lambda>_. liftRes serial_Init))"

text \<open>The production console: no output, no logs.\<close>

definition prod_printk :: "byte \<Rightarrow> 'r console \<Rightarrow> 'r console" where
  "prod_printk c s = s"

definition prod_getConsoleLogs :: "'r console \<Rightarrow> bytes" where
  "prod_getConsoleLogs s = []"

definition prod_inspect :: "bytes \<Rightarrow> ('w, 'v, unit) osio" where
  "prod_inspect buf = retS ()"

definition prod_configureUART :: "('r console, unit) io" where
  "prod_configureUART = retS ()"

text \<open>Where the \<open>log\<close> package writes, and the serial port. The production build's \<open>init\<close> turns both off;
  the \<open>init\<close> of \<open>src/trusted_os/main.go\<close> points the log at the standard output in every build. Go
  runs the \<open>init\<close> functions of a package in the order of its files, so \<open>main.go\<close> comes later.\<close>

datatype log_output = Log_Stdout | Log_Discard

record log_setup =
  uart2_on :: bool
  log_to :: log_output

definition prod_console_init :: "log_setup \<Rightarrow> log_setup" where
  "prod_console_init l = l\<lparr>uart2_on := False, log_to := Log_Discard\<rparr>"

definition main_log_init :: "log_setup \<Rightarrow> log_setup" where
  "main_log_init l = l\<lparr>log_to := Log_Stdout\<rparr>"

definition package_log_init :: "bool \<Rightarrow> log_setup \<Rightarrow> log_setup" where
  "package_log_init dbg l = main_log_init (if dbg then l else prod_console_init l)"

text \<open>Printing a log message: the standard output ends in \<open>printk\<close>.\<close>

definition log_print :: "(byte \<Rightarrow> 'r console \<Rightarrow> 'r console) \<Rightarrow> log_setup \<Rightarrow> bytes \<Rightarrow> 'r console \<Rightarrow> 'r console" where
  "log_print printk l msg s = (if log_to l = Log_Stdout then fold printk msg s else s)"

text \<open>A production build is silent: the log is not discarded, since the later \<open>init\<close> undoes that, but
  \<open>printk\<close> drops every byte and the serial port stays off.\<close>

lemma production_is_silent:
  "log_to (package_log_init False l) = Log_Stdout" "\<not> uart2_on (package_log_init False l)"
  "log_print prod_printk l' msg s = s"
proof -
  show "log_print prod_printk l' msg s = s" by (induction msg) (auto simp: log_print_def prod_printk_def)
qed (simp_all add: package_log_init_def main_log_init_def prod_console_init_def)

section \<open>Inspecting a stopped applet\<close>

text \<open>Of an ELF file the code uses three sections and the symbols; a missing section is nil.\<close>

record elf_file =
  ef_text :: "64 word option"
  ef_pclntab :: "bytes res option"
  ef_symtab :: "bytes res option"
  ef_symbols :: "(string \<times> 64 word) list res"

record elf_tools =
  elf_NewFile :: "bytes \<Rightarrow> elf_file res"
  gosym_NewTable :: "bytes \<Rightarrow> 64 word \<Rightarrow> bytes \<Rightarrow> (64 word \<Rightarrow> string \<times> nat) res"

fun section_data :: "bytes res option \<Rightarrow> bytes res" where
  "section_data None = Halt nil_dereference"
| "section_data (Some r) = r"

text \<open>An error gives the empty text, a missing section dereferences nil.\<close>

definition fileLine :: "elf_tools \<Rightarrow> bytes \<Rightarrow> 32 word \<Rightarrow> string res" where
  "fileLine T buf pc = (case elf_NewFile T buf of
      Halt m \<Rightarrow> Halt m
    | Err _ \<Rightarrow> Ok []
    | Ok exe \<Rightarrow> (case ef_text exe of
        None \<Rightarrow> Halt nil_dereference
      | Some addr \<Rightarrow> (case section_data (ef_pclntab exe) of
          Halt m \<Rightarrow> Halt m
        | Err _ \<Rightarrow> Ok []
        | Ok lineTableData \<Rightarrow> (case section_data (ef_symtab exe) of
            Halt m \<Rightarrow> Halt m
          | Err _ \<Rightarrow> Ok []
          | Ok symTableData \<Rightarrow> (case gosym_NewTable T lineTableData addr symTableData of
              Halt m \<Rightarrow> Halt m
            | Err _ \<Rightarrow> Ok []
            | Ok PCToLine \<Rightarrow> (case PCToLine (ucast pc) of
                (file, line) \<Rightarrow> Ok (file @ '':'' @ show_nat line)))))))"

definition lookupSym :: "elf_tools \<Rightarrow> bytes \<Rightarrow> string \<Rightarrow> 64 word res" where
  "lookupSym T buf name = (case elf_NewFile T buf of
      Halt m \<Rightarrow> Halt m
    | Err e \<Rightarrow> Err e
    | Ok f \<Rightarrow> (case ef_symbols f of
        Halt m \<Rightarrow> Halt m
      | Err e \<Rightarrow> Err e
      | Ok syms \<Rightarrow> (case find (\<lambda>(n, _). n = name) syms of
          Some (_, v) \<Rightarrow> Ok v
        | None \<Rightarrow> Err (ErrorsNew ''symbol not found''))))"

text \<open>The symbols are looked up in the embedded image \<open>taELF\<close>, not in \<open>buf\<close>.\<close>

definition segfault :: "elf_tools \<Rightarrow> ('w, 'v) board \<Rightarrow> bytes \<Rightarrow> bytes \<Rightarrow> ('w, 'v, unit) osio" where
  "segfault T E taELF buf =
     bindS (wrapS ''could not find runtime.fatalthrow symbol'' (liftRes (lookupSym T taELF ''runtime.fatalthrow''))) (\<lambda>v.
     bindS (onCtx (\<lambda>c. c\<lparr>ctx_R0 := of_int (ExceptionVector c), ctx_R1 := ucast v, ctx_R2 := 0, ctx_R3 := ctx_R15 c\<rparr>)) (\<lambda>_.
     bindS (wrapS ''could not find runtime.CallOnG0 symbol'' (liftRes (lookupSym T taELF ''runtime.CallOnG0''))) (\<lambda>g.
     bindS (onCtx (\<lambda>c. c\<lparr>ctx_R15 := ucast g\<rparr>)) (\<lambda>_.
     Ctx_Run E))))"

text \<open>\<open>faults\<close>: the vectors \<open>UNDEFINED\<close>, \<open>PREFETCH_ABORT\<close> and \<open>DATA_ABORT\<close>.\<close>

definition debug_inspect ::
  "elf_tools \<Rightarrow> ('w, 'v) board \<Rightarrow> int list \<Rightarrow> bytes \<Rightarrow> bytes \<Rightarrow> ('w, 'v, unit) osio" where
  "debug_inspect T E faults taELF buf =
     bindS (getS ectx) (\<lambda>c.
     bindS (liftRes (fileLine T buf (ctx_R15 c))) (\<lambda>_.
     bindS (liftRes (fileLine T buf (ctx_R14 c))) (\<lambda>_.
     if ExceptionVector c \<in> set faults then segfault T E taELF buf else retS ())))"

section \<open>Lemmas: what the console keeps\<close>

text \<open>The documented behaviour of the ring buffer in its default mode: it starts empty, a byte
  written goes to the end, and a full buffer refuses bytes.\<close>

locale log_ring =
  fixes R :: "'r ring"
  assumes new_law: "ring_Bytes R (ring_New R n) = []"
    and write_law: "ring_Bytes R (fst (ring_WriteByte R (fold (\<lambda>c r. fst (ring_WriteByte R r c)) cs (ring_New R n)) c))
      = take n (ring_Bytes R (fold (\<lambda>c r. fst (ring_WriteByte R r c)) cs (ring_New R n)) @ [c])"
begin

lemma fold_bytes: "ring_Bytes R (fold (\<lambda>c r. fst (ring_WriteByte R r c)) cs (ring_New R n)) = take n cs"
proof (induction cs rule: rev_induct)
  case (snoc c cs)
  then show ?case using write_law [of cs n c] by (cases "length cs < n") simp_all
qed (simp add: new_law)

lemma printk_logBuffer:
  "logBuffer (fold (debug_printk R) cs s) = fold (\<lambda>c r. fst (ring_WriteByte R r c)) cs (logBuffer s)"
  by (induction cs arbitrary: s) (simp_all add: debug_printk_def Let_def)

lemma console_logs: "debug_getConsoleLogs R (fold (debug_printk R) cs (debug_init R)) = take (2 ^ 20) cs"
  by (simp only: debug_getConsoleLogs_def printk_logBuffer) (simp add: debug_init_def fold_bytes)

end

text \<open>A ring buffer as a list with its capacity.\<close>

definition list_ring :: "(nat \<times> bytes) ring" where
  "list_ring = \<lparr>ring_New = (\<lambda>n. (n, [])),
     ring_WriteByte = (\<lambda>(n, b) c. if length b < n then ((n, b @ [c]), None) else ((n, b), Some (External ''ringbuffer is full''))),
     ring_Bytes = snd\<rparr>"

lemma list_ring_fold:
  "fold (\<lambda>c r. fst (ring_WriteByte list_ring r c)) cs (ring_New list_ring n) = (n, take n cs)"
  by (induction cs rule: rev_induct) (auto simp: list_ring_def)

interpretation lr: log_ring list_ring
  by unfold_locales (simp_all add: list_ring_fold, simp_all add: list_ring_def)

lemma prod_printk_fold: "fold prod_printk cs s = s"
  by (induction cs) (simp_all add: prod_printk_def)

section \<open>Properties\<close>

text \<open>C40: the crash log and the console. In a debug build whose ring buffer behaves as documented, what
  is stored when the applet stops and retrieved afterwards is the first mebibyte of console output
  since the start: output after that, that near the crash included, is lost. In a production build
  the log retrieved is a mebibyte of zero bytes, whatever was printed. (For output without zero
  bytes, on a working card that reaches the crash log area.)\<close>

theorem crash_log_of_console:
  assumes ring: "log_ring R" and bc: "block_card C img I cap" "I w" "crashLogBlock + crashLogNumBlocks \<le> cap"
    and cs: "cs \<noteq> []" "0 \<notin> set cs"
  shows "(\<exists>w1 w2. storeAppletCrashLog C (debug_getConsoleLogs R (fold (debug_printk R) cs (debug_init R))) w = (Ok (), w1)
      \<and> retrieveLastCrashLog C w1 = (Ok (take (2 ^ 20) cs), w2))
    \<and> (\<exists>w1 w2. storeAppletCrashLog C (prod_getConsoleLogs (fold prod_printk cs s)) w = (Ok (), w1)
      \<and> retrieveLastCrashLog C w1 = (Ok (zeros (2 ^ 20)), w2))"
proof
  have "0 \<notin> set (take (2 ^ 20) cs)" using cs(2) by (meson in_set_takeD)
  moreover have "crash_log_tail (take (2 ^ 20) cs) = take (2 ^ 20) cs" by (simp add: crash_log_tail_def maxLogSize_eq)
  ultimately show "\<exists>w1 w2. storeAppletCrashLog C (debug_getConsoleLogs R (fold (debug_printk R) cs (debug_init R))) w = (Ok (), w1)
      \<and> retrieveLastCrashLog C w1 = (Ok (take (2 ^ 20) cs), w2)"
    using crash_log_reads_back [OF bc, of "take (2 ^ 20) cs"] cs(1) log_ring.console_logs [OF ring, of cs] by simp
  show "\<exists>w1 w2. storeAppletCrashLog C (prod_getConsoleLogs (fold prod_printk cs s)) w = (Ok (), w1)
      \<and> retrieveLastCrashLog C w1 = (Ok (zeros (2 ^ 20)), w2)"
    using crash_log_reads_back [OF bc, of "[]"] by (simp add: prod_getConsoleLogs_def maxLogSize_eq)
qed

theorem crash_log_of_console_witness:
  "\<exists>w1 w2. storeAppletCrashLog medium (debug_getConsoleLogs list_ring (fold (debug_printk list_ring) [66, 79, 79] (debug_init list_ring))) (\<lambda>_. 255)
      = (Ok (), w1)
    \<and> retrieveLastCrashLog medium w1 = (Ok [66, 79, 79], w2)"
  using crash_log_of_console [OF lr.log_ring_axioms md.block_card_axioms,
      where w = "\<lambda>_. 255" and cs = "[66, 79, 79]" and s = "debug_init list_ring"]
  by (simp add: mediumBlocks_def layout_defs)

text \<open>A faulting applet is sent to its own fault handler. In a debug build, when the applet stops
  with an undefined instruction or an abort and both symbols are in the embedded image, it runs once
  more, from \<open>runtime.CallOnG0\<close> with \<open>runtime.fatalthrow\<close>, the vector and the old program counter
  as arguments, and that run's result is the result; if a symbol is missing it does not run again
  and the error says so; after any other exception nothing happens.\<close>

lemma inspect_restarts_faults:
  assumes "fileLine T buf (ctx_R15 (ectx s)) = Ok t1" and "fileLine T buf (ctx_R14 (ectx s)) = Ok t2"
  shows "(ExceptionVector (ectx s) \<notin> set faults \<longrightarrow> debug_inspect T E faults taELF buf s = (Ok (), s))
    \<and> (\<forall>v g. ExceptionVector (ectx s) \<in> set faults \<and> lookupSym T taELF ''runtime.fatalthrow'' = Ok v
        \<and> lookupSym T taELF ''runtime.CallOnG0'' = Ok g \<longrightarrow>
        debug_inspect T E faults taELF buf s = Ctx_Run E (s\<lparr>ectx := (ectx s)\<lparr>
          ctx_R0 := of_int (ExceptionVector (ectx s)), ctx_R1 := ucast v, ctx_R2 := 0, ctx_R3 := ctx_R15 (ectx s),
          ctx_R15 := ucast g\<rparr>\<rparr>))
    \<and> (\<forall>e. ExceptionVector (ectx s) \<in> set faults \<and> (lookupSym T taELF ''runtime.fatalthrow'' = Err e
          \<or> is_Ok (lookupSym T taELF ''runtime.fatalthrow'') \<and> lookupSym T taELF ''runtime.CallOnG0'' = Err e) \<longrightarrow>
        (\<exists>msg s'. debug_inspect T E faults taELF buf s = (Err (Errorf msg e), s') \<and> events s' = events s))"
  using assms
  by (auto simp: debug_inspect_def segfault_def bindS_apply wrapS_apply is_Ok_iff)

definition demo_tools :: elf_tools where
  "demo_tools = \<lparr>elf_NewFile = (\<lambda>b. if b = [] then Err (External ''bad magic number'') else
       Ok \<lparr>ef_text = Some 0x90010000, ef_pclntab = Some (Ok []), ef_symtab = Some (Ok []),
         ef_symbols = Ok [(''runtime.fatalthrow'', 0x90010100), (''runtime.CallOnG0'', 0x90010200)]\<rparr>),
     gosym_NewTable = (\<lambda>_ _ _. Ok (\<lambda>pc. (''main.go'', unat pc mod 100)))\<rparr>"

lemma inspect_restarts_faults_example:
  "debug_inspect demo_tools demo_board [4, 0xc, 0x10] [1] [1] (demo_os\<lparr>ectx := demo_ctx\<lparr>ExceptionVector := 0x10\<rparr>\<rparr>)
     = (Ok (), demo_os\<lparr>ectx := demo_ctx\<lparr>ExceptionVector := 0x10,
         ctx_R0 := 0x10, ctx_R1 := 0x90010100, ctx_R2 := 0, ctx_R3 := 0, ctx_R15 := 0x90010200\<rparr>\<rparr>)"
proof -
  let ?s = "demo_os\<lparr>ectx := demo_ctx\<lparr>ExceptionVector := 0x10\<rparr>\<rparr>"
  have line: "\<exists>t. fileLine demo_tools [1] pc = Ok t" for pc by (simp add: fileLine_def demo_tools_def)
  obtain t1 t2 where "fileLine demo_tools [1] (ctx_R15 (ectx ?s)) = Ok t1"
      "fileLine demo_tools [1] (ctx_R14 (ectx ?s)) = Ok t2" using line by metis
  from inspect_restarts_faults [OF this, of "[4, 0xc, 0x10]" demo_board "[1]"] show ?thesis
    by (simp add: lookupSym_def demo_tools_def) (simp add: demo_ctx_def)
qed

end
