(* ===== verification/Boot.thy ===== *)
theory Boot
  imports Rpc
begin

text \<open>
  Start-up of the Trusted OS (\<open>main\<close> of \<open>src/trusted_os/main.go\<close>): detection of the
  storage, rollback protection on secured hardware, creation of the bundle verifiers, choice of
  the applet, and one round of the applet loop. \<open>log.Fatal\<close> ends the run (\<open>Halt\<close>). The
  note verifiers, the decoder of the embedded proof bundle and the manifest parser are
  parameters. The rest of \<open>main\<close> (USB control set-up, LED) and the hardware calls of \<open>init\<close> are in
  theory \<open>System\<close>. \<open>note.NewVerifier\<close> is a parameter that tells whether a key text is valid.
\<close>

section \<open>Definitions\<close>

text \<open>What is fixed when the OS image is built, and the library functions applied to it:
  \<open>manifest_versions\<close> gives the release and runtime versions in the manifest that \<open>Verify\<close> returns
  for a bundle, with and without an error.\<close>

record 'v os_image =
  img_Version :: string
  img_LogVerifier :: string
  img_AppletManifestVerifier :: string
  img_OSManifestVerifier1 :: string
  img_OSManifestVerifier2 :: string
  img_taELF :: bytes
  img_taProofBundle :: bytes
  NewVerifier_ok :: "string \<Rightarrow> bool"
  decode_proof_bundle :: "bytes \<Rightarrow> Bundle \<times> error option"
  manifest_versions :: "Bundle \<Rightarrow> bool \<Rightarrow> 'v \<times> 'v"

text \<open>\<open>init\<close> chooses the interfaces by the board: the applet's network (\<open>USB\<close> or \<open>LAN\<close>), and the
  port of the control interface. An unknown model (\<open>None\<close>: none of the cases) gets none of them;
  outside hardware (\<open>Native\<close> false) there is only the network.\<close>

datatype board_model = BETA | GAMMA | LAN_model

datatype port = USB1 | USB2 | ENET1 | ENET2

record interfaces =
  if_USB :: "port option"
  if_LAN :: "port option"
  if_Control :: "port option"
  if_RingSize :: nat

definition init_interfaces :: "bool \<Rightarrow> board_model option \<Rightarrow> interfaces" where
  "init_interfaces native model =
     (let none = \<lparr>if_USB = None, if_LAN = None, if_Control = None, if_RingSize = 0\<rparr> in
      if native then
        case model of
          Some LAN_model \<Rightarrow> none\<lparr>if_LAN := Some ENET2, if_RingSize := 512, if_Control := Some USB1\<rparr>
        | Some _ \<Rightarrow> none\<lparr>if_USB := Some USB1, if_Control := Some USB2\<rparr>
        | None \<Rightarrow> none
      else none\<lparr>if_LAN := Some ENET1, if_RingSize := 512\<rparr>)"

text \<open>Whatever the board, the applet's network and the control interface never share a port, and
  only one of the two networks is in use.\<close>

lemma init_interfaces_disjoint:
  "if_USB (init_interfaces n m) = None \<or> if_LAN (init_interfaces n m) = None"
  "if_Control (init_interfaces n m) = Some p \<Longrightarrow>
     if_USB (init_interfaces n m) \<noteq> Some p \<and> if_LAN (init_interfaces n m) \<noteq> Some p \<and> n"
  by (auto simp: init_interfaces_def Let_def split: if_splits option.splits board_model.splits)

definition fatalS :: "string \<Rightarrow> ('s, 'a) io \<Rightarrow> ('s, 'a) io" where
  "fatalS msg m = tryS m (\<lambda>r. case r of Inl _ \<Rightarrow> haltS msg | Inr x \<Rightarrow> retS x)"

definition detect_storage :: "('w, 'v) board \<Rightarrow> ('w, 'v, unit) osio" where
  "detect_storage E = (case Storage E of
      None \<Rightarrow> retS ()
    | Some C \<Rightarrow> fatalS ''SM failed to detect storage'' (onWorld (card_Detect C)))"

definition rollback_checks :: "('w, 'v) board \<Rightarrow> string \<Rightarrow> ('w, 'v, unit) osio" where
  "rollback_checks E version =
     bindS (getS (\<lambda>s. SNVS_Available E (world s))) (\<lambda>available.
     if Native E \<and> available
     then
       bindS (fatalS ''SM could not initialize rollback protection''
                (onRPMB (init_rpmb (key_hardware E) (fuse_box E) (rpmb_driver E)))) (\<lambda>_.
       fatalS ''SM firmware rollback check failure''
         (onRPMB (checkVersion (rpmb_driver E) (semvers E) osVersionSector version)))
     else retS ())"

definition createBundleVerifier :: "(string \<Rightarrow> bool) \<Rightarrow> string list \<Rightarrow> string list res" where
  "createBundleVerifier valid vs =
     (case find (\<lambda>v. \<not> valid v) vs of
        Some v \<Rightarrow> Err (ErrorsNew (''invalid manifest verifier '' @ v))
      | None \<Rightarrow> Ok vs)"

definition create_verifiers :: "'v os_image \<Rightarrow> ('w, 'v, unit) osio" where
  "create_verifiers I =
     (if \<not> NewVerifier_ok I (img_LogVerifier I) then haltS ''SM invalid AppletLogVerifier''
      else
        bindS (fatalS ''SM failed to create applet bundle verifier''
                 (liftRes (createBundleVerifier (NewVerifier_ok I) [img_AppletManifestVerifier I]))) (\<lambda>_.
        bindS (fatalS ''SM failed to create OS bundle verifier''
                 (liftRes (createBundleVerifier (NewVerifier_ok I)
                    [img_OSManifestVerifier1 I, img_OSManifestVerifier2 I]))) (\<lambda>_.
        retS ())))"

text \<open>The first steps of \<open>main\<close>: LEDs off (errors ignored), storage, and a fresh RPC receiver whose
  \<open>RPMB\<close> has no partition yet, neither configuration nor applet.\<close>

definition led_off :: "('w, 'v) board \<Rightarrow> string \<Rightarrow> ('w, 'v, unit) osio" where
  "led_off E colour = tryS (onWorld (board_LED E colour False)) (\<lambda>_. retS ())"

definition power_up :: "('w, 'v) board \<Rightarrow> ('w, 'v, unit) osio" where
  "power_up E =
     bindS (led_off E ''blue'') (\<lambda>_.
     bindS (led_off E ''white'') (\<lambda>_.
     bindS (detect_storage E) (\<lambda>_.
     modifyS (\<lambda>s. s\<lparr>rpmb_partition := None, rpc_Cfg := [], rpc_Ctx := False\<rparr>))))"

text \<open>The part of \<open>main\<close> up to the choice of the applet.\<close>

definition boot_prepare :: "('w, 'v) board \<Rightarrow> 'v os_image \<Rightarrow> ('w, 'v, unit) osio" where
  "boot_prepare E I =
     (let version = trim_prefix (img_Version I) ''v'' in
      bindS (power_up E) (\<lambda>_.
      bindS (rollback_checks E version) (\<lambda>_.
      bindS (case Storage E of
               None \<Rightarrow> haltS nil_dereference
             | Some C \<Rightarrow> tryS (determineLoadedOSBlock (boot_config E) C) (\<lambda>_. retS ())) (\<lambda>_.
      bindS (create_verifiers I) (\<lambda>_.
      case NewVersion (semvers E) version of
        Ok v \<Rightarrow> modifyS (\<lambda>s. s\<lparr>osVersion := v\<rparr>)
      | _ \<Rightarrow> retS ())))))"

text \<open>The applet: embedded, with its decoded proof even if decoding failed, or read from storage.\<close>

definition select_applet :: "('w, 'v) board \<Rightarrow> 'v os_image \<Rightarrow> ('w, 'v, Bundle option) osio" where
  "select_applet E I =
     (if img_taELF I \<noteq> [] \<and> img_taProofBundle I \<noteq> []
      then retS (Some ((fst (decode_proof_bundle I (img_taProofBundle I)))\<lparr>fb_Firmware := img_taELF I\<rparr>))
      else case Storage E of
        None \<Rightarrow> haltS nil_dereference
      | Some C \<Rightarrow> tryS (read (boot_config E) C) (\<lambda>r. case r of
            Inl _ \<Rightarrow> retS None
          | Inr b \<Rightarrow> retS (Some b)))"

text \<open>One round of the applet goroutine's loop. A verification error is only logged, and the manifest
  returned with it is used. If the image cannot be loaded the context is nil,
  and waiting for it dereferences a nil pointer.\<close>

definition applet_round ::
  "('w, 'v) board \<Rightarrow> 'v os_image \<Rightarrow> ('w, 'v, unit) osio \<Rightarrow> bytes \<Rightarrow> Bundle \<Rightarrow> ('w, 'v, unit) osio" where
  "applet_round E I inspect consoleLogs ta =
     tryS (liftRes (AppletBundle_Verify E ta)) (\<lambda>verified.
     case manifest_versions I ta (verified = Inr ()) of (tag, rt) \<Rightarrow>
     bindS (modifyS (\<lambda>s. s\<lparr>loadedAppletVersion := tag\<rparr>)) (\<lambda>_.
     bindS (configureWakeHandler E rt) (\<lambda>_.
     bindS (tryS (onWorld (board_LED E ''white'' True)) (\<lambda>_. retS ())) (\<lambda>_.
     bindS (loadApplet E inspect (fb_Firmware ta)) (\<lambda>(loaded, err).
     if \<not> loaded then haltS nil_dereference
     else
       bindS (emit CtxWait) (\<lambda>_.
       case Storage E of
         None \<Rightarrow> haltS nil_dereference
       | Some C \<Rightarrow> tryS (onWorld (storeAppletCrashLog C consoleLogs)) (\<lambda>_. retS ())))))))"

section \<open>Lemmas: initialisation on a programmed device\<close>

lemma rpmb_ready_onRPMB:
  "onRPMB m s = (r, s') \<longleftrightarrow>
     (\<exists>t. m \<lparr>rb_dev = world s, is_usdhc = rpmb_is_usdhc s, partition = rpmb_partition s\<rparr> = (r, t)
        \<and> s' = s\<lparr>world := rb_dev t, rpmb_partition := partition t\<rparr>)"
  by (auto simp: onRPMB_apply split: prod.splits)

lemma go_copy_key: "length k = 32 \<Longrightarrow> go_copy (zeros keyLen) k = k"
  by (simp add: keyLen_def)

text \<open>With the flag fused and the derived key programmed, initialisation writes the dummy sector,
  which costs one step of the write counter, and sets up the partition.\<close>

lemma init_rpmb_programmed:
  assumes dev: "rpmb_device hw dkey dctr dmem"
    and derive: "\<And>s. derive_key ks s = (Ok dk, s)"
    and flag: "\<And>w. ReadOCOTP Z rpmbFuseBank rpmbFuseWord 0 1 w = (Ok [1], w)"
    and k: "k = pbkdf2_Key ks dk (UniqueID ks) iter 32" "length k = 32"
    and mmc: "hw_MMC hw (rb_dev s)" and "is_usdhc s" and key: "dkey (rb_dev s) = Some k" and "dctr (rb_dev s) \<noteq> -1"
  shows "\<exists>s'. init_rpmb ks Z hw s = (Ok (), s') \<and> partition s' = Some \<lparr>key = k, init = True\<rparr>
    \<and> dkey (rb_dev s') = Some k \<and> dctr (rb_dev s') = dctr (rb_dev s) + 1 \<and> is_usdhc s'
    \<and> (\<forall>x. x \<noteq> dummySector \<longrightarrow> dmem (rb_dev s') x = dmem (rb_dev s) x)"
proof -
  let ?p = "\<lparr>key = k, init = True\<rparr>"
  obtain w1 where w1: "Write hw ?p dummySector [] (rb_dev s) = (Ok (), w1)" "dkey w1 = dkey (rb_dev s)"
      "dctr w1 = dctr (rb_dev s) + 1" "dmem w1 = (dmem (rb_dev s))(dummySector := go_copy (zeros 256) [])"
    using rpmb_device.Write_ok [OF dev, of ?p "rb_dev s" "[]" dummySector] key assms(9) by auto
  have "dkey w1 = Some (key ?p)" using w1(2) key by simp
  then obtain w2 where w2: "Counter hw ?p False w1 = (Ok (dctr w1), w2)" "dkey w2 = dkey w1"
      "dctr w2 = dctr w1" "dmem w2 = dmem w1"
    using rpmb_device.Counter_ok [OF dev, of ?p w1 False] rpmb_device.same_dev_def [OF dev] by auto
  have "isProgrammed Z s = (Ok True, s)" by (simp add: isProgrammed_def bindS_apply wrapS_apply onDev_apply flag)
  moreover have "Init (Some hw) k dummySector True (rb_dev s) = (Ok ?p, w1)"
    using mmc k(2) w1(1) by (simp add: Init_def bindS_apply keyLen_def Let_def)
  ultimately have "init_rpmb ks Z hw s = (Ok (), s\<lparr>rb_dev := w2, partition := Some ?p\<rparr>)"
    using derive k(1) assms(7) w2(1)
    by (simp add: init_rpmb_def bindS_apply rpmb_Init_def tryS_apply onDev_apply init_tail_def)
  with w1 w2 key assms(7) show ?thesis by simp
qed

section \<open>Lemmas: initialisation on a blank device\<close>

context rpmb_device
begin

lemma Counter_blank_auth:
  assumes "init p" and "dkey w = None"
  shows "\<exists>e w'. Counter hw p True w = (Err e, w') \<and> same_dev w w'"
proof -
  let ?req = "zero_frame\<lparr>Req := WriteCounterRead\<rparr>"
  let ?cfg = "zero_config\<lparr>RandomNonce := True, ResponseMAC := True\<rparr>"
  have mac: "op_request_mac p ?req ?cfg = ?req" by (simp add: op_request_mac_def zero_config_def)
  obtain rq v where rq: "op_nonce hw ?req ?cfg w = (Ok rq, v)" "frame_ok rq"
      "rq = ?req\<lparr>Nonce := Nonce rq\<rparr>" and same: "same_dev w v"
    using op_nonce_ok [of ?req ?cfg w] by auto
  have kind: "Req rq = WriteCounterRead" by (subst rq(3)) simp
  from same assms(2) have "dkey v = None" by (simp add: same_dev_def)
  from counter_read_blank [OF rq(2) kind this] obtain w1 w2 r where
    ex: "hw_WriteRPMB hw (Bytes rq) False v = (Ok (), w1)"
      "hw_ReadRPMB hw FrameLength w1 = (Ok (Bytes r), w2)"
    and r: "frame_ok r" "be16 (Result r) = AuthenticationKeyNotYetProgrammed" and s2: "same_dev v w2"
    by (auto simp: same_dev_def)
  have "op hw p ?req ?cfg w = (op_validate p rq ?cfg (go_copy (zeros FrameLength) (Bytes r)), w2)"
    using assms(1) rq(1) mac ex kind
    by (intro op_eval [where v = v]) (simp_all add: op_reliable_def message_types zero_config_def)
  moreover have "\<exists>e. op_validate p rq ?cfg (go_copy (zeros FrameLength) (Bytes r)) = Err e"
    using r by (auto simp: op_validate_def result_codes)
  ultimately show ?thesis using same s2 by (auto simp: Counter_def bindS_apply same_dev_def)
qed

lemma Write_blank:
  assumes "init p" and "dkey w = None"
  shows "\<exists>e w'. Write hw p x [] w = (Err e, w') \<and> same_dev w w'"
proof -
  obtain e w' where "Counter hw p True w = (Err e, w')" "same_dev w w'"
    using Counter_blank_auth [OF assms] by blast
  then show ?thesis by (simp add: Write_def transfer_def FrameLength_def Let_def bindS_apply)
qed

end

section \<open>Properties\<close>

text \<open>C4: the operating system cannot be rolled back. On secured hardware with the RPMB key programmed,
  a device that follows the standard with writes left, and storage detected (state \<open>s\<close>): if the OS version precedes the one
  recorded, start-up ends with a fatal error before any applet is chosen; otherwise the checks
  pass and the more recent version is recorded.\<close>

theorem boot_refuses_rollback:
  assumes dev: "rollback_device (rpmb_driver E) dkey dctr dmem (semvers E)"
    and hw: "Native E" "SNVS_Available E (world s)" "hw_MMC (rpmb_driver E) (world s)" "rpmb_is_usdhc s"
    and derive: "\<And>t. derive_key (key_hardware E) t = (Ok dk, t)"
    and flag: "\<And>w. ReadOCOTP (fuse_box E) rpmbFuseBank rpmbFuseWord 0 1 w = (Ok [1], w)"
    and key: "dkey (world s) = Some (pbkdf2_Key (key_hardware E) dk (UniqueID (key_hardware E)) iter 32)"
      "length (pbkdf2_Key (key_hardware E) dk (UniqueID (key_hardware E)) iter 32) = 32"
    and ctr: "dctr (world s) \<noteq> -1" "dctr (world s) + 1 \<noteq> -1"
    and v: "NewVersion (semvers E) (trim_prefix (img_Version I) ''v'') = Ok v" "rb_storable (semvers E) v"
    and e: "decode_version (semvers E) (take versionLength (dmem (world s) osVersionSector)) = Ok e"
    and det: "power_up E s0 = (Ok (), s)"
  shows "(LessThan (semvers E) v e \<longrightarrow>
      fst (boot_prepare E I s0) = Halt ''SM firmware rollback check failure'')
    \<and> (\<not> LessThan (semvers E) v e \<longrightarrow>
      (\<exists>s'. rollback_checks E (trim_prefix (img_Version I) ''v'') s = (Ok (), s')
        \<and> decode_version (semvers E) (take versionLength (dmem (world s') osVersionSector))
            = Ok (if LessThan (semvers E) e v then v else e)))"
proof -
  let ?ver = "trim_prefix (img_Version I) ''v''" and ?hw = "rpmb_driver E" and ?sv = "semvers E"
  let ?r0 = "\<lparr>rb_dev = world s, is_usdhc = rpmb_is_usdhc s, partition = rpmb_partition s\<rparr>"
  have rd: "rpmb_device ?hw dkey dctr dmem" by (rule rollback_device.axioms(1) [OF dev])
  obtain r1 where r1: "init_rpmb (key_hardware E) (fuse_box E) ?hw ?r0 = (Ok (), r1)"
      "partition r1 = Some \<lparr>key = pbkdf2_Key (key_hardware E) dk (UniqueID (key_hardware E)) iter 32, init = True\<rparr>"
      "dkey (rb_dev r1) = dkey (world s)" "dctr (rb_dev r1) = dctr (world s) + 1" "is_usdhc r1"
      "dmem (rb_dev r1) osVersionSector = dmem (world s) osVersionSector"
    using init_rpmb_programmed [OF rd derive flag refl key(2), of ?r0] hw key ctr
    by (auto simp: dummySector_def osVersionSector_def)
  let ?s1 = "s\<lparr>world := rb_dev r1, rpmb_partition := partition r1\<rparr>"
  let ?r1 = "\<lparr>rb_dev = rb_dev r1, is_usdhc = rpmb_is_usdhc s, partition = partition r1\<rparr>"
  have ready: "rb_ready dkey ?r1" using r1(2,3) key(1) by (simp add: rb_ready_def)
  have "- 1 - dctr (rb_dev r1) \<noteq> 0" using ctr(2) r1(4) by (metis eq_iff_diff_eq_0)
  then have room: "0 < rb_room dctr ?r1" by (simp add: rb_room_def unat_gt_0)
  have stored: "rb_stored ?sv dmem ?r1 osVersionSector = Ok e" using e r1(6) by (simp add: rb_stored_def)
  obtain r2 where r2: "checkVersion ?hw ?sv osVersionSector ?ver ?r1
      = (if LessThan ?sv v e then Err (ErrorsNew ''version mismatch'') else Ok (), r2)"
      "rb_stored ?sv dmem r2 = (if LessThan ?sv e v then (rb_stored ?sv dmem ?r1)(osVersionSector := Ok v)
         else rb_stored ?sv dmem ?r1)"
    using version_store.check_ok [OF rollback_device.axioms_store [OF dev] ready room v stored]
    by (auto simp: checkVersion_def)
  have init: "onRPMB (init_rpmb (key_hardware E) (fuse_box E) ?hw) s = (Ok (), ?s1)"
    using r1(1) by (simp add: onRPMB_apply)
  have chk: "rollback_checks E ?ver s = (if LessThan ?sv v e then Halt ''SM firmware rollback check failure'' else Ok (),
      ?s1\<lparr>world := rb_dev r2, rpmb_partition := partition r2\<rparr>)"
    using hw(1,2) init r2(1)
    by (simp add: rollback_checks_def bindS_apply fatalS_def tryS_apply onRPMB_apply [of "checkVersion _ _ _ _"])
  have "rb_stored ?sv dmem r2 osVersionSector = Ok (if LessThan ?sv e v then v else e)"
    using r2(2) stored by simp
  then show ?thesis using chk det by (auto simp: boot_prepare_def bindS_apply rb_stored_def Let_def)
qed

text \<open>A machine whose program key flag is blown, and an OS image for it.\<close>

definition fused_board :: "(machine, nat \<times> nat \<times> nat) board" where
  "fused_board = demo_board\<lparr>fuse_box := blown_flag\<rparr>"

definition demo_image :: "(nat \<times> nat \<times> nat) os_image" where
  "demo_image = \<lparr>img_Version = ''v1.2.3'', img_LogVerifier = ''log'', img_AppletManifestVerifier = ''applet'',
     img_OSManifestVerifier1 = ''os1'', img_OSManifestVerifier2 = ''os2'', img_taELF = [], img_taProofBundle = [],
     NewVerifier_ok = (\<lambda>_. True), decode_proof_bundle = (\<lambda>b. (bundle_of [] tiny_pb, None)),
     manifest_versions = (\<lambda>_ _. ((1, 0, 0), (1, 2, 5)))\<rparr>"

definition demo_booted :: "(machine, nat \<times> nat \<times> nat) os" where
  "demo_booted = demo_os\<lparr>rpmb_partition := None, rpc_Cfg := [], rpc_Ctx := False\<rparr>"

lemma demo_booted_simps [simp]:
  "world demo_booted = world demo_os" "rpmb_is_usdhc demo_booted"
  by (simp_all add: demo_booted_def)

theorem boot_refuses_rollback_witness:
  "\<exists>s'. rollback_checks fused_board ''1.2.3'' demo_booted = (Ok (), s')
    \<and> decode_version tiny_semver (take versionLength (emmc_sector (m_emmc (world s')) osVersionSector)) = Ok (1, 2, 3)"
proof -
  have b: "semvers fused_board = tiny_semver" "rpmb_driver fused_board = machine_rpmb" "Native fused_board"
    "key_hardware fused_board = demo_keys" "fuse_box fused_board = blown_flag" "SNVS_Available fused_board w"
    "power_up fused_board demo_os = (Ok (), demo_booted)" for w
    by (simp_all add: fused_board_def power_up_def led_off_def detect_storage_def fatalS_def tryS_apply bindS_apply
          onWorld_apply demo_booted_def)
      (simp_all add: demo_board_def machine_card_def on_card_def zoomS_apply fake_Detect_def tryS_apply
          bindS_apply onWorld_apply)
  have v: "trim_prefix (img_Version demo_image) ''v'' = ''1.2.3''" by (simp add: demo_image_def trim_prefix_def)
  have d: "derive_key demo_keys t = (Ok (zeros 32), t)" for t :: "machine rb_state"
    by (simp add: derive_key_def demo_keys_def wrapS_apply onDev_apply)
  have k: "pbkdf2_Key demo_keys (zeros 32) u n 32 = zeros 32" for u n by (simp add: demo_keys_def)
  have st: "decode_version tiny_semver (take versionLength (zeros 256)) = Ok (0, 0, 0)"
    using demo_rb_ready(3) by (simp add: rb_stored_def demo_rb_def)
  have hw: "hw_MMC machine_rpmb m" and fl: "ReadOCOTP blown_flag b w p n m = (Ok [1], m)" for m b w p n
    by (simp_all add: machine_rpmb_def emmc_hw_def blown_flag_def)
  have st': "decode_version tiny_semver (take versionLength (emmc_sector (m_emmc (world demo_booted)) osVersionSector))
      = Ok (0, 0, 0)" using st by simp
  have m: "e_key (m_emmc (world demo_booted)) = Some (zeros 32)" "length (zeros 32) = 32"
    "e_counter (m_emmc (world demo_booted)) \<noteq> -1" "e_counter (m_emmc (world demo_booted)) + 1 \<noteq> -1" by simp_all
  have us: "rpmb_is_usdhc demo_booted" by simp
  have lt: "\<not> LessThan tiny_semver (1, 2, 3) (0, 0, 0)" "LessThan tiny_semver (0, 0, 0) (1, 2, 3)"
    by (simp_all add: tiny_semver_def tiny_less_def)
  from boot_refuses_rollback [where E = fused_board and I = demo_image and dk = "zeros 32" and s = demo_booted and ?s0.0 = demo_os
      and v = "(1, 2, 3)" and e = "(0, 0, 0)", unfolded b(1,2,4,5) v k, OF mrb.rollback_device_axioms b(3,6) hw us d fl m tiny_parse(1) tiny_storable st' b(7)] lt
  show ?thesis by auto
qed

text \<open>The verifier is not looked at again once the round has its result.\<close>

lemma round_verify_fields:
  "run_applet (E\<lparr>AppletBundle_Verify := v\<rparr>) = run_applet E"
  "loadApplet (E\<lparr>AppletBundle_Verify := v\<rparr>) inspect elf = loadApplet E inspect elf"
  "configureWakeHandler (E\<lparr>AppletBundle_Verify := v\<rparr>) rt = configureWakeHandler E rt"
proof -
  show run: "run_applet (E\<lparr>AppletBundle_Verify := v\<rparr>) = run_applet E"
    by (simp add: run_applet_def fun_eq_iff cong: sum.case_cong)
  show "loadApplet (E\<lparr>AppletBundle_Verify := v\<rparr>) inspect elf = loadApplet E inspect elf"
    "configureWakeHandler (E\<lparr>AppletBundle_Verify := v\<rparr>) rt = configureWakeHandler E rt"
    by (simp_all add: loadApplet_def run configureWakeHandler_def cong: sum.case_cong)
qed

text \<open>C28: an applet that fails verification is run. Let the verifier refuse the bundle. Then a round of the
  applet loop is exactly the round with a verifier that accepts every bundle and returns the manifest that
  this one returned with its error. In particular, if the firmware can be loaded, the round comes to the
  point where the monitor is told to run it (seen with a monitor that stops dead there): the execution
  context is the one loaded from the unverified firmware, the requests of the applet are served, and the
  version reported for it is the one of that manifest.\<close>

theorem applet_round_ignores_verification:
  assumes "AppletBundle_Verify E ta = Err e"
  shows "applet_round E I inspect logs ta s
      = applet_round (E\<lparr>AppletBundle_Verify := (\<lambda>_. Ok ())\<rparr>) (I\<lparr>manifest_versions := (\<lambda>b _. manifest_versions I b False)\<rparr>) inspect logs ta s
    \<and> ((\<forall>w. \<exists>w'. ELF_Load E (fb_Firmware ta) w = (Ok entry, w')) \<and> (\<forall>w. \<exists>w'. Monitor_Load E entry w = (Ok c, w'))
        \<and> (\<forall>w m. fst (board_LED E ''white'' True w) \<noteq> Halt m)
        \<and> (\<forall>t \<in> {handler123Cutover, handler124Cutover, handler125Cutover}. is_Ok (NewVersion (semvers E) t)) \<longrightarrow>
      (\<exists>s'. applet_round (E\<lparr>Ctx_Run := haltS ''applet runs''\<rparr>) I inspect logs ta s = (Halt ''applet runs'', s')
        \<and> ectx s' = c\<lparr>ctx_R13 := applet_end E, SPSR := bits_Clear E (SPSR c) CPSR_FIQ\<rparr>
        \<and> rpc_Ctx s' \<and> loadedAppletVersion s' = fst (manifest_versions I ta False)))"
proof (intro conjI impI, goal_cases)
  case 1
  show ?case using assms by (simp add: applet_round_def tryS_apply round_verify_fields split: prod.splits cong: if_cong)
next
  case 2
  then obtain c1 c2 c3 where "NewVersion (semvers E) handler123Cutover = Ok c1" "NewVersion (semvers E) handler124Cutover = Ok c2"
    "NewVersion (semvers E) handler125Cutover = Ok c3" by (auto simp: is_Ok_iff)
  then have h: "configureWakeHandler (E\<lparr>Ctx_Run := haltS ''applet runs''\<rparr>) rt t
      = (Ok (), t\<lparr>wHandler := Some (choose_wake_handler (semvers E) c1 c2 c3 rt)\<rparr>)" for rt t
    by (simp add: configureWakeHandler_def bindS_apply semver_New_def)
  obtain tag rt where m: "manifest_versions I ta False = (tag, rt)" by (cases "manifest_versions I ta False")
  obtain q w1 where led: "board_LED E ''white'' True (world s) = (q, w1)" by (cases "board_LED E ''white'' True (world s)")
  then have q: "\<forall>m. q \<noteq> Halt m" using 2 by (metis fst_conv)
  obtain w2 where elf: "ELF_Load E (fb_Firmware ta) w1 = (Ok entry, w2)" using 2 by blast
  obtain w3 where mon: "Monitor_Load E entry w2 = (Ok c, w3)" using 2 by blast
  show ?case using assms m h led q elf mon
    by (cases q) (simp_all add: applet_round_def tryS_apply bindS_apply onWorld_apply loadApplet_def run_applet_def)
qed

definition lenient_board :: "(machine, nat \<times> nat \<times> nat) board" where
  "lenient_board = demo_board\<lparr>semvers := tiny_semver\<lparr>NewVersion := (\<lambda>_. Ok (1, 2, 3))\<rparr>\<rparr>"

theorem applet_round_ignores_verification_witness:
  "\<exists>s'. applet_round (lenient_board\<lparr>Ctx_Run := haltS ''applet runs''\<rparr>) demo_image (retS ()) [] (bundle_of [6, 6, 6] no_proof) demo_os
      = (Halt ''applet runs'', s') \<and> rpc_Ctx s' \<and> loadedAppletVersion s' = (1, 0, 0)"
proof -
  have B: "AppletBundle_Verify lenient_board (bundle_of [6, 6, 6] no_proof) = Err EOF"
    "ELF_Load lenient_board b w = (Ok 0x90010000, w)" "Monitor_Load lenient_board n w = (Ok (demo_ctx\<lparr>ctx_R15 := n\<rparr>), w)"
    "fst (board_LED lenient_board ''white'' True w) \<noteq> Halt m" "is_Ok (NewVersion (semvers lenient_board) t)" for b n w m t
    by (simp_all add: lenient_board_def) (simp_all add: demo_board_def bundle_of_def no_proof_def)
  from applet_round_ignores_verification [OF B(1), of demo_image "retS ()" "[]" demo_os "0x90010000"
      "demo_ctx\<lparr>ctx_R15 := 0x90010000\<rparr>", THEN conjunct2] B(2-5)
  show ?thesis by (auto simp: demo_image_def)
qed

text \<open>C27: first boots. On a blank device that follows the standard: with the program key flag clear,
  initialisation blows the flag, programs the derived key and sets up the partition. But if the
  flag is already blown and the key was never programmed (say, the power failed in between),
  initialisation fails, sends no key, and so it does at every later boot.\<close>

theorem init_rpmb_blank:
  assumes dev: "rpmb_device hw dkey dctr dmem"
    and derive: "\<And>s. derive_key ks s = (Ok dk, s)"
    and k: "k = pbkdf2_Key ks dk (UniqueID ks) iter 32" "length k = 32"
    and mmc: "hw_MMC hw (rb_dev s)" and "is_usdhc s" and blank: "dkey (rb_dev s) = None"
    and read: "\<And>w. ReadOCOTP Z rpmbFuseBank rpmbFuseWord 0 1 w = (Ok [flag], w)"
    and blow: "\<And>w. BlowOCOTP Z rpmbFuseBank rpmbFuseWord 0 1 [1] w = (Ok (), blow_flag w)
      \<and> dkey (blow_flag w) = dkey w"
  shows "(flag = 0 \<longrightarrow> (\<exists>s'. init_rpmb ks Z hw s = (Ok (), s') \<and> dkey (rb_dev s') = Some k
      \<and> partition s' = Some \<lparr>key = k, init = True\<rparr>))
    \<and> (flag = 1 \<longrightarrow> (\<exists>e s'. init_rpmb ks Z hw s = (Err e, s') \<and> dkey (rb_dev s') = None \<and> partition s' = None))"
proof (intro conjI impI)
  let ?p = "\<lparr>key = k, init = True\<rparr>"
  have prog: "isProgrammed Z s = (Ok (flag = 1), s)"
    by (simp add: isProgrammed_def bindS_apply wrapS_apply onDev_apply read)
  assume f: "flag = 0"
  have "Init (Some hw) k dummySector False (rb_dev s) = (Ok ?p, rb_dev s)"
    using mmc k(2) by (simp add: Init_def bindS_apply keyLen_def Let_def)
  moreover obtain w1 where w1: "Counter hw ?p False (rb_dev s)
      = (Err (OperationError AuthenticationKeyNotYetProgrammed), w1)" "dkey w1 = None"
    using rpmb_device.Counter_blank [OF dev, of ?p "rb_dev s"] blank rpmb_device.same_dev_def [OF dev] by auto
  moreover have "dkey (blow_flag w1) = None" using blow w1(2) by simp
  then obtain w2 where w2: "ProgramKey hw ?p (blow_flag w1) = (Ok (), w2)" "dkey w2 = Some k"
    using rpmb_device.ProgramKey_ok [OF dev, of ?p "blow_flag w1"] k(2) by auto
  ultimately have "init_rpmb ks Z hw s = (Ok (), s\<lparr>rb_dev := w2, partition := Some ?p\<rparr>)"
    using derive prog k(1) f blow assms(6)
    by (simp add: init_rpmb_def bindS_apply rpmb_Init_def tryS_apply onDev_apply init_tail_def wrapS_apply)
  with w2 show "\<exists>s'. init_rpmb ks Z hw s = (Ok (), s') \<and> dkey (rb_dev s') = Some k \<and> partition s' = Some ?p"
    by simp
next
  let ?p = "\<lparr>key = k, init = True\<rparr>"
  assume f: "flag = 1"
  obtain e w1 where "Write hw ?p dummySector [] (rb_dev s) = (Err e, w1)" "dkey w1 = None"
    using rpmb_device.Write_blank [OF dev, of ?p "rb_dev s" dummySector] blank rpmb_device.same_dev_def [OF dev] by auto
  moreover from this have "Init (Some hw) k dummySector True (rb_dev s) = (Err e, w1)"
    using mmc k(2) by (simp add: Init_def bindS_apply keyLen_def Let_def)
  moreover have "isProgrammed Z s = (Ok True, s)"
    by (simp add: isProgrammed_def bindS_apply wrapS_apply onDev_apply read f)
  ultimately show "\<exists>e s'. init_rpmb ks Z hw s = (Err e, s') \<and> dkey (rb_dev s') = None \<and> partition s' = None"
    using derive k(1) assms(6)
    by (simp add: init_rpmb_def bindS_apply rpmb_Init_def tryS_apply onDev_apply)
qed

theorem init_rpmb_blank_witness:
  "\<exists>e s'. init_rpmb demo_keys blown_flag emmc_hw (newRPMB True (demo_emmc\<lparr>e_key := None\<rparr>)) = (Err e, s')
    \<and> e_key (rb_dev s') = None"
proof -
  have d: "derive_key demo_keys t = (Ok (zeros 32), t)" for t :: "emmc rb_state"
    by (simp add: derive_key_def demo_keys_def wrapS_apply onDev_apply)
  have k: "zeros 32 = pbkdf2_Key demo_keys (zeros 32) (UniqueID demo_keys) iter 32" by (simp add: demo_keys_def)
  show ?thesis
    using init_rpmb_blank [OF ref_dev.rpmb_device_axioms d k, of "newRPMB True (demo_emmc\<lparr>e_key := None\<rparr>)" blown_flag 1
        "\<lambda>w. w"]
    by (auto simp: newRPMB_def emmc_hw_def blown_flag_def)
qed

end
