(* ===== verification/Proofbundle.thy ===== *)
theory Proofbundle
  imports Boot
begin

text \<open>
  The build tool \<open>proofbundle\<close> (\<open>src/cmd/proofbundle/main.go\<close>), which fetches the proofs for an
  applet from the firmware transparency log and writes the bundle that the OS image embeds. Files,
  HTTP, URLs, signed notes, the log client, the bundle verifier and the gob encoding are the record
  \<open>pb_env\<close>, of which \<open>'h\<close> is the state, \<open>'u\<close> a URL, \<open>'k\<close> a note verifier and \<open>'l\<close> a log state
  tracker. \<open>klog.Exitf\<close> ends the run (\<open>Halt\<close>).
\<close>

section \<open>Definitions\<close>

record 'h http_response =
  StatusCode :: nat
  StatusText :: string
  read_body :: "('h, bytes) io"

type_synonym 'h fetcher = "string \<Rightarrow> ('h, bytes) io"

record ('h, 'u, 'k, 'l) pb_env =
  os_ReadFile :: "string \<Rightarrow> ('h, bytes) io"
  os_WriteFile :: "string \<Rightarrow> bytes \<Rightarrow> ('h, unit) io"
  url_Parse :: "string \<Rightarrow> 'u res"
  url_Resolve :: "'u \<Rightarrow> string \<Rightarrow> 'u res"
  url_Scheme :: "'u \<Rightarrow> string"
  url_Path :: "'u \<Rightarrow> string"
  http_NewRequest :: "'u \<Rightarrow> unit res"
  http_Do :: "'u \<Rightarrow> ('h, 'h http_response) io"
  note_NewVerifier :: "string \<Rightarrow> 'k res"
  note_Open :: "bytes \<Rightarrow> 'k \<Rightarrow> string res"
  json_Release :: "string \<Rightarrow> unit res"
  NewLogStateTracker :: "'h fetcher \<Rightarrow> 'k \<Rightarrow> string \<Rightarrow> ('h, 'l \<times> error option) io"
  lst_Update :: "'l \<Rightarrow> ('h, 'l) io"
  LatestConsistentRaw :: "'l \<Rightarrow> bytes"
  HashLeaf :: "bytes \<Rightarrow> bytes"
  LookupIndex :: "'h fetcher \<Rightarrow> bytes \<Rightarrow> ('h, 64 word) io"
  InclusionProof :: "'l \<Rightarrow> 64 word \<Rightarrow> ('h, bytes list) io"
  Bundle_Verify :: "string \<Rightarrow> 'k \<Rightarrow> 'k list \<Rightarrow> Bundle \<Rightarrow> unit res"
  gob_Encode :: "Bundle \<Rightarrow> bytes \<times> error option"

record pb_flags =
  outputFile :: string
  logBaseURL :: string
  logOrigin :: string
  logPubKeyFile :: string
  appletFile :: string
  manifestFile :: string
  manifestPubKeyFile :: string

definition exitS :: "string \<Rightarrow> ('h, 'a) io \<Rightarrow> ('h, 'a) io" where
  "exitS msg m = tryS m (\<lambda>r. case r of Inl e \<Rightarrow> haltS (msg @ '': '' @ error_text e) | Inr x \<Rightarrow> retS x)"

definition verifierOrDie :: "('h, 'u, 'k, 'l) pb_env \<Rightarrow> string \<Rightarrow> string \<Rightarrow> ('h, 'k) io" where
  "verifierOrDie P p thing =
     bindS (exitS (''Failed to read '' @ thing @ '' pub key file '' @ p) (os_ReadFile P p)) (\<lambda>vs.
     exitS (''Invalid '' @ thing @ '' note verifier string'') (liftRes (note_NewVerifier P (string_of_bytes vs))))"

definition loadManifestOrDie :: "('h, 'u, 'k, 'l) pb_env \<Rightarrow> string \<Rightarrow> 'k \<Rightarrow> ('h, bytes) io" where
  "loadManifestOrDie P p v =
     bindS (exitS (''Failed to read manifest '' @ p) (os_ReadFile P p)) (\<lambda>b.
     bindS (exitS ''Failed to verify manifest'' (liftRes (note_Open P b v))) (\<lambda>txt.
     bindS (exitS ''Invalid manifest contents'' (liftRes (json_Release P txt))) (\<lambda>_.
     retS b)))"

definition ErrNotExist :: error where "ErrNotExist = External ''file does not exist''"

definition readHTTP :: "('h, 'u, 'k, 'l) pb_env \<Rightarrow> 'u \<Rightarrow> ('h, bytes) io" where
  "readHTTP P u =
     bindS (liftRes (http_NewRequest P u)) (\<lambda>_.
     bindS (http_Do P u) (\<lambda>resp.
     if StatusCode resp = 404 then failS ErrNotExist
     else if StatusCode resp = 200 then read_body resp
     else failS (ErrorsNew (''unexpected http status '' @ StatusText resp))))"

definition getByScheme :: "('h, 'u, 'k, 'l) pb_env \<Rightarrow> string \<rightharpoonup> ('u \<Rightarrow> ('h, bytes) io)" where
  "getByScheme P = [''http'' \<mapsto> readHTTP P, ''https'' \<mapsto> readHTTP P, ''file'' \<mapsto> (\<lambda>u. os_ReadFile P (url_Path P u))]"

definition newFetcherOrDie :: "('h, 'u, 'k, 'l) pb_env \<Rightarrow> string \<Rightarrow> ('h, 'h fetcher) io" where
  "newFetcherOrDie P logURL =
     bindS (exitS ''Couldn't parse log_url'' (liftRes (url_Parse P logURL))) (\<lambda>root.
     case getByScheme P (url_Scheme P root) of
       None \<Rightarrow> haltS (''Unsupported URL scheme '' @ url_Scheme P root)
     | Some get \<Rightarrow> retS (\<lambda>p. bindS (liftRes (url_Resolve P root p)) get))"

text \<open>The error of \<open>NewLogStateTracker\<close> is overwritten before it is looked at, and after encoding the
  code looks at an older error, which is nil: what was encoded is written in any case.\<close>

definition proofbundle_main :: "('h, 'u, 'k, 'l) pb_env \<Rightarrow> pb_flags \<Rightarrow> ('h, unit) io" where
  "proofbundle_main P F =
     bindS (verifierOrDie P (manifestPubKeyFile F) ''manifest'') (\<lambda>mv.
     bindS (loadManifestOrDie P (manifestFile F) mv) (\<lambda>manifest.
     bindS (exitS (''Failed to read applet '' @ appletFile F) (os_ReadFile P (appletFile F))) (\<lambda>fwBin.
     bindS (newFetcherOrDie P (logBaseURL F)) (\<lambda>logFetcher.
     bindS (verifierOrDie P (logPubKeyFile F) ''log'') (\<lambda>logVerifier.
     bindS (NewLogStateTracker P logFetcher logVerifier (logOrigin F)) (\<lambda>(lst0, _).
     bindS (exitS ''Update'' (lst_Update P lst0)) (\<lambda>lst.
     bindS (exitS ''LookupIndex'' (LookupIndex P logFetcher (HashLeaf P manifest))) (\<lambda>idx.
     bindS (exitS ''InclusionProof'' (InclusionProof P lst idx)) (\<lambda>incP.
     let bundle = \<lparr>fb_Checkpoint = LatestConsistentRaw P lst, fb_Index = idx, fb_InclusionProof = incP,
           fb_Manifest = manifest, fb_Firmware = fwBin\<rparr> in
     bindS (exitS ''Failed to verify proof bundle'' (liftRes (Bundle_Verify P (logOrigin F) logVerifier [mv] bundle))) (\<lambda>_.
     exitS ''WriteFile'' (os_WriteFile P (outputFile F) (fst (gob_Encode P (bundle\<lparr>fb_Firmware := []\<rparr>))))))))))))))"

section \<open>Lemmas\<close>

lemma exitS_Ok: "exitS msg m s = (Ok x, s') \<longleftrightarrow> m s = (Ok x, s')"
  by (auto simp: exitS_def tryS_apply split: prod.splits res.splits)

lemma verifierOrDie_Ok:
  "verifierOrDie P p thing s = (Ok v, s') \<longleftrightarrow>
     (\<exists>t. os_ReadFile P p s = (Ok t, s') \<and> note_NewVerifier P (string_of_bytes t) = Ok v)"
  by (auto simp: verifierOrDie_def bindS_apply exitS_Ok split: prod.splits res.splits)
    (auto simp: exitS_def tryS_apply split: res.splits)

lemma loadManifestOrDie_Ok:
  "loadManifestOrDie P p v s = (Ok b, s') \<longleftrightarrow>
     (\<exists>txt. os_ReadFile P p s = (Ok b, s') \<and> note_Open P b v = Ok txt \<and> json_Release P txt = Ok ())"
  by (auto simp: loadManifestOrDie_def bindS_apply exitS_def tryS_apply split: prod.splits res.splits)

text \<open>Only three URL schemes are fetched.\<close>

lemma newFetcher_schemes:
  assumes "newFetcherOrDie P logURL s = (Ok f, s')"
  shows "\<exists>u. url_Parse P logURL = Ok u \<and> url_Scheme P u \<in> {''http'', ''https'', ''file''}"
  using assms
  by (auto simp: newFetcherOrDie_def bindS_apply exitS_def tryS_apply getByScheme_def
      split: res.splits option.splits if_splits)

text \<open>A log that does not have an entry is told apart from a log that fails.\<close>

lemma readHTTP_status:
  assumes "http_NewRequest P u = Ok ()" and "http_Do P u s = (Ok r, s')"
  shows "readHTTP P u s = (if StatusCode r = 200 then read_body r s'
    else if StatusCode r = 404 then (Err ErrNotExist, s') else (Err (ErrorsNew (''unexpected http status '' @ StatusText r)), s'))"
  using assms by (simp add: readHTTP_def bindS_apply)

section \<open>Files\<close>

text \<open>What is relied on of files and the log client: \<open>files\<close> are the contents of the file system; reading
  returns and writing replaces the contents of the file named, and fetching from the log writes no file.\<close>

locale pb_files =
  fixes P :: "('h, 'u, 'k, 'l) pb_env" and files :: "'h \<Rightarrow> string \<Rightarrow> bytes"
  assumes read_law: "os_ReadFile P p h = (q, h') \<Longrightarrow> files h' = files h \<and> (\<forall>b. q = Ok b \<longrightarrow> b = files h p)"
    and write_law: "os_WriteFile P p b h = (Ok u, h') \<Longrightarrow> files h' = (files h)(p := b)"
    and log_laws: "leaves files (NewLogStateTracker P f k og)" "leaves files (lst_Update P l)"
      "leaves files (LookupIndex P f x)" "leaves files (InclusionProof P l i)"
begin

lemma verifier_of_file:
  "verifierOrDie P p thing h = (Ok v, h') \<Longrightarrow> files h' = files h \<and> note_NewVerifier P (string_of_bytes (files h p)) = Ok v"
  using read_law by (fastforce simp: verifierOrDie_Ok)

lemma manifest_of_file:
  "loadManifestOrDie P p v h = (Ok b, h') \<Longrightarrow> files h' = files h \<and> b = files h p
     \<and> (\<exists>txt. note_Open P b v = Ok txt \<and> json_Release P txt = Ok ())"
  using read_law by (fastforce simp: loadManifestOrDie_Ok)

lemma fetcher_state: "newFetcherOrDie P u h = (Ok f, h') \<Longrightarrow> h' = h"
  by (auto simp: newFetcherOrDie_def bindS_apply exitS_def tryS_apply split: res.splits option.splits)

text \<open>A successful run of the tool, by the contents of the files at its start and its end.\<close>

lemma main_Ok:
  assumes "proofbundle_main P F s = (Ok (), s')"
  obtains mv lv f l idx incP h1 h2 h3 where
    "note_NewVerifier P (string_of_bytes (files s (manifestPubKeyFile F))) = Ok mv"
    "note_NewVerifier P (string_of_bytes (files s (logPubKeyFile F))) = Ok lv"
    "\<exists>txt. note_Open P (files s (manifestFile F)) mv = Ok txt \<and> json_Release P txt = Ok ()"
    "LookupIndex P f (HashLeaf P (files s (manifestFile F))) h1 = (Ok idx, h2)" "InclusionProof P l idx h2 = (Ok incP, h3)"
    "Bundle_Verify P (logOrigin F) lv [mv] \<lparr>fb_Checkpoint = LatestConsistentRaw P l, fb_Index = idx, fb_InclusionProof = incP,
       fb_Manifest = files s (manifestFile F), fb_Firmware = files s (appletFile F)\<rparr> = Ok ()"
    "files s' = (files s)(outputFile F := fst (gob_Encode P \<lparr>fb_Checkpoint = LatestConsistentRaw P l, fb_Index = idx,
       fb_InclusionProof = incP, fb_Manifest = files s (manifestFile F), fb_Firmware = []\<rparr>))"
proof -
  from assms obtain mv manifest fwBin f lv l0 e l idx incP s1 s2 s3 s4 s5 s6 s7 s8 s9 where
    1: "verifierOrDie P (manifestPubKeyFile F) ''manifest'' s = (Ok mv, s1)"
    and 2: "loadManifestOrDie P (manifestFile F) mv s1 = (Ok manifest, s2)"
    and 3: "os_ReadFile P (appletFile F) s2 = (Ok fwBin, s3)" and 4: "newFetcherOrDie P (logBaseURL F) s3 = (Ok f, s4)"
    and 5: "verifierOrDie P (logPubKeyFile F) ''log'' s4 = (Ok lv, s5)"
    and 6: "NewLogStateTracker P f lv (logOrigin F) s5 = (Ok (l0, e), s6)" and 7: "lst_Update P l0 s6 = (Ok l, s7)"
    and 8: "LookupIndex P f (HashLeaf P manifest) s7 = (Ok idx, s8)" and 9: "InclusionProof P l idx s8 = (Ok incP, s9)"
    and ver: "Bundle_Verify P (logOrigin F) lv [mv] \<lparr>fb_Checkpoint = LatestConsistentRaw P l, fb_Index = idx,
        fb_InclusionProof = incP, fb_Manifest = manifest, fb_Firmware = fwBin\<rparr> = Ok ()"
    and wr: "os_WriteFile P (outputFile F) (fst (gob_Encode P \<lparr>fb_Checkpoint = LatestConsistentRaw P l, fb_Index = idx,
        fb_InclusionProof = incP, fb_Manifest = manifest, fb_Firmware = []\<rparr>)) s9 = (Ok (), s')"
    by (auto simp: proofbundle_main_def Let_def exitS_Ok elim!: bindS_OkE split: prod.splits)
  note v1 = verifier_of_file [OF 1] and m = manifest_of_file [OF 2] and v2 = verifier_of_file [OF 5]
  note r = read_law [OF 3] and f = fetcher_state [OF 4]
  note L = leavesD [OF log_laws(1) 6] leavesD [OF log_laws(2) 7] leavesD [OF log_laws(3) 8] leavesD [OF log_laws(4) 9]
  from that [of mv lv f s7 idx s8 l incP s9] v1 v2 m r f L 8 9 ver write_law [OF wr] show ?thesis by auto
qed

end

section \<open>Properties\<close>

text \<open>C29: what \<open>proofbundle\<close> writes was verified, and the OS that embeds it selects exactly the verified
  bundle. If the tool succeeds, there is a bundle with the manifest in the manifest file and the applet in
  the applet file that passes the verifier with the given log origin, the key in the log key file and the
  key in the manifest key file; the manifest is signed with the latter, the index is the one the log gives
  for the manifest's leaf hash; and the only file changed is the output file, which holds the encoding of
  that bundle without its firmware. An OS image that embeds the applet file and the output file, with a
  decoder that undoes successful encodings, picks that very bundle at start-up.\<close>

theorem proofbundle_then_boot:
  assumes "pb_files P files" and "proofbundle_main P F s = (Ok (), s')"
  shows "\<exists>bundle mv lv txt. note_NewVerifier P (string_of_bytes (files s (manifestPubKeyFile F))) = Ok mv
    \<and> note_NewVerifier P (string_of_bytes (files s (logPubKeyFile F))) = Ok lv
    \<and> fb_Manifest bundle = files s (manifestFile F) \<and> fb_Firmware bundle = files s (appletFile F)
    \<and> Bundle_Verify P (logOrigin F) lv [mv] bundle = Ok ()
    \<and> note_Open P (fb_Manifest bundle) mv = Ok txt \<and> json_Release P txt = Ok ()
    \<and> (\<exists>f h h'. LookupIndex P f (HashLeaf P (fb_Manifest bundle)) h = (Ok (fb_Index bundle), h'))
    \<and> files s' = (files s)(outputFile F := fst (gob_Encode P (bundle\<lparr>fb_Firmware := []\<rparr>)))
    \<and> (\<forall>(E :: ('w, 'v) board) I t. img_taELF I = files s (appletFile F) \<and> img_taELF I \<noteq> []
        \<and> img_taProofBundle I = files s' (outputFile F) \<and> img_taProofBundle I \<noteq> []
        \<and> snd (gob_Encode P (bundle\<lparr>fb_Firmware := []\<rparr>)) = None
        \<and> (\<forall>b. snd (gob_Encode P b) = None \<longrightarrow> decode_proof_bundle I (fst (gob_Encode P b)) = (b, None)) \<longrightarrow>
        select_applet E I t = (Ok (Some bundle), t))"
proof -
  obtain mv lv f l idx incP h1 h2 h3 where R:
    "note_NewVerifier P (string_of_bytes (files s (manifestPubKeyFile F))) = Ok mv"
    "note_NewVerifier P (string_of_bytes (files s (logPubKeyFile F))) = Ok lv"
    "\<exists>txt. note_Open P (files s (manifestFile F)) mv = Ok txt \<and> json_Release P txt = Ok ()"
    "LookupIndex P f (HashLeaf P (files s (manifestFile F))) h1 = (Ok idx, h2)" "InclusionProof P l idx h2 = (Ok incP, h3)"
    "Bundle_Verify P (logOrigin F) lv [mv] \<lparr>fb_Checkpoint = LatestConsistentRaw P l, fb_Index = idx, fb_InclusionProof = incP,
       fb_Manifest = files s (manifestFile F), fb_Firmware = files s (appletFile F)\<rparr> = Ok ()"
    "files s' = (files s)(outputFile F := fst (gob_Encode P \<lparr>fb_Checkpoint = LatestConsistentRaw P l, fb_Index = idx,
       fb_InclusionProof = incP, fb_Manifest = files s (manifestFile F), fb_Firmware = []\<rparr>))"
    by (rule pb_files.main_Ok [OF assms])
  let ?b = "\<lparr>fb_Checkpoint = LatestConsistentRaw P l, fb_Index = idx, fb_InclusionProof = incP,
       fb_Manifest = files s (manifestFile F), fb_Firmware = files s (appletFile F)\<rparr>"
  obtain tx where tx: "note_Open P (files s (manifestFile F)) mv = Ok tx" "json_Release P tx = Ok ()" using R(3) by blast
  have "select_applet E I t = (Ok (Some ?b), t)"
    if "img_taELF I = files s (appletFile F)" "img_taELF I \<noteq> []" "img_taProofBundle I = files s' (outputFile F)" "img_taProofBundle I \<noteq> []"
      "snd (gob_Encode P (?b\<lparr>fb_Firmware := []\<rparr>)) = None"
      "\<forall>b. snd (gob_Encode P b) = None \<longrightarrow> decode_proof_bundle I (fst (gob_Encode P b)) = (b, None)"
    for E :: "('w, 'v) board" and I t
    using that R(7) by (simp add: select_applet_def)
  with R tx show ?thesis by (intro exI [of _ ?b] exI [of _ mv] exI [of _ lv] exI [of _ tx]) auto
qed

text \<open>A log with one entry, a directory of files as the state, and an encoding of bundles with proofs from that
  log. The verifier wants the log's key and the manifest's key.\<close>

definition demo_pb :: "(string \<Rightarrow> bytes, string, string, unit) pb_env" where
  "demo_pb = \<lparr>os_ReadFile = (\<lambda>p d. (Ok (d p), d)), os_WriteFile = (\<lambda>p b d. (Ok (), d(p := b))),
     url_Parse = Ok, url_Resolve = (\<lambda>u p. Ok (u @ p)), url_Scheme = (\<lambda>_. ''file''), url_Path = (\<lambda>u. u),
     http_NewRequest = (\<lambda>_. Ok ()), http_Do = (\<lambda>_. failS EOF), note_NewVerifier = Ok,
     note_Open = (\<lambda>b _. Ok (string_of_bytes b)), json_Release = (\<lambda>_. Ok ()),
     NewLogStateTracker = (\<lambda>_ _ _. retS ((), None)), lst_Update = retS, LatestConsistentRaw = (\<lambda>_. [1]),
     HashLeaf = (\<lambda>b. sha256 (0 # b)), LookupIndex = (\<lambda>_ _. retS 7), InclusionProof = (\<lambda>_ _. retS [[3]]),
     Bundle_Verify = (\<lambda>_ lv mvs b. if lv = ''log'' \<and> mvs = [''manifest''] \<and> fb_Manifest b = fb_Firmware b then Ok () else Err EOF),
     gob_Encode = (\<lambda>b. if b = \<lparr>fb_Checkpoint = [1], fb_Index = 7, fb_InclusionProof = [[3]], fb_Manifest = fb_Manifest b, fb_Firmware = []\<rparr>
       then (0 # fb_Manifest b, None) else ([], Some EOF))\<rparr>"

interpretation demo_files: pb_files demo_pb "\<lambda>d. d"
  by unfold_locales (auto simp: demo_pb_def leaves_def)

definition demo_flags :: pb_flags where
  "demo_flags = \<lparr>outputFile = ''out'', logBaseURL = ''file:log'', logOrigin = ''log'', logPubKeyFile = ''log.pub'',
     appletFile = ''applet'', manifestFile = ''manifest'', manifestPubKeyFile = ''manifest.pub''\<rparr>"

definition demo_dir :: "string \<Rightarrow> bytes" where
  "demo_dir = (\<lambda>_. [])(''log.pub'' := bytes_of_string ''log'', ''manifest.pub'' := bytes_of_string ''manifest'',
     ''manifest'' := [5, 6], ''applet'' := [5, 6])"

definition embedding_image :: "bytes \<Rightarrow> (nat \<times> nat \<times> nat) os_image" where
  "embedding_image out = demo_image\<lparr>img_taELF := [5, 6], img_taProofBundle := out, decode_proof_bundle := (\<lambda>b. (\<lparr>fb_Checkpoint = [1],
     fb_Index = 7, fb_InclusionProof = [[3]], fb_Manifest = tl b, fb_Firmware = []\<rparr>, None))\<rparr>"

theorem proofbundle_then_boot_witness:
  "\<exists>d' b. proofbundle_main demo_pb demo_flags demo_dir = (Ok (), d') \<and> d' ''out'' = [0, 5, 6]
    \<and> select_applet demo_board (embedding_image (d' ''out'')) demo_os = (Ok (Some b), demo_os)
    \<and> Bundle_Verify demo_pb ''log'' ''log'' [''manifest''] b = Ok () \<and> fb_Manifest b = [5, 6] \<and> fb_Firmware b = [5, 6]"
proof -
  have run: "proofbundle_main demo_pb demo_flags demo_dir = (Ok (), demo_dir(''out'' := [0, 5, 6]))"
    by (simp add: proofbundle_main_def verifierOrDie_def loadManifestOrDie_def newFetcherOrDie_def getByScheme_def
        exitS_def tryS_apply bindS_apply demo_pb_def demo_flags_def demo_dir_def)
  let ?I = "embedding_image [0, 5, 6]"
  have F: "manifestPubKeyFile demo_flags = ''manifest.pub''" "logPubKeyFile demo_flags = ''log.pub''" "manifestFile demo_flags = ''manifest''"
    "appletFile demo_flags = ''applet''" "outputFile demo_flags = ''out''" "logOrigin demo_flags = ''log''"
    by (simp_all add: demo_flags_def)
  have D: "demo_dir ''manifest'' = [5, 6]" "demo_dir ''applet'' = [5, 6]"
    "string_of_bytes (demo_dir ''manifest.pub'') = ''manifest''" "string_of_bytes (demo_dir ''log.pub'') = ''log''"
    by (simp_all add: demo_dir_def)
  have N: "note_NewVerifier demo_pb t = Ok t" for t by (simp add: demo_pb_def)
  obtain b mv lv where v: "Ok ''manifest'' = Ok mv" "Ok ''log'' = Ok lv" "Bundle_Verify demo_pb ''log'' lv [mv] b = Ok ()"
    and b: "fb_Manifest b = [5, 6]" "fb_Firmware b = [5, 6]"
    and out: "demo_dir(''out'' := [0, 5, 6]) = demo_dir(''out'' := fst (gob_Encode demo_pb (b\<lparr>fb_Firmware := []\<rparr>)))"
    and sel: "\<forall>(E :: (machine, nat \<times> nat \<times> nat) board) I t. img_taELF I = [5, 6] \<and> img_taELF I \<noteq> []
        \<and> img_taProofBundle I = (demo_dir(''out'' := [0, 5, 6])) ''out'' \<and> img_taProofBundle I \<noteq> []
        \<and> snd (gob_Encode demo_pb (b\<lparr>fb_Firmware := []\<rparr>)) = None
        \<and> (\<forall>b. snd (gob_Encode demo_pb b) = None \<longrightarrow> decode_proof_bundle I (fst (gob_Encode demo_pb b)) = (b, None)) \<longrightarrow>
        select_applet E I t = (Ok (Some b), t)"
    using proofbundle_then_boot [OF demo_files.pb_files_axioms run, where 'w = machine and 'v = "nat \<times> nat \<times> nat", unfolded F D N] by blast
  have "fst (gob_Encode demo_pb (b\<lparr>fb_Firmware := []\<rparr>)) = [0, 5, 6]" using out by (metis fun_upd_same)
  then have enc: "snd (gob_Encode demo_pb (b\<lparr>fb_Firmware := []\<rparr>)) = None" by (auto simp: demo_pb_def split: if_splits)
  have dec: "\<forall>x. snd (gob_Encode demo_pb x) = None \<longrightarrow> decode_proof_bundle ?I (fst (gob_Encode demo_pb x)) = (x, None)"
    by (auto simp: demo_pb_def embedding_image_def)
  have "select_applet demo_board ?I demo_os = (Ok (Some b), demo_os)"
    by (rule sel [rule_format]) (use enc dec in \<open>simp add: embedding_image_def\<close>)
  with run b v show ?thesis by auto
qed

end
