(* ===== verification/Rpmb_Concurrent.thy ===== *)
theory Rpmb_Concurrent
  imports Rpmb_Device
begin

text \<open>
  Goroutines that share one \<open>RPMB\<close> instance of \<open>src/rpmb\<close>. The mutex of the instance is taken by
  \<open>op\<close> and released when it returns, so one exchange with the card is indivisible; a write consists of
  two of them, reading the counter and sending the data, and another goroutine may run in between. The
  step relation interleaves the exchanges of any number of calls. On a device that refuses a write with
  an old counter, as the standard demands, every interleaving is explained by one order of the writes
  that reported success.
\<close>

section \<open>Goroutines\<close>

datatype call = Write_call "16 word" bytes | Read_call "16 word" bytes

text \<open>A goroutine is about to start its call, has the counter for its write, or has returned.\<close>

datatype thread = Calling call | Counted "16 word" bytes "32 word" | Returned "bytes res"

definition tooLong :: error where
  "tooLong = ErrorsNew ''transfer size must not exceed 256 bytes''"

text \<open>What a goroutine does up to the next release of the mutex.\<close>

fun locked :: "'w rpmb_hw \<Rightarrow> RPMB \<Rightarrow> thread \<Rightarrow> 'w \<Rightarrow> thread \<times> 'w" where
  "locked hw p (Calling (Write_call offset buf)) w =
     (if FrameLength div 2 < length buf then (Returned (Err tooLong), w)
      else case Counter hw p True w of
        (Ok c, w') \<Rightarrow> (Counted offset buf c, w')
      | (Err e, w') \<Rightarrow> (Returned (Err e), w')
      | (Halt m, w') \<Rightarrow> (Returned (Halt m), w'))"
| "locked hw p (Counted offset buf c) w =
     (case op hw p (transfer_request AuthenticatedDataWrite offset buf (Some c)) write_config w of
        (Ok r, w') \<Rightarrow> (Returned (if frame_Counter r \<noteq> c + 1 then Err (ErrorsNew ''write counter mismatch'') else Ok buf), w')
      | (Err e, w') \<Rightarrow> (Returned (Err e), w')
      | (Halt m, w') \<Rightarrow> (Returned (Halt m), w'))"
| "locked hw p (Calling (Read_call offset buf)) w =
     (case Read hw p offset buf w of (r, w') \<Rightarrow> (Returned r, w'))"
| "locked hw p (Returned r) w = (Returned r, w)"

text \<open>Left alone, a goroutine does exactly what the sequential code does.\<close>

lemma locked_alone:
  "(case locked hw p (Calling (Write_call offset buf)) w of (t, v) \<Rightarrow> locked hw p t v)
     = map_prod Returned id (transfer hw p AuthenticatedDataWrite offset buf w)"
  "locked hw p (Calling (Read_call offset buf)) w = map_prod Returned id (transfer hw p AuthenticatedDataRead offset buf w)"
  by (auto simp: transfer_def Read_def Let_def bindS_apply tooLong_def write_config_def message_types
      split: prod.split res.split)

fun returned :: "thread \<Rightarrow> bool" where
  "returned (Returned r) = True"
| "returned t = False"

inductive rpmb_step :: "'w rpmb_hw \<Rightarrow> RPMB \<Rightarrow> thread list \<times> 'w \<Rightarrow> thread list \<times> 'w \<Rightarrow> bool" for hw p where
  run: "i < length ts \<Longrightarrow> \<not> returned (ts ! i) \<Longrightarrow> locked hw p (ts ! i) w = (t, w')
    \<Longrightarrow> rpmb_step hw p (ts, w) (ts[i := t], w')"

inductive_cases rpmb_stepE: "rpmb_step hw p (ts, w) c"

subsection \<open>Every run ends\<close>

text \<open>No goroutine takes more than two steps, and as long as one has not returned there is a step: the
  mutex is free between the exchanges.\<close>

fun steps_left :: "thread \<Rightarrow> nat" where
  "steps_left (Calling c) = 2"
| "steps_left (Counted offset buf c) = 1"
| "steps_left (Returned r) = 0"

lemma locked_progress: "locked hw p t w = (t', w') \<Longrightarrow> \<not> returned t \<Longrightarrow> steps_left t' < steps_left t"
  by (induction hw p t w rule: locked.induct) (auto split: if_splits prod.splits res.splits)

lemma rpmb_step_progress:
  assumes "rpmb_step hw p (ts, w) (ts', w')"
  shows "sum_list (map steps_left ts') < sum_list (map steps_left ts)"
proof -
  obtain i t where i: "i < length ts" "\<not> returned (ts ! i)" "locked hw p (ts ! i) w = (t, w')" "ts' = ts[i := t]"
    using assms by (auto elim: rpmb_stepE)
  have "steps_left t < steps_left (ts ! i)" by (rule locked_progress [OF i(3,2)])
  moreover have "sum_list (map steps_left ts) = sum_list (map steps_left (take i ts)) + steps_left (ts ! i)
      + sum_list (map steps_left (drop (Suc i) ts))"
    by (subst id_take_nth_drop [OF i(1)]) simp
  moreover have "sum_list (map steps_left ts') = sum_list (map steps_left (take i ts)) + steps_left t
      + sum_list (map steps_left (drop (Suc i) ts))"
    using i(1,4) by (simp add: upd_conv_take_nth_drop)
  ultimately show ?thesis by simp
qed

lemma rpmb_step_exists: "\<not> list_all returned ts \<Longrightarrow> \<exists>c. rpmb_step hw p (ts, w) c"
  by (metis (no_types, lifting) list_all_length old.prod.exhaust run)

lemma rpmb_runs_end: "\<exists>ts' w'. (rpmb_step hw p)\<^sup>*\<^sup>* (ts, w) (ts', w') \<and> list_all returned ts'"
proof (induction "sum_list (map steps_left ts)" arbitrary: ts w rule: less_induct)
  case less
  show ?case
  proof (cases "list_all returned ts")
    case False
    then obtain ts1 w1 where step: "rpmb_step hw p (ts, w) (ts1, w1)" using rpmb_step_exists by (metis old.prod.exhaust)
    from less [OF rpmb_step_progress [OF this], of w1] step show ?thesis
      by (meson converse_rtranclp_into_rtranclp)
  qed blast
qed

section \<open>The order that explains a run\<close>

text \<open>The sectors after the writes at the positions \<open>order\<close> of the list of calls.\<close>

definition stored_by :: "call list \<Rightarrow> nat list \<Rightarrow> (16 word \<Rightarrow> bytes) \<Rightarrow> 16 word \<Rightarrow> bytes" where
  "stored_by calls order = fold (\<lambda>i m. case calls ! i of
      Write_call offset buf \<Rightarrow> m(offset := go_copy (zeros 256) buf)
    | Read_call _ _ \<Rightarrow> m) order"

text \<open>The result of call \<open>i\<close> given that order: a write in it succeeded; another one was refused for its
  counter, because some write succeeded in the meantime, or was too long; a read returned what the
  sector held at some point of the order.\<close>

definition explained :: "(16 word \<Rightarrow> bytes) \<Rightarrow> call list \<Rightarrow> nat list \<Rightarrow> nat \<Rightarrow> thread \<Rightarrow> bool" where
  "explained m calls order i t = (case calls ! i of
      Write_call offset buf \<Rightarrow>
        if i \<in> set order then length buf \<le> 256 \<and> t = Returned (Ok buf)
        else if 256 < length buf then t = Returned (Err tooLong)
        else order \<noteq> [] \<and> t = Returned (Err (OperationError CounterFailure))
    | Read_call offset buf \<Rightarrow> i \<notin> set order
        \<and> (if 256 < length buf then t = Returned (Err tooLong)
           else \<exists>k \<le> length order. t = Returned (Ok (take (length buf) (stored_by calls (take k order) m offset)))))"

text \<open>A call that has not returned; \<open>c0\<close> is the counter at the start.\<close>

definition pending :: "32 word \<Rightarrow> call list \<Rightarrow> nat list \<Rightarrow> nat \<Rightarrow> thread \<Rightarrow> bool" where
  "pending c0 calls order i t \<longleftrightarrow> i \<notin> set order \<and> (t = Calling (calls ! i)
     \<or> (\<exists>offset buf k. calls ! i = Write_call offset buf \<and> length buf \<le> 256 \<and> k \<le> length order
          \<and> t = Counted offset buf (c0 + of_nat k)))"

lemma explained_later: "i \<noteq> j \<Longrightarrow> explained m calls order i t \<Longrightarrow> explained m calls (order @ [j]) i t"
  by (auto simp: explained_def split: call.splits if_splits) (metis diff_is_0_eq' append_Nil2 le_SucI take_0 take_append)

lemma pending_later: "i \<noteq> j \<Longrightarrow> pending c0 calls order i t \<Longrightarrow> pending c0 calls (order @ [j]) i t"
  unfolding pending_def by (metis (no_types, lifting) Un_iff empty_iff insert_iff le_SucI length_append_singleton list.set set_append)

section \<open>A device that refuses old counters\<close>

locale strict_rpmb_device = rpmb_device +
  assumes stale_write: "frame_ok f \<Longrightarrow> Req f = AuthenticatedDataWrite \<Longrightarrow> dkey w = Some k \<Longrightarrow>
      authentic k f \<Longrightarrow> frame_Counter f \<noteq> dctr w \<Longrightarrow> dctr w \<noteq> -1 \<Longrightarrow> BlockCount f = put_be16 1 \<Longrightarrow>
      \<exists>w1 w2 w3 r. hw_WriteRPMB hw (Bytes f) True w = (Ok (), w1)
        \<and> hw_WriteRPMB hw (Bytes (zero_frame\<lparr>Req := ResultReadRequest\<rparr>)) False w1 = (Ok (), w2)
        \<and> hw_ReadRPMB hw FrameLength w2 = (Ok (Bytes r), w3)
        \<and> frame_ok r \<and> authentic k r \<and> Resp r = AuthenticatedDataWrite \<and> Nonce r = zeros 16
        \<and> be16 (Result r) = CounterFailure
        \<and> dkey w3 = dkey w \<and> dctr w3 = dctr w \<and> dmem w3 = dmem w"
begin

lemma op_write_stale:
  assumes "init p" and "dkey w = Some (key p)" and "dctr w \<noteq> -1" and "c \<noteq> dctr w"
  shows "\<exists>w'. op hw p (transfer_request AuthenticatedDataWrite offset buf (Some c)) write_config w
      = (Err (OperationError CounterFailure), w') \<and> same_dev w w'"
proof -
  let ?req = "transfer_request AuthenticatedDataWrite offset buf (Some c)"
  let ?rq = "write_request p offset buf c"
  have "authentic (key p) ?rq" by (rule authentic_op_request_mac) (simp_all add: write_config_def)
  then have "\<exists>w1 w2 w3 r. hw_WriteRPMB hw (Bytes ?rq) True w = (Ok (), w1)
        \<and> hw_WriteRPMB hw (Bytes (zero_frame\<lparr>Req := ResultReadRequest\<rparr>)) False w1 = (Ok (), w2)
        \<and> hw_ReadRPMB hw FrameLength w2 = (Ok (Bytes r), w3)
        \<and> frame_ok r \<and> authentic (key p) r \<and> Resp r = AuthenticatedDataWrite \<and> Nonce r = zeros 16
        \<and> be16 (Result r) = CounterFailure \<and> dkey w3 = dkey w \<and> dctr w3 = dctr w \<and> dmem w3 = dmem w"
    using assms by (intro stale_write) (simp_all add: frame_Counter_def)
  then obtain w1 w2 w3 r where ex: "hw_WriteRPMB hw (Bytes ?rq) True w = (Ok (), w1)"
      "hw_WriteRPMB hw (Bytes (zero_frame\<lparr>Req := ResultReadRequest\<rparr>)) False w1 = (Ok (), w2)"
      "hw_ReadRPMB hw FrameLength w2 = (Ok (Bytes r), w3)"
    and r: "frame_ok r" "authentic (key p) r" "Resp r = AuthenticatedDataWrite" "Nonce r = zeros 16"
      "be16 (Result r) = CounterFailure" and same: "same_dev w w3"
    by (auto simp: same_dev_def)
  have "op hw p ?req write_config w = (op_validate p ?rq write_config (go_copy (zeros FrameLength) (Bytes r)), w3)"
    using assms(1) ex
    by (intro op_eval [where v = w]) (simp_all add: op_nonce_def op_reliable_def write_config_def zero_config_def)
  also have "\<dots> = (Err (OperationError CounterFailure), w3)"
    using r by (simp add: op_validate_def authentic_def result_codes)
  finally show ?thesis using same by simp
qed

text \<open>The steps of a goroutine on this device.\<close>

lemma locked_count:
  assumes "init p" and "dkey w = Some (key p)" and "length buf \<le> 256"
  shows "\<exists>w'. locked hw p (Calling (Write_call offset buf)) w = (Counted offset buf (dctr w), w') \<and> same_dev w w'"
  using Counter_ok [OF assms(1,2), of True] assms(3) by (auto simp: FrameLength_def)

lemma locked_write:
  assumes "init p" and "dkey w = Some (key p)" and "dctr w \<noteq> -1"
  shows "\<exists>w'. locked hw p (Counted offset buf (dctr w)) w = (Returned (Ok buf), w') \<and> dkey w' = dkey w
    \<and> dctr w' = dctr w + 1 \<and> dmem w' = (dmem w)(offset := go_copy (zeros 256) buf)"
  using op_write_ok [OF assms, of offset buf] by auto

lemma locked_stale:
  assumes "init p" and "dkey w = Some (key p)" and "dctr w \<noteq> -1" and "c \<noteq> dctr w"
  shows "\<exists>w'. locked hw p (Counted offset buf c) w = (Returned (Err (OperationError CounterFailure)), w') \<and> same_dev w w'"
  using op_write_stale [OF assms, of offset buf] by auto

lemma locked_read:
  assumes "init p" and "dkey w = Some (key p)" and "length buf \<le> 256"
  shows "\<exists>w'. locked hw p (Calling (Read_call offset buf)) w = (Returned (Ok (take (length buf) (dmem w offset))), w') \<and> same_dev w w'"
  using Read_ok [OF assms, of offset] by auto

lemma locked_too_long:
  "256 < length buf \<Longrightarrow> locked hw p (Calling (Write_call offset buf)) w = (Returned (Err tooLong), w)"
  "256 < length buf \<Longrightarrow> locked hw p (Calling (Read_call offset buf)) w = (Returned (Err tooLong), w)"
  by (simp_all add: FrameLength_def tooLong_def Read_def transfer_def)

definition concurrent_inv :: "RPMB \<Rightarrow> call list \<Rightarrow> 'a \<Rightarrow> nat list \<Rightarrow> thread list \<Rightarrow> 'a \<Rightarrow> bool" where
  "concurrent_inv p calls w0 order ts w \<longleftrightarrow> length ts = length calls \<and> distinct order \<and> set order \<subseteq> {..<length calls}
     \<and> dkey w = Some (key p) \<and> dctr w = dctr w0 + of_nat (length order) \<and> dmem w = stored_by calls order (dmem w0)
     \<and> (\<forall>i < length calls. if returned (ts ! i) then explained (dmem w0) calls order i (ts ! i)
          else pending (dctr w0) calls order i (ts ! i))"

lemma concurrent_invD:
  assumes "concurrent_inv p calls w0 order ts w"
  shows "dkey w = Some (key p)" and "dctr w = dctr w0 + of_nat (length order)" and "dmem w = stored_by calls order (dmem w0)"
    and "distinct order" and "set order \<subseteq> {..<length calls}" and "length ts = length calls"
    and "i < length calls \<Longrightarrow> \<not> returned (ts ! i) \<Longrightarrow> pending (dctr w0) calls order i (ts ! i)"
    and "i < length calls \<Longrightarrow> returned (ts ! i) \<Longrightarrow> explained (dmem w0) calls order i (ts ! i)"
  using assms unfolding concurrent_inv_def by auto

text \<open>A step that changes nothing on the device, and one that writes.\<close>

lemma concurrent_inv_quiet:
  assumes "concurrent_inv p calls w0 order ts w" and "same_dev w w'"
    and "if returned t then explained (dmem w0) calls order i t else pending (dctr w0) calls order i t"
  shows "concurrent_inv p calls w0 order (ts[i := t]) w'"
  unfolding concurrent_inv_def
proof (intro conjI allI impI)
  fix j assume "j < length calls"
  then show "if returned (ts[i := t] ! j) then explained (dmem w0) calls order j (ts[i := t] ! j)
      else pending (dctr w0) calls order j (ts[i := t] ! j)"
    using concurrent_invD(6-8) [OF assms(1)] assms(3) by (cases "i = j") (auto split: if_splits)
qed (use assms(1,2) in \<open>simp_all add: concurrent_inv_def same_dev_def\<close>)

lemma concurrent_inv_write:
  assumes inv: "concurrent_inv p calls w0 order ts w" and i: "i < length calls" "\<not> returned (ts ! i)"
    and call: "calls ! i = Write_call offset buf" "length buf \<le> 256"
    and w': "dkey w' = dkey w" "dctr w' = dctr w + 1" "dmem w' = (dmem w)(offset := go_copy (zeros 256) buf)"
  shows "concurrent_inv p calls w0 (order @ [i]) (ts[i := Returned (Ok buf)]) w'"
proof -
  have "i \<notin> set order" using concurrent_invD(7) [OF inv i] by (simp add: pending_def)
  moreover have "explained (dmem w0) calls (order @ [i]) i (Returned (Ok buf))" using call by (simp add: explained_def)
  ultimately show ?thesis
    using inv i w' call(1) explained_later pending_later
    by (auto simp: concurrent_inv_def nth_list_update stored_by_def add.assoc)
qed

lemma room_left:
  assumes "concurrent_inv p calls w0 order ts w" and "i < length calls" and "i \<notin> set order" and "length calls \<le> unat (-1 - dctr w0)"
  shows "dctr w \<noteq> -1" and "k \<le> length order \<Longrightarrow> dctr w0 + of_nat k = dctr w \<longleftrightarrow> k = length order"
proof -
  have "card (insert i (set order)) \<le> card {..<length calls}"
    using assms(1,2) by (intro card_mono) (auto simp: concurrent_inv_def)
  then have lt: "length order < unat (-1 - dctr w0)"
    using assms(1,3,4) by (simp add: concurrent_inv_def distinct_card)
  moreover have "unat (-1 - dctr w0) < 2 ^ 32" using unsigned_less [of "-1 - dctr w0", where 'a = nat] by simp
  ultimately have small: "length order < 2 ^ 32" by linarith
  show "dctr w \<noteq> -1"
  proof
    assume "dctr w = -1"
    then have "of_nat (length order) = -1 - dctr w0" using assms(1) by (simp add: concurrent_inv_def algebra_simps)
    then have "unat (of_nat (length order) :: 32 word) = unat (-1 - dctr w0)" by simp
    with lt small show False by (simp add: unat_of_nat)
  qed
  show "k \<le> length order \<Longrightarrow> dctr w0 + of_nat k = dctr w \<longleftrightarrow> k = length order"
  proof -
    assume "k \<le> length order"
    then have "unat (of_nat k :: 32 word) = k" "unat (of_nat (length order) :: 32 word) = length order"
      using small by (simp_all add: unat_of_nat)
    then have "(of_nat k :: 32 word) = of_nat (length order) \<longleftrightarrow> k = length order" by metis
    then show ?thesis using assms(1) by (simp add: concurrent_inv_def)
  qed
qed

lemma concurrent_inv_step:
  assumes inv: "concurrent_inv p calls w0 order ts w" and "init p" and room: "length calls \<le> unat (-1 - dctr w0)"
    and step: "rpmb_step hw p (ts, w) (ts', w')"
  shows "\<exists>order'. concurrent_inv p calls w0 order' ts' w'"
proof -
  obtain i t where i: "i < length calls" "\<not> returned (ts ! i)" and t: "locked hw p (ts ! i) w = (t, w')" "ts' = ts[i := t]"
    using step inv by (auto simp: concurrent_inv_def elim!: rpmb_stepE)
  note key = concurrent_invD(1) [OF inv] and pend = concurrent_invD(7) [OF inv i]
  then have fresh: "i \<notin> set order" by (simp add: pending_def)
  note quiet = concurrent_inv_quiet [OF inv]
  note left = room_left [OF inv i(1) fresh room]
  consider (read) offset buf where "ts ! i = Calling (Read_call offset buf)" "calls ! i = Read_call offset buf"
    | (count) offset buf where "ts ! i = Calling (Write_call offset buf)" "calls ! i = Write_call offset buf"
    | (send) offset buf k where "ts ! i = Counted offset buf (dctr w0 + of_nat k)" "calls ! i = Write_call offset buf"
        "length buf \<le> 256" "k \<le> length order"
    using pend by (cases "calls ! i") (auto simp: pending_def)
  then show ?thesis
  proof cases
    case read
    have dm: "dmem w = stored_by calls (take (length order) order) (dmem w0)" using inv by (simp add: concurrent_inv_def)
    show ?thesis
    proof (cases "256 < length buf")
      case True
      then show ?thesis using read t fresh locked_too_long(2) [OF True, of p offset w]
        by (intro exI [of _ order]) (simp add: t(2), intro quiet, auto simp: explained_def same_dev_def)
    next
      case False
      then obtain v where "locked hw p (ts ! i) w = (Returned (Ok (take (length buf) (dmem w offset))), v)" "same_dev w v"
        using locked_read [OF assms(2) key, of buf offset] read(1) by auto
      moreover have "explained (dmem w0) calls order i (Returned (Ok (take (length buf) (dmem w offset))))"
        using read(2) fresh False dm by (auto simp: explained_def)
      ultimately show ?thesis using t quiet by (metis Pair_inject returned.simps(1))
    qed
  next
    case count
    show ?thesis
    proof (cases "256 < length buf")
      case True
      then show ?thesis using count t fresh locked_too_long(1) [OF True, of p offset w]
        by (intro exI [of _ order]) (simp add: t(2), intro quiet, auto simp: explained_def same_dev_def)
    next
      case False
      then obtain v where "locked hw p (ts ! i) w = (Counted offset buf (dctr w), v)" "same_dev w v"
        using locked_count [OF assms(2) key, of buf offset] count(1) by auto
      moreover have "pending (dctr w0) calls order i (Counted offset buf (dctr w))"
        using count(2) fresh False inv by (auto simp: pending_def concurrent_inv_def)
      ultimately show ?thesis using t quiet by (metis Pair_inject returned.simps(3))
    qed
  next
    case send
    show ?thesis
    proof (cases "k = length order")
      case True
      then have c: "ts ! i = Counted offset buf (dctr w)" using send left(2) by simp
      obtain v where "locked hw p (ts ! i) w = (Returned (Ok buf), v)" "dkey v = dkey w" "dctr v = dctr w + 1"
          "dmem v = (dmem w)(offset := go_copy (zeros 256) buf)"
        using locked_write [OF assms(2) key left(1), of offset buf] c by auto
      then show ?thesis using concurrent_inv_write [OF inv i send(2,3)] t by auto
    next
      case False
      then have "dctr w0 + of_nat k \<noteq> dctr w" using left(2) send(4) by simp
      then obtain v where "locked hw p (ts ! i) w = (Returned (Err (OperationError CounterFailure)), v)" "same_dev w v"
        using locked_stale [OF assms(2) key left(1), of "dctr w0 + of_nat k" offset buf] send(1) by auto
      moreover have "explained (dmem w0) calls order i (Returned (Err (OperationError CounterFailure)))"
        using send fresh False by (auto simp: explained_def)
      ultimately show ?thesis using t quiet by (metis Pair_inject returned.simps(1))
    qed
  qed
qed

lemma concurrent_inv_reachable:
  assumes "(rpmb_step hw p)\<^sup>*\<^sup>* (map Calling calls, w0) (ts, w)" and "init p" and "dkey w0 = Some (key p)"
    and "length calls \<le> unat (-1 - dctr w0)"
  shows "\<exists>order. concurrent_inv p calls w0 order ts w"
  using assms(1)
proof (induction rule: rtranclp_induct2)
  case refl
  have "concurrent_inv p calls w0 [] (map Calling calls) w0"
    using assms(3) by (simp add: concurrent_inv_def pending_def stored_by_def)
  then show ?case by blast
next
  case (step ts w ts' w')
  then show ?case using concurrent_inv_step [OF _ assms(2,4)] by blast
qed

lemma calls_serialize:
  assumes "init p" and "dkey w = Some (key p)" and "length calls \<le> unat (-1 - dctr w)"
    and "(rpmb_step hw p)\<^sup>*\<^sup>* (map Calling calls, w) (ts, w')" and "list_all returned ts"
  shows "\<exists>order. distinct order \<and> set order \<subseteq> {..<length calls}
    \<and> dctr w' = dctr w + of_nat (length order) \<and> dmem w' = stored_by calls order (dmem w)
    \<and> (\<forall>i < length calls. explained (dmem w) calls order i (ts ! i))
    \<and> (\<forall>offset buf. Write_call offset buf \<in> set calls \<and> length buf \<le> 256 \<longrightarrow> order \<noteq> [])"
proof -
  obtain order where inv: "concurrent_inv p calls w order ts w'"
    using concurrent_inv_reachable [OF assms(4,1-3)] by blast
  then have ex: "explained (dmem w) calls order i (ts ! i)" if "i < length calls" for i
    using that assms(5) concurrent_invD(6,8) [OF inv] by (auto simp: list_all_length)
  have "order \<noteq> []" if wc: "Write_call offset buf \<in> set calls" "length buf \<le> 256" for offset buf
  proof -
    obtain i where "i < length calls" "calls ! i = Write_call offset buf" using wc(1) by (auto simp: in_set_conv_nth)
    with ex [of i] wc(2) show ?thesis by (auto simp: explained_def)
  qed
  with ex concurrent_invD(2-5) [OF inv] show ?thesis by (intro exI [of _ order]) blast
qed

text \<open>The mutex does not cover a whole write: if two goroutines have read the counter before the first
  sends its data, the second is refused although the device had room for both.\<close>

lemma overtaken_write:
  assumes "init p" and "dkey w = Some (key p)" and "2 \<le> unat (-1 - dctr w)" and "length b1 \<le> 256" and "length b2 \<le> 256"
  shows "\<exists>w'. (rpmb_step hw p)\<^sup>*\<^sup>* (map Calling [Write_call a1 b1, Write_call a2 b2], w)
    ([Returned (Ok b1), Returned (Err (OperationError CounterFailure))], w')"
proof -
  obtain v where v: "locked hw p (Calling (Write_call a1 b1)) w = (Counted a1 b1 (dctr w), v)" "same_dev w v"
    using locked_count [OF assms(1,2,4)] by blast
  then obtain v1 where v1: "locked hw p (Calling (Write_call a2 b2)) v = (Counted a2 b2 (dctr w), v1)" "same_dev w v1"
    using locked_count [OF assms(1) _ assms(5), of v a2] assms(2) by (auto simp: same_dev_def)
  have "dctr w \<noteq> -1" using assms(3) by auto
  have "dctr w + 1 \<noteq> -1"
  proof
    assume "dctr w + 1 = -1"
    then have "dctr w = -2" by (simp add: eq_neg_iff_add_eq_0 add.assoc)
    then show False using assms(3) by simp
  qed
  from \<open>dctr w \<noteq> -1\<close> obtain v2 where v2: "locked hw p (Counted a1 b1 (dctr w)) v1 = (Returned (Ok b1), v2)" "dkey v2 = dkey w" "dctr v2 = dctr w + 1"
    using locked_write [OF assms(1), of v1 a1 b1] v1(2) assms(2) by (auto simp: same_dev_def simp del: locked.simps)
  obtain v3 where v3: "locked hw p (Counted a2 b2 (dctr w)) v2 = (Returned (Err (OperationError CounterFailure)), v3)"
    using locked_stale [OF assms(1), of v2 "dctr w" a2 b2] v2(2,3) assms(2) \<open>dctr w + 1 \<noteq> -1\<close> by (auto simp del: locked.simps)
  let ?c = "[Calling (Write_call a1 b1), Calling (Write_call a2 b2)]"
  have "rpmb_step hw p (?c, w) (?c[0 := Counted a1 b1 (dctr w)], v)" using v(1) by (intro run) auto
  moreover have "rpmb_step hw p ([Counted a1 b1 (dctr w), Calling (Write_call a2 b2)], v) ([Counted a1 b1 (dctr w), Calling (Write_call a2 b2)][1 := Counted a2 b2 (dctr w)], v1)"
    using v1(1) by (intro run) auto
  moreover have "rpmb_step hw p ([Counted a1 b1 (dctr w), Counted a2 b2 (dctr w)], v1) ([Counted a1 b1 (dctr w), Counted a2 b2 (dctr w)][0 := Returned (Ok b1)], v2)"
    using v2(1) by (intro run) auto
  moreover have "rpmb_step hw p ([Returned (Ok b1), Counted a2 b2 (dctr w)], v2) ([Returned (Ok b1), Counted a2 b2 (dctr w)][1 := Returned (Err (OperationError CounterFailure))], v3)"
    using v3 by (intro run) auto
  ultimately have "(rpmb_step hw p)\<^sup>*\<^sup>* (?c, w) ([Returned (Ok b1), Returned (Err (OperationError CounterFailure))], v3)"
    by (simp add: converse_rtranclp_into_rtranclp)
  then show ?thesis by auto
qed

end

interpretation strict_emmc: strict_rpmb_device emmc_hw e_key e_counter emmc_sector
proof (unfold_locales, goal_cases)
  case (1 f w k)
  let ?r = "e_resp (emmc_request f w)"
  have "frame_ok ?r \<and> authentic k ?r \<and> Resp ?r = AuthenticatedDataWrite \<and> Nonce ?r = zeros 16
    \<and> be16 (Result ?r) = CounterFailure"
    using 1 by (simp add: emmc_request_def emmc_write_def emmc_refuse_def message_types)
  moreover have "e_key (emmc_request f w) = e_key w" "e_counter (emmc_request f w) = e_counter w"
    "emmc_sector (emmc_request f w) = emmc_sector w"
    using 1 by (simp_all add: emmc_request_def emmc_write_def message_types emmc_sector_def fun_eq_iff)
  ultimately show ?case using emmc_exchange [OF 1(1)] emmc_result_read by blast
qed

section \<open>Properties\<close>

text \<open>C16: concurrent calls of one instance. Any number of goroutines call \<open>Write\<close> and \<open>Read\<close> of one
  instance, in any interleaving that the mutex allows, on a device that follows the standard and has
  room for the writes. When all have returned there is an order of the writes that reported success
  such that the device holds exactly the data of these writes in this order and its counter advanced
  once for each; every other write failed without a trace, and only because one of them came in
  between or its data were too long; and every read returned what its sector held at some point of
  that order. If a write was not too long, some write succeeded.\<close>

theorem concurrent_calls_serialize:
  assumes "strict_rpmb_device hw dkey dctr dmem" and "init p" and "dkey w = Some (key p)"
    and "length calls \<le> unat (-1 - dctr w)"
    and "(rpmb_step hw p)\<^sup>*\<^sup>* (map Calling calls, w) (ts, w')" and "list_all returned ts"
  shows "\<exists>order. distinct order \<and> set order \<subseteq> {..<length calls}
    \<and> dctr w' = dctr w + of_nat (length order) \<and> dmem w' = stored_by calls order (dmem w)
    \<and> (\<forall>i < length calls. explained (dmem w) calls order i (ts ! i))
    \<and> (\<forall>offset buf. Write_call offset buf \<in> set calls \<and> length buf \<le> 256 \<longrightarrow> order \<noteq> [])"
  by (rule strict_rpmb_device.calls_serialize [OF assms])

theorem concurrent_calls_serialize_witness:
  "\<exists>w' order. (rpmb_step emmc_hw demo_rpmb)\<^sup>*\<^sup>* (map Calling [Write_call 3 [1], Write_call 3 [2]], demo_emmc)
      ([Returned (Ok [1]), Returned (Err (OperationError CounterFailure))], w')
    \<and> distinct order \<and> emmc_sector w' = stored_by [Write_call 3 [1], Write_call 3 [2]] order (emmc_sector demo_emmc)
    \<and> 0 \<in> set order \<and> 1 \<notin> set order"
proof -
  let ?calls = "[Write_call 3 [1], Write_call 3 [2]]" and ?ts = "[Returned (Ok [1]), Returned (Err (OperationError CounterFailure))]"
  have dev: "init demo_rpmb" "e_key demo_emmc = Some (key demo_rpmb)" "2 \<le> unat (-1 - e_counter demo_emmc)"
    by (simp_all add: demo_rpmb_def demo_emmc_def)
  then obtain w' where run: "(rpmb_step emmc_hw demo_rpmb)\<^sup>*\<^sup>* (map Calling ?calls, demo_emmc) (?ts, w')"
    using strict_emmc.overtaken_write [of demo_rpmb demo_emmc "[1]" "[2]" 3 3] by auto
  then obtain order where order: "distinct order" "emmc_sector w' = stored_by ?calls order (emmc_sector demo_emmc)"
      "\<forall>i < length ?calls. explained (emmc_sector demo_emmc) ?calls order i (?ts ! i)"
    using concurrent_calls_serialize [OF strict_emmc.strict_rpmb_device_axioms dev(1,2) _ run] dev(3) by auto
  have "0 \<in> set order" using order(3) [rule_format, of 0] by (auto simp: explained_def split: if_splits)
  moreover have "1 \<notin> set order" using order(3) [rule_format, of 1] by (auto simp: explained_def split: if_splits)
  ultimately show ?thesis using run order(1,2) by blast
qed

end
