(* ===== verification/Log_Transfer.thy ===== *)
theory Log_Transfer
  imports Api
begin

text \<open>
  Fetching logs over the control interface: the device side \<open>handleLogsRequest\<close> of
  \<open>src/trusted_os/ctl.go\<close>, which hands out the compressed log in chunks of 1024 bytes, and
  the host side \<open>getLogMessages\<close> of \<open>src/cmd/witnessctl/api.go\<close>, which asks until the
  device has no more. The gzip codec and the HID transport are outside the repository. The host
  loop runs as long as the device announces more; it is modelled with fuel, and the theorem
  below gives a number of rounds that is enough.
\<close>

section \<open>The device side\<close>

text \<open>\<open>ctl.logBuffer\<close>, next to what the log source reads. A failing gzip writer is only logged,
  and writing to a \<open>bytes.Buffer\<close> does not fail, so compression is a function.\<close>

record 's log_ctl =
  lc_os :: 's
  lc_logBuffer :: bytes

definition logChunk :: nat where "logChunk = 1024"

text \<open>The limit the code names for a reply but does not use; a chunk stays below it.\<close>

definition maxChunkSize :: nat where "maxChunkSize = MaxMessageSize - 64"

lemma logChunk_limit: "logChunk < maxChunkSize"
  by (simp add: logChunk_def maxChunkSize_def MaxMessageSize_def)

definition log_response :: "bytes \<Rightarrow> LogMessagesResponse \<times> bytes" where
  "log_response buf =
     (if logChunk < length buf
      then (\<lparr>lm_Payload = take logChunk buf, lm_More = True\<rparr>, drop logChunk buf)
      else (\<lparr>lm_Payload = buf, lm_More = False\<rparr>, []))"

definition handleLogsRequest ::
  "api_codec \<Rightarrow> (bytes \<Rightarrow> bytes) \<Rightarrow> ('s \<Rightarrow> bytes \<times> 's) \<Rightarrow> bytes \<Rightarrow> 's log_ctl \<Rightarrow> bytes \<times> 's log_ctl" where
  "handleLogsRequest K gzip l r c = (case dec_LogRequest K r of
      Ok req \<Rightarrow>
        let c1 = (if \<not> lr_Continue req
                  then (case l (lc_os c) of (logs, s') \<Rightarrow> c\<lparr>lc_os := s', lc_logBuffer := gzip logs\<rparr>)
                  else c)
        in case log_response (lc_logBuffer c1) of
             (ret, rest) \<Rightarrow> (enc_LogResponse K ret, c1\<lparr>lc_logBuffer := rest\<rparr>)
    | Err e \<Rightarrow> (ErrorResponse K e, c)
    | Halt m \<Rightarrow> (ErrorResponse K (ErrorsNew m), c))"

section \<open>The host side\<close>

text \<open>The fetching loop: the compressed data received and the error that stopped it, if any;
  \<open>None\<close> when the fuel is used up. \<open>Command\<close> is the HID transport to the device.\<close>

fun fetch_logs ::
  "nat \<Rightarrow> api_codec \<Rightarrow> (bytes \<Rightarrow> 'w \<Rightarrow> (error + bytes) \<times> 'w) \<Rightarrow> bool \<Rightarrow> 'w
   \<Rightarrow> (bytes \<times> error option \<times> 'w) option" where
  "fetch_logs 0 K Command continue w = None"
| "fetch_logs (Suc n) K Command continue w =
     (case Command (enc_LogRequest K \<lparr>lr_Continue = continue\<rparr>) w of
        (Inl e, w') \<Rightarrow> Some ([], Some e, w')
      | (Inr buf, w') \<Rightarrow> (case dec_LogResponse K buf of
          Ok rsp \<Rightarrow>
            if lm_More rsp
            then (case fetch_logs n K Command True w' of
                None \<Rightarrow> None
              | Some (data, e, w'') \<Rightarrow> Some (lm_Payload rsp @ data, e, w''))
            else Some (lm_Payload rsp, None, w')
        | Err e \<Rightarrow> Some ([], Some e, w')
        | Halt m \<Rightarrow> Some ([], Some (ErrorsNew m), w')))"

declare fetch_logs.simps(2) [simp del]

text \<open>\<open>getLogMessages\<close> returns a text and an error: after a complete compressed stream the text, with the error
  that stopped the fetching, if any; otherwise no text and the error of decompression.\<close>

definition getLogMessages ::
  "nat \<Rightarrow> api_codec \<Rightarrow> (bytes \<Rightarrow> bytes res) \<Rightarrow> (bytes \<Rightarrow> 'w \<Rightarrow> (error + bytes) \<times> 'w) \<Rightarrow> 'w
   \<Rightarrow> ((string \<times> error option) res \<times> 'w) option" where
  "getLogMessages fuel K gunzip Command w = (case fetch_logs fuel K Command False w of
      None \<Rightarrow> None
    | Some (data, fetchErr, w') \<Rightarrow> Some (case gunzip data of
        Ok s \<Rightarrow> Ok (string_of_bytes s, fetchErr)
      | Err e \<Rightarrow> Ok ([], Some e)
      | Halt m \<Rightarrow> Halt m, w'))"

section \<open>Lemmas\<close>

lemma log_response_bound: "length (lm_Payload (fst (log_response buf))) \<le> logChunk"
  by (simp add: log_response_def)

text \<open>A reliable link between the two sides.\<close>

definition reliable_link ::
  "api_codec \<Rightarrow> (bytes \<Rightarrow> bytes) \<Rightarrow> ('s \<Rightarrow> bytes \<times> 's) \<Rightarrow> bytes \<Rightarrow> 's log_ctl \<Rightarrow> (error + bytes) \<times> 's log_ctl" where
  "reliable_link K gzip l r c = (case handleLogsRequest K gzip l r c of (b, c') \<Rightarrow> (Inr b, c'))"

context api_wire
begin

lemma link_continue:
  "reliable_link K gzip l (enc_LogRequest K \<lparr>lr_Continue = True\<rparr>) c =
     (case log_response (lc_logBuffer c) of
        (ret, rest) \<Rightarrow> (Inr (enc_LogResponse K ret), c\<lparr>lc_logBuffer := rest\<rparr>))"
  by (simp add: reliable_link_def handleLogsRequest_def log_request_law split: prod.split)

lemma link_fresh:
  "l (lc_os c) = (logs, s') \<Longrightarrow>
   reliable_link K gzip l (enc_LogRequest K \<lparr>lr_Continue = False\<rparr>) c =
     (case log_response (gzip logs) of
        (ret, rest) \<Rightarrow> (Inr (enc_LogResponse K ret), c\<lparr>lc_os := s', lc_logBuffer := rest\<rparr>))"
  by (simp add: reliable_link_def handleLogsRequest_def log_request_law split: prod.split)

lemma fetch_rest:
  assumes "length buf \<le> n * logChunk" and "lc_logBuffer c = buf"
  shows "fetch_logs (Suc n) K (reliable_link K gzip l) True c = Some (buf, None, c\<lparr>lc_logBuffer := []\<rparr>)"
  using assms
proof (induction n arbitrary: buf c)
  case 0
  then show ?case by (simp add: fetch_logs.simps(2) [of 0] link_continue log_response_def log_response_law)
next
  case (Suc n)
  show ?case
  proof (cases "logChunk < length buf")
    case True
    let ?c = "c\<lparr>lc_logBuffer := drop logChunk buf\<rparr>"
    have "fetch_logs (Suc n) K (reliable_link K gzip l) True ?c = Some (drop logChunk buf, None, ?c\<lparr>lc_logBuffer := []\<rparr>)"
      using Suc.prems(1) by (intro Suc.IH) simp_all
    with True Suc.prems(2) show ?thesis
      by (simp add: fetch_logs.simps(2) [of "Suc n"] link_continue log_response_def
          log_response_law)
  next
    case False
    with Suc.prems(2) show ?thesis
      by (simp add: fetch_logs.simps(2) [of "Suc n"] link_continue log_response_def log_response_law)
  qed
qed

lemma fetch_all:
  assumes "l (lc_os c) = (logs, s')" and "length (gzip logs) \<le> n * logChunk"
  shows "fetch_logs (Suc (Suc n)) K (reliable_link K gzip l) False c
    = Some (gzip logs, None, c\<lparr>lc_os := s', lc_logBuffer := []\<rparr>)"
proof (cases "logChunk < length (gzip logs)")
  case True
  let ?c = "c\<lparr>lc_os := s', lc_logBuffer := drop logChunk (gzip logs)\<rparr>"
  have "fetch_logs (Suc n) K (reliable_link K gzip l) True ?c
      = Some (drop logChunk (gzip logs), None, ?c\<lparr>lc_logBuffer := []\<rparr>)"
    using assms(2) by (intro fetch_rest) simp_all
  with True show ?thesis
    by (simp add: fetch_logs.simps(2) [of "Suc n"] log_response_law log_response_def
        link_fresh [where l = l and c = c, OF assms(1)])
next
  case False
  then show ?thesis
    by (simp add: fetch_logs.simps(2) [of "Suc n"] log_response_law log_response_def
        link_fresh [where l = l and c = c, OF assms(1)])
qed

text \<open>Enough fuel: two rounds more than the compressed log has full chunks, and any number above.\<close>

lemma getLogMessages_all:
  assumes "gunzip (gzip logs) = Ok logs" and "l (lc_os c) = (logs, s')" and "length (gzip logs) div 1024 + 3 \<le> fuel"
  shows "getLogMessages fuel K gunzip (reliable_link K gzip l) c
    = Some (Ok (string_of_bytes logs, None), c\<lparr>lc_os := s', lc_logBuffer := []\<rparr>)"
proof -
  define n where "n = fuel - 2"
  with assms(3) have n: "fuel = Suc (Suc n)" "length (gzip logs) div 1024 + 1 \<le> n" by simp_all
  have "length (gzip logs) = length (gzip logs) div 1024 * 1024 + length (gzip logs) mod 1024" by simp
  moreover have "length (gzip logs) mod 1024 < 1024" by simp
  moreover have "length (gzip logs) div 1024 * 1024 + 1024 \<le> n * 1024"
    using mult_le_mono1 [OF n(2), of 1024] by (simp only: add_mult_distrib mult_1)
  ultimately have "length (gzip logs) \<le> n * logChunk" unfolding logChunk_def by linarith
  from fetch_all [where l = l and c = c and gzip = gzip, OF assms(2) this] assms(1) n(1) show ?thesis
    by (simp add: getLogMessages_def)
qed

end

end
