(* ===== verification/Proto_Wire.thy ===== *)
theory Proto_Wire
  imports Log_Transfer
begin

text \<open>
  A concrete instance of the codec parameter \<open>api_codec\<close>. The encoding is package \<open>protobuf\<close>'s, which is
  not part of the repository; here is what is documented of it (proto3), so that the contract \<open>api_wire\<close>
  is met by a format a device could use and witnesses can evaluate both ends of the link. From the
  repository are the field numbers and kinds: those of the struct tags in \<open>src/api/api.pb.go\<close>.
  A message is a list of numbered fields; fields with their default value are left out, fields that are
  not known are skipped, of a field that occurs several times the last counts, and the parts of an
  embedded message are merged. Text fields must be valid UTF-8 on both sides. Groups, which proto3 does
  not have, are refused; the limit of ten bytes for a number is imposed on tags and values but not on
  lengths, so that lists of every length can be encoded.
\<close>

section \<open>Numbers\<close>

fun put_varint :: "nat \<Rightarrow> bytes" where
  "put_varint n = (if n < 128 then [of_nat n] else of_nat (128 + n mod 128) # put_varint (n div 128))"

declare put_varint.simps [simp del]

fun get_varint :: "bytes \<Rightarrow> (nat \<times> nat \<times> bytes) option" where
  "get_varint [] = None"
| "get_varint (b # r) = (if b < 128 then Some (unat b, 1, r)
     else case get_varint r of None \<Rightarrow> None | Some (v, k, r') \<Rightarrow> Some (unat b - 128 + 128 * v, k + 1, r'))"

text \<open>A number of at most 64 bits in at most ten bytes.\<close>

definition get_uint64 :: "bytes \<Rightarrow> (nat \<times> bytes) option" where
  "get_uint64 bs = (case get_varint bs of None \<Rightarrow> None
     | Some (v, k, r) \<Rightarrow> if k \<le> 10 \<and> v < 2 ^ 64 then Some (v, r) else None)"

lemma get_put_varint: "\<exists>k. get_varint (put_varint n @ r) = Some (n, k, r) \<and> (\<forall>i. n < 128 ^ Suc i \<longrightarrow> k \<le> Suc i)"
proof (induction n arbitrary: r rule: put_varint.induct)
  case (1 n)
  show ?case
  proof (cases "n < 128")
    case True
    then have "(of_nat n :: byte) < 128" by (simp add: word_less_nat_alt unat_of_nat)
    with True show ?thesis by (subst put_varint.simps) (simp add: unat_of_nat)
  next
    case False
    from 1 [OF False, of r] obtain k where
      k: "get_varint (put_varint (n div 128) @ r) = Some (n div 128, k, r)" "\<forall>i. n div 128 < 128 ^ Suc i \<longrightarrow> k \<le> Suc i" by blast
    have b: "unat (of_nat (128 + n mod 128) :: byte) = 128 + n mod 128" by (simp only: unat_of_nat) simp
    then have nb: "\<not> (of_nat (128 + n mod 128) :: byte) < 128" by (simp only: word_less_nat_alt) simp
    have "k + 1 \<le> Suc i" if "n < 128 ^ Suc i" for i
    proof (cases i)
      case 0
      then show ?thesis using that False by simp
    next
      case (Suc j)
      then have "n div 128 < 128 ^ Suc j" using that by (simp add: less_mult_imp_div_less mult.commute)
      with k(2) Suc show ?thesis by simp
    qed
    with False k(1) show ?thesis
      by (subst put_varint.simps) (simp add: nb b del: of_nat_add)
  qed
qed

lemma get_put_uint64 [simp]:
  assumes "n < 2 ^ 64"
  shows "get_uint64 (put_varint n @ r) = Some (n, r)"
proof -
  obtain k where k: "get_varint (put_varint n @ r) = Some (n, k, r)" "\<forall>i. n < 128 ^ Suc i \<longrightarrow> k \<le> Suc i"
    using get_put_varint by blast
  have "n < 128 ^ Suc 9" using assms by simp
  with k(2) have "k \<le> Suc 9" by blast
  with k(1) assms show ?thesis by (simp add: get_uint64_def)
qed

lemma put_varint_nonempty [simp]: "put_varint n \<noteq> []"
  by (subst put_varint.simps) simp

lemma get_varint_shorter: "get_varint bs = Some (v, k, r) \<Longrightarrow> length r < length bs"
  by (induction bs arbitrary: v k) (auto split: if_splits option.splits)

lemma get_uint64_shorter: "get_uint64 bs = Some (v, r) \<Longrightarrow> length r < length bs"
  by (auto simp: get_uint64_def dest: get_varint_shorter split: option.splits if_splits)

section \<open>Fields\<close>

datatype wire_value = Varint nat | Len bytes | Fixed bytes

type_synonym fields = "(nat \<times> wire_value) list"

definition maxField :: nat where "maxField = 2 ^ 29 - 1"

fun put_field :: "nat \<times> wire_value \<Rightarrow> bytes" where
  "put_field (n, Varint v) = put_varint (8 * n) @ put_varint v"
| "put_field (n, Len b) = put_varint (8 * n + 2) @ put_varint (length b) @ b"
| "put_field (n, Fixed b) = put_varint (8 * n + (if length b = 8 then 1 else 5)) @ b"

definition put_fields :: "fields \<Rightarrow> bytes" where
  "put_fields fs = concat (map put_field fs)"

definition take_field :: "nat \<Rightarrow> bytes \<Rightarrow> (bytes \<times> bytes) option" where
  "take_field n bs = (if n \<le> length bs then Some (take n bs, drop n bs) else None)"

definition get_value :: "nat \<Rightarrow> bytes \<Rightarrow> (wire_value \<times> bytes) option" where
  "get_value wt bs =
     (if wt = 0 then map_option (\<lambda>(v, r). (Varint v, r)) (get_uint64 bs)
      else if wt = 1 then map_option (\<lambda>(b, r). (Fixed b, r)) (take_field 8 bs)
      else if wt = 2 then (case get_varint bs of None \<Rightarrow> None
        | Some (n, _, r) \<Rightarrow> map_option (\<lambda>(b, r). (Len b, r)) (take_field n r))
      else if wt = 5 then map_option (\<lambda>(b, r). (Fixed b, r)) (take_field 4 bs)
      else None)"

definition get_field :: "bytes \<Rightarrow> ((nat \<times> wire_value) \<times> bytes) option" where
  "get_field bs = (case get_uint64 bs of None \<Rightarrow> None
     | Some (t, r) \<Rightarrow> if t div 8 = 0 \<or> maxField < t div 8 then None
         else map_option (\<lambda>(v, r'). ((t div 8, v), r')) (get_value (t mod 8) r))"

lemma get_value_shorter: "get_value wt bs = Some (v, r) \<Longrightarrow> length r \<le> length bs"
  by (auto simp: get_value_def take_field_def dest!: get_varint_shorter get_uint64_shorter split: if_splits option.splits)

lemma get_field_shorter: "get_field bs = Some (f, r) \<Longrightarrow> length r < length bs"
  by (auto simp: get_field_def dest!: get_value_shorter get_uint64_shorter split: if_splits option.splits)

function get_fields :: "bytes \<Rightarrow> fields option" where
  "get_fields bs = (if bs = [] then Some [] else case get_field bs of None \<Rightarrow> None
     | Some (f, r) \<Rightarrow> map_option ((#) f) (get_fields r))"
  by pat_completeness auto
termination by (relation "measure length") (auto dest: get_field_shorter)

declare get_fields.simps [simp del]

fun field_ok :: "nat \<times> wire_value \<Rightarrow> bool" where
  "field_ok (n, v) \<longleftrightarrow> 0 < n \<and> n \<le> maxField \<and> (case v of Varint x \<Rightarrow> x < 2 ^ 64 | Len b \<Rightarrow> True
     | Fixed b \<Rightarrow> length b = 4 \<or> length b = 8)"

lemma get_field_tag:
  assumes "0 < n" and "n \<le> maxField" and "w < 8"
  shows "get_field (put_varint (8 * n + w) @ r) = map_option (\<lambda>(v, r'). ((n, v), r')) (get_value w r)"
proof -
  have "8 * n + w < 2 ^ 64" "(8 * n + w) div 8 = n" "(8 * n + w) mod 8 = w" using assms by (auto simp: maxField_def)
  with assms show ?thesis by (simp add: get_field_def)
qed

lemma get_put_field: "field_ok f \<Longrightarrow> get_field (put_field f @ r) = Some (f, r)"
proof (induction f rule: put_field.induct)
  case (1 n v)
  then show ?case using get_field_tag [of n 0] by (simp add: get_value_def)
next
  case (2 n b)
  obtain k where "get_varint (put_varint (length b) @ b @ r) = Some (length b, k, b @ r)"
    using get_put_varint by blast
  with 2 show ?case
    using get_field_tag [of n 2 "put_varint (length b) @ b @ r"] by (simp add: get_value_def take_field_def)
next
  case (3 n b)
  then show ?case
    using get_field_tag [of n 1 "b @ r"] get_field_tag [of n 5 "b @ r"] by (auto simp: get_value_def take_field_def)
qed

lemma get_put_fields: "\<forall>f \<in> set fs. field_ok f \<Longrightarrow> get_fields (put_fields fs) = Some fs"
proof (induction fs)
  case Nil
  show ?case by (simp add: put_fields_def get_fields.simps)
next
  case (Cons f fs)
  have "put_field f \<noteq> []" by (cases f rule: put_field.cases) simp_all
  with Cons show ?case
    by (subst get_fields.simps) (simp add: put_fields_def get_put_field)
qed

section \<open>Reading and writing the fields of a message\<close>

definition lens :: "nat \<Rightarrow> fields \<Rightarrow> bytes list" where
  "lens n fs = concat (map (\<lambda>(k, v). case v of Len b \<Rightarrow> if k = n then [b] else [] | _ \<Rightarrow> []) fs)"

definition varints :: "nat \<Rightarrow> fields \<Rightarrow> nat list" where
  "varints n fs = concat (map (\<lambda>(k, v). case v of Varint x \<Rightarrow> if k = n then [x] else [] | _ \<Rightarrow> []) fs)"

definition last_or :: "'a \<Rightarrow> 'a list \<Rightarrow> 'a" where
  "last_or d xs = (if xs = [] then d else last xs)"

definition data_field :: "nat \<Rightarrow> bytes \<Rightarrow> fields" where
  "data_field n b = (if b = [] then [] else [(n, Len b)])"

definition number_field :: "nat \<Rightarrow> nat \<Rightarrow> fields" where
  "number_field n v = (if v = 0 then [] else [(n, Varint v)])"

abbreviation text_field :: "nat \<Rightarrow> string \<Rightarrow> fields" where
  "text_field n t \<equiv> data_field n (bytes_of_string t)"

abbreviation flag_field :: "nat \<Rightarrow> bool \<Rightarrow> fields" where
  "flag_field n b \<equiv> number_field n (of_bool b)"

definition get_data :: "nat \<Rightarrow> fields \<Rightarrow> bytes" where "get_data n fs = last_or [] (lens n fs)"

definition get_number :: "nat \<Rightarrow> fields \<Rightarrow> nat" where "get_number n fs = last_or 0 (varints n fs)"

abbreviation get_text :: "nat \<Rightarrow> fields \<Rightarrow> string" where "get_text n fs \<equiv> string_of_bytes (get_data n fs)"

abbreviation get_flag :: "nat \<Rightarrow> fields \<Rightarrow> bool" where "get_flag n fs \<equiv> get_number n fs \<noteq> 0"

text \<open>A fragment of a message that says nothing of field \<open>n\<close>, and looking the field up past it.\<close>

lemma lens_append [simp]: "lens n (xs @ ys) = lens n xs @ lens n ys"
  by (simp add: lens_def)

lemma varints_append [simp]: "varints n (xs @ ys) = varints n xs @ varints n ys"
  by (simp add: varints_def)

lemma lens_fields [simp]: "lens n [] = []" "lens n (number_field m v) = []" "n \<noteq> m \<Longrightarrow> lens n (data_field m b) = []"
  "lens n [(m, Len b)] = (if m = n then [b] else [])"
  by (simp_all add: lens_def data_field_def number_field_def)

lemma varints_fields [simp]: "varints n [] = []" "varints n (data_field m b) = []"
  "n \<noteq> m \<Longrightarrow> varints n (number_field m v) = []" "varints n [(m, Len b)] = []"
  by (simp_all add: varints_def data_field_def number_field_def)

lemma last_or_fields [simp]: "last_or [] (lens n (data_field n b)) = b" "last_or 0 (varints n (number_field n v)) = v"
  by (simp_all add: last_or_def lens_def varints_def data_field_def number_field_def)

lemma last_or_append: "last_or d (xs @ ys) = last_or (last_or d xs) ys"
  by (simp add: last_or_def)

section \<open>Text\<close>

definition cont :: "byte \<Rightarrow> bool" where "cont b \<longleftrightarrow> 0x80 \<le> b \<and> b \<le> 0xbf"

fun utf8_valid :: "bytes \<Rightarrow> bool" where
  "utf8_valid [] = True"
| "utf8_valid (a # r) =
     (if a < 0x80 then utf8_valid r else (case r of
        [] \<Rightarrow> False
      | b # r1 \<Rightarrow> if 0xc2 \<le> a \<and> a \<le> 0xdf then cont b \<and> utf8_valid r1 else (case r1 of
          [] \<Rightarrow> False
        | c # r2 \<Rightarrow> if 0xe0 \<le> a \<and> a \<le> 0xef
            then (if a = 0xe0 then 0xa0 \<le> b \<and> b \<le> 0xbf else if a = 0xed then 0x80 \<le> b \<and> b \<le> 0x9f else cont b)
              \<and> cont c \<and> utf8_valid r2
            else (case r2 of
              [] \<Rightarrow> False
            | d # r3 \<Rightarrow> 0xf0 \<le> a \<and> a \<le> 0xf4
              \<and> (if a = 0xf0 then 0x90 \<le> b \<and> b \<le> 0xbf else if a = 0xf4 then 0x80 \<le> b \<and> b \<le> 0x8f else cont b)
              \<and> cont c \<and> cont d \<and> utf8_valid r3))))"

abbreviation utf8_text :: "string \<Rightarrow> bool" where "utf8_text t \<equiv> utf8_valid (bytes_of_string t)"

lemma utf8_ascii: "is_ascii t \<Longrightarrow> utf8_text t"
proof (induction t)
  case (Cons c t)
  then have "unat (byte_of_char c) < 128" by (simp add: is_ascii_def byte_of_char_def unat_of_nat)
  then have "byte_of_char c < 0x80" by (simp add: word_less_nat_alt)
  with Cons show ?case by (simp add: bytes_of_string_def is_ascii_def)
qed (simp add: bytes_of_string_def)

definition texts_valid :: "nat list \<Rightarrow> fields \<Rightarrow> bool" where
  "texts_valid ns fs \<longleftrightarrow> (\<forall>n \<in> set ns. \<forall>b \<in> set (lens n fs). utf8_valid b)"

lemma lens_data_set: "b \<in> set (lens n (data_field n b')) \<Longrightarrow> b = b'"
  by (simp add: lens_def data_field_def split: if_splits)

text \<open>\<open>Marshal\<close> and \<open>Unmarshal\<close>: the texts at the field numbers \<open>ns\<close> are checked; the callers in the
  repository ignore the error of \<open>Marshal\<close> and go on with no bytes.\<close>

definition marshal :: "nat list \<Rightarrow> fields \<Rightarrow> bytes" where
  "marshal ns fs = (if texts_valid ns fs then put_fields fs else [])"

definition unmarshal :: "nat list \<Rightarrow> bytes \<Rightarrow> fields res" where
  "unmarshal ns bs = (case get_fields bs of
      Some fs \<Rightarrow> if texts_valid ns fs then Ok fs else Err (External ''string field contains invalid UTF-8'')
    | None \<Rightarrow> Err (External ''cannot parse invalid wire-format data''))"

lemma unmarshal_marshal:
  assumes "\<forall>f \<in> set fs. field_ok f" and "texts_valid ns fs"
  shows "unmarshal ns (marshal ns fs) = Ok fs"
  using assms by (simp add: unmarshal_def marshal_def get_put_fields)

section \<open>The messages\<close>

text \<open>The field numbers are those of the struct tags in \<open>src/api/api.pb.go\<close>.\<close>

definition fields_WitnessStatus :: "WitnessStatus \<Rightarrow> fields" where
  "fields_WitnessStatus w = text_field 1 (ws_Identity w) @ text_field 2 (ws_IP w) @ text_field 3 (ws_IDAttestPublicKey w)
     @ text_field 4 (ws_AttestedID w) @ text_field 5 (ws_AttestedBastionID w)"

definition texts_WitnessStatus :: "nat list" where "texts_WitnessStatus = [1, 2, 3, 4, 5]"

definition WitnessStatus_of :: "fields \<Rightarrow> WitnessStatus" where
  "WitnessStatus_of fs = \<lparr>ws_Identity = get_text 1 fs, ws_IP = get_text 2 fs, ws_IDAttestPublicKey = get_text 3 fs,
     ws_AttestedID = get_text 4 fs, ws_AttestedBastionID = get_text 5 fs\<rparr>"

definition fields_Status :: "Status \<Rightarrow> fields" where
  "fields_Status s = text_field 1 (st_Serial s) @ flag_field 2 (st_HAB s) @ text_field 3 (st_Revision s)
     @ text_field 4 (st_Build s) @ text_field 5 (st_Version s) @ text_field 6 (st_Runtime s) @ flag_field 7 (st_Link s)
     @ (case st_Witness s of None \<Rightarrow> [] | Some w \<Rightarrow> [(8, Len (marshal texts_WitnessStatus (fields_WitnessStatus w)))])
     @ number_field 9 (unat (st_IdentityCounter s)) @ text_field 10 (st_SRKHash s) @ text_field 11 (st_MAC s)"

definition texts_Status :: "nat list" where "texts_Status = [1, 3, 4, 5, 6, 10, 11]"

definition Status_of :: "fields \<Rightarrow> fields option \<Rightarrow> Status" where
  "Status_of fs w = \<lparr>st_Serial = get_text 1 fs, st_HAB = get_flag 2 fs, st_Revision = get_text 3 fs,
     st_Build = get_text 4 fs, st_Version = get_text 5 fs, st_Runtime = get_text 6 fs, st_Link = get_flag 7 fs,
     st_Witness = map_option WitnessStatus_of w, st_IdentityCounter = of_nat (get_number 9 fs),
     st_SRKHash = get_text 10 fs, st_MAC = get_text 11 fs\<rparr>"

text \<open>Every occurrence of an embedded message must parse; their fields are merged.\<close>

fun unmarshal_all :: "nat list \<Rightarrow> bytes list \<Rightarrow> fields res" where
  "unmarshal_all ns [] = Ok []"
| "unmarshal_all ns (b # bs) = (case unmarshal ns b of
      Ok fs \<Rightarrow> (case unmarshal_all ns bs of Ok gs \<Rightarrow> Ok (fs @ gs) | Err e \<Rightarrow> Err e | Halt m \<Rightarrow> Halt m)
    | Err e \<Rightarrow> Err e | Halt m \<Rightarrow> Halt m)"

text \<open>An embedded message that cannot be encoded makes the whole message fail.\<close>

definition proto_enc_Status :: "Status \<Rightarrow> bytes" where
  "proto_enc_Status s =
     (if pred_option (\<lambda>w. texts_valid texts_WitnessStatus (fields_WitnessStatus w)) (st_Witness s)
      then marshal texts_Status (fields_Status s) else [])"

definition proto_dec_Status :: "bytes \<Rightarrow> Status res" where
  "proto_dec_Status bs = (case unmarshal texts_Status bs of
      Ok fs \<Rightarrow> (case unmarshal_all texts_WitnessStatus (lens 8 fs) of
          Ok w \<Rightarrow> Ok (Status_of fs (if lens 8 fs = [] then None else Some w))
        | Err e \<Rightarrow> Err e | Halt m \<Rightarrow> Halt m)
    | Err e \<Rightarrow> Err e | Halt m \<Rightarrow> Halt m)"

definition fields_Configuration :: "Configuration \<Rightarrow> fields" where
  "fields_Configuration c = flag_field 1 (cf_DHCP c) @ text_field 2 (cf_IP c) @ text_field 3 (cf_Netmask c)
     @ text_field 4 (cf_Gateway c) @ text_field 5 (cf_Resolver c) @ text_field 6 (cf_NTPServer c)"

definition texts_Configuration :: "nat list" where "texts_Configuration = [2, 3, 4, 5, 6]"

definition proto_enc_Configuration :: "Configuration \<Rightarrow> bytes" where
  "proto_enc_Configuration c = marshal texts_Configuration (fields_Configuration c)"

definition proto_enc_LogRequest :: "LogMessagesRequest \<Rightarrow> bytes" where
  "proto_enc_LogRequest q = put_fields (flag_field 1 (lr_Continue q))"

definition proto_dec_LogRequest :: "bytes \<Rightarrow> LogMessagesRequest res" where
  "proto_dec_LogRequest bs = (case unmarshal [] bs of
      Ok fs \<Rightarrow> Ok \<lparr>lr_Continue = get_flag 1 fs\<rparr> | Err e \<Rightarrow> Err e | Halt m \<Rightarrow> Halt m)"

definition proto_enc_LogResponse :: "LogMessagesResponse \<Rightarrow> bytes" where
  "proto_enc_LogResponse m = put_fields (data_field 1 (lm_Payload m) @ flag_field 2 (lm_More m))"

definition proto_dec_LogResponse :: "bytes \<Rightarrow> LogMessagesResponse res" where
  "proto_dec_LogResponse bs = (case unmarshal [] bs of
      Ok fs \<Rightarrow> Ok \<lparr>lm_Payload = get_data 1 fs, lm_More = get_flag 2 fs\<rparr> | Err e \<Rightarrow> Err e | Halt m \<Rightarrow> Halt m)"

text \<open>Unknown error codes are kept by the library as numbers; the callers only compare with \<open>NONE\<close>.\<close>

definition proto_enc_Response :: "Response \<Rightarrow> bytes" where
  "proto_enc_Response r = put_fields (flag_field 1 (rsp_Error r \<noteq> NONE) @ data_field 2 (rsp_Payload r))"

definition proto_dec_Response :: "bytes \<Rightarrow> Response res" where
  "proto_dec_Response bs = (case unmarshal [] bs of
      Ok fs \<Rightarrow> Ok \<lparr>rsp_Error = (if get_flag 1 fs then GENERIC_ERROR else NONE), rsp_Payload = get_data 2 fs\<rparr>
    | Err e \<Rightarrow> Err e | Halt m \<Rightarrow> Halt m)"

definition proto_codec :: api_codec where
  "proto_codec = \<lparr>enc_Response = proto_enc_Response, dec_Response = proto_dec_Response,
     enc_Status = proto_enc_Status, dec_Status = proto_dec_Status, enc_Configuration = proto_enc_Configuration,
     enc_LogRequest = proto_enc_LogRequest, dec_LogRequest = proto_dec_LogRequest,
     enc_LogResponse = proto_enc_LogResponse, dec_LogResponse = proto_dec_LogResponse\<rparr>"

section \<open>Round trips\<close>

lemma field_sets:
  "f \<in> set (data_field n b) \<longleftrightarrow> b \<noteq> [] \<and> f = (n, Len b)"
  "f \<in> set (number_field n v) \<longleftrightarrow> v \<noteq> 0 \<and> f = (n, Varint v)"
  by (auto simp: data_field_def number_field_def)

lemma unat32_64: "unat (c :: 32 word) < 2 ^ 64"
  using unsigned_less [of c, where 'a = nat] by simp

lemma fields_Status_ok: "f \<in> set (fields_Status s) \<Longrightarrow> field_ok f"
  using unat32_64 [of "st_IdentityCounter s"]
  by (auto simp: fields_Status_def maxField_def field_sets split: option.splits)

lemma fields_WitnessStatus_ok: "f \<in> set (fields_WitnessStatus w) \<Longrightarrow> field_ok f"
  by (auto simp: fields_WitnessStatus_def maxField_def field_sets)

lemma fields_Configuration_ok: "f \<in> set (fields_Configuration c) \<Longrightarrow> field_ok f"
  by (auto simp: fields_Configuration_def maxField_def field_sets)

lemma texts_Status_valid: "\<forall>t \<in> set (status_texts s). utf8_text t \<Longrightarrow> texts_valid texts_Status (fields_Status s)"
  by (auto simp: texts_valid_def texts_Status_def fields_Status_def status_texts_def
      dest!: lens_data_set split: option.splits)

lemma texts_WitnessStatus_valid:
  "\<forall>t \<in> set (witness_texts w). utf8_text t \<Longrightarrow> texts_valid texts_WitnessStatus (fields_WitnessStatus w)"
  by (auto simp: texts_valid_def texts_WitnessStatus_def fields_WitnessStatus_def witness_texts_def
      dest!: lens_data_set)

lemma WitnessStatus_of_fields [simp]: "WitnessStatus_of (fields_WitnessStatus w) = w"
  by (simp add: WitnessStatus_of_def fields_WitnessStatus_def get_data_def)

lemma Status_of_fields:
  "Status_of (fields_Status s) (map_option fields_WitnessStatus (st_Witness s)) = s"
  by (simp add: Status_of_def fields_Status_def get_data_def get_number_def option.map_comp comp_def
      split: option.split)

lemma status_roundtrip:
  assumes t: "\<forall>t \<in> set (status_texts s). utf8_text t"
  shows "proto_dec_Status (proto_enc_Status s) = Ok s"
proof -
  have w: "texts_valid texts_WitnessStatus (fields_WitnessStatus w)" if "st_Witness s = Some w" for w
    using t that by (intro texts_WitnessStatus_valid) (simp add: status_texts_def)
  have e: "proto_enc_Status s = marshal texts_Status (fields_Status s)"
    using w by (cases "st_Witness s") (simp_all add: proto_enc_Status_def)
  have u: "unmarshal texts_Status (proto_enc_Status s) = Ok (fields_Status s)"
    unfolding e using texts_Status_valid [OF t] fields_Status_ok by (intro unmarshal_marshal) auto
  have l: "lens 8 (fields_Status s)
      = (case st_Witness s of None \<Rightarrow> [] | Some w \<Rightarrow> [marshal texts_WitnessStatus (fields_WitnessStatus w)])"
    by (simp add: fields_Status_def split: option.split)
  have m: "unmarshal texts_WitnessStatus (marshal texts_WitnessStatus (fields_WitnessStatus w)) = Ok (fields_WitnessStatus w)"
    if "st_Witness s = Some w" for w
    using w [OF that] fields_WitnessStatus_ok by (intro unmarshal_marshal) auto
  show ?thesis
    using m Status_of_fields [of s] by (cases "st_Witness s") (simp_all add: proto_dec_Status_def u l)
qed

lemma unmarshal_plain: "\<forall>f \<in> set fs. field_ok f \<Longrightarrow> unmarshal [] (put_fields fs) = Ok fs"
  by (simp add: unmarshal_def get_put_fields texts_valid_def)

lemma response_roundtrip: "proto_dec_Response (proto_enc_Response r) = Ok r"
proof -
  have "unmarshal [] (proto_enc_Response r) = Ok (flag_field 1 (rsp_Error r \<noteq> NONE) @ data_field 2 (rsp_Payload r))"
    unfolding proto_enc_Response_def by (rule unmarshal_plain) (auto simp: maxField_def field_sets)
  then show ?thesis
    by (cases "rsp_Error r") (simp_all add: proto_dec_Response_def get_data_def get_number_def)
qed

lemma log_request_roundtrip: "proto_dec_LogRequest (proto_enc_LogRequest q) = Ok q"
proof -
  have "unmarshal [] (proto_enc_LogRequest q) = Ok (flag_field 1 (lr_Continue q))"
    unfolding proto_enc_LogRequest_def by (rule unmarshal_plain) (auto simp: maxField_def field_sets)
  then show ?thesis by (simp add: proto_dec_LogRequest_def get_number_def)
qed

lemma log_response_roundtrip: "proto_dec_LogResponse (proto_enc_LogResponse m) = Ok m"
proof -
  have "unmarshal [] (proto_enc_LogResponse m) = Ok (data_field 1 (lm_Payload m) @ flag_field 2 (lm_More m))"
    unfolding proto_enc_LogResponse_def by (rule unmarshal_plain) (auto simp: maxField_def field_sets)
  then show ?thesis by (simp add: proto_dec_LogResponse_def get_data_def get_number_def)
qed

lemma put_fields_Nil [simp]: "put_fields [] = []"
  by (simp add: put_fields_def)

interpretation proto: api_wire proto_codec
proof
  show "dec_Status proto_codec (enc_Status proto_codec s) = Ok s" if "\<forall>t \<in> set (status_texts s). is_ascii t" for s
    using status_roundtrip [of s] utf8_ascii that by (simp add: proto_codec_def)
qed (simp_all add: proto_codec_def response_roundtrip log_request_roundtrip log_response_roundtrip)

lemma Configuration_Bytes_nonempty:
  assumes "\<forall>t \<in> {cf_IP c, cf_Netmask c, cf_Gateway c, cf_Resolver c, cf_NTPServer c}. is_ascii t" and "cf_IP c \<noteq> []"
  shows "Configuration_Bytes proto_codec c \<noteq> []"
proof -
  have "texts_valid texts_Configuration (fields_Configuration c)"
    using assms(1) utf8_ascii
    by (auto simp: texts_valid_def texts_Configuration_def fields_Configuration_def dest!: lens_data_set)
  moreover have "fields_Configuration c \<noteq> []"
    using assms(2) by (simp add: fields_Configuration_def data_field_def bytes_of_string_def)
  ultimately show ?thesis
    using fields_Configuration_ok get_put_fields [of "fields_Configuration c"]
    by (auto simp: Configuration_Bytes_def proto_codec_def proto_enc_Configuration_def marshal_def get_fields.simps)
qed

section \<open>Properties\<close>

lemma length_put_varint: "n < 128 ^ Suc k \<Longrightarrow> length (put_varint n) \<le> Suc k"
proof (induction k arbitrary: n)
  case 0
  then show ?case by (subst put_varint.simps) simp
next
  case (Suc k)
  then have "n div 128 < 128 ^ Suc k" by (simp add: less_mult_imp_div_less mult.commute)
  from Suc.IH [OF this] show ?case by (subst put_varint.simps) simp
qed

lemma log_response_size:
  assumes "length (lm_Payload m) < 128 ^ 2"
  shows "length (proto_enc_LogResponse m) \<le> length (lm_Payload m) + 5"
proof -
  have "length (put_varint (length (lm_Payload m))) \<le> 2" using length_put_varint [of _ 1] assms by (simp add: numeral_2_eq_2)
  moreover have "length (put_varint n) = 1" if "n < 128" for n using that by (subst put_varint.simps) simp
  ultimately show ?thesis
    by (simp add: proto_enc_LogResponse_def put_fields_def data_field_def number_field_def)
qed

text \<open>Replies to log requests fit the transport. Whatever the request and the logs, the encoded reply
  to a request that parses has at most 1029 bytes, below the limit for a message; it carries at most
  1024 bytes of the compressed log and announces more exactly when something is left in the device's
  buffer.\<close>

lemma log_replies_fit:
  assumes "dec_LogRequest proto_codec r = Ok req" and "handleLogsRequest proto_codec gzip l r c = (b, c')"
  shows "length b \<le> 1029 \<and> 1029 < MaxMessageSize
    \<and> (\<exists>m. dec_LogResponse proto_codec b = Ok m \<and> length (lm_Payload m) \<le> 1024
        \<and> (lm_More m \<longleftrightarrow> lc_logBuffer c' \<noteq> []))"
proof -
  obtain m where b: "b = proto_enc_LogResponse m" and m: "length (lm_Payload m) \<le> 1024" "lm_More m \<longleftrightarrow> lc_logBuffer c' \<noteq> []"
    using assms by (auto simp: handleLogsRequest_def log_response_def logChunk_def proto_codec_def Let_def
        split: prod.splits if_splits)
  have "length b \<le> 1029" using log_response_size [of m] m(1) by (simp add: b)
  moreover have "dec_LogResponse proto_codec b = Ok m" by (simp add: b proto_codec_def log_response_roundtrip)
  ultimately show ?thesis using m by (auto simp: MaxMessageSize_def)
qed

lemma log_replies_fit_example:
  "length (fst (handleLogsRequest proto_codec (\<lambda>b. b) (\<lambda>u. (replicate 3000 65, u)) [] \<lparr>lc_os = (), lc_logBuffer = []\<rparr>)) \<le> 1029
    \<and> lc_logBuffer (snd (handleLogsRequest proto_codec (\<lambda>b. b) (\<lambda>u. (replicate 3000 65, u)) [] \<lparr>lc_os = (), lc_logBuffer = []\<rparr>)) \<noteq> []"
proof -
  have r: "dec_LogRequest proto_codec [] = Ok \<lparr>lr_Continue = False\<rparr>"
    using log_request_roundtrip [of "\<lparr>lr_Continue = False\<rparr>"]
    by (simp add: proto_codec_def proto_enc_LogRequest_def number_field_def)
  show ?thesis
    using log_replies_fit [OF r prod.collapse [symmetric],
        of "\<lambda>b. b" "\<lambda>u. (replicate 3000 65, u)" "\<lparr>lc_os = (), lc_logBuffer = []\<rparr>"]
    by (simp add: handleLogsRequest_def r log_response_def logChunk_def)
qed

end
