(* ===== verification/Flash_Update.thy ===== *)
theory Flash_Update
  imports Flash_Props Proto_Wire
begin

text \<open>
  Repeated updates of the applet with power cycles in between, on a card whose writes can fail and can
  leave anything in the blocks they were to write: \<open>updateApplet\<close> and \<open>read\<close> of
  \<open>src/trusted_os/flash.go\<close> together behave like one register that holds the installed bundle. An update
  that reports success replaces it. An update that fails before the configuration leaves it as it was. An
  update whose write of the configuration fails can leave the register undefined; the configuration is
  not written twice, so then the next start may find no applet, against the comment in
  \<open>flashFirmware\<close>. The next update that reports success defines the register again.
\<close>

section \<open>Contracts\<close>

locale faulty_card = card_frame C img inv
  for C :: "'w Card" and img :: "'w \<Rightarrow> image" and inv :: "'w \<Rightarrow> bool" +
  fixes cap :: int
  assumes faulty_block_size: "inv w \<Longrightarrow> BlockSize (card_Info C w) = 512"
    and faulty_read_law: "inv w \<Longrightarrow> 0 \<le> off \<Longrightarrow> off mod 512 = 0 \<Longrightarrow> off + int n \<le> cap * 512 \<Longrightarrow> off < cap * 512 \<Longrightarrow>
      \<exists>w'. card_Read C off (int n) w = (Ok (get_bytes (img w) off n), w')"

text \<open>A working card is one of them.\<close>

sublocale block_card \<subseteq> faulty_card
  by unfold_locales (rule block_size read_law, assumption+)+

text \<open>What is relied on of the boot configuration's codec: an encoding fits its area, and decoding finds
  it whatever follows it on the medium.\<close>

locale config_codec =
  fixes K :: boot_codec
  assumes area_law: "0 \<le> MaxLength K" "MaxLength K \<le> 40960"
    and encode_law: "cfg_Encode K c = Ok enc \<Longrightarrow> length enc < 40960 \<and> int (length enc) \<le> MaxLength K"
    and decode_law: "cfg_Encode K c = Ok enc \<Longrightarrow> cfg_Decode K (enc @ rest) = Ok c"

section \<open>The installed bundle\<close>

definition config_area :: "boot_codec \<Rightarrow> image \<Rightarrow> bytes" where
  "config_area K i = get_bytes i (taConfBlock * 512) (nat (MaxLength K))"

definition config_of :: "Bundle \<Rightarrow> int \<Rightarrow> BootConfig" where
  "config_of b blk = \<lparr>cfg_Size = int (length (fb_Firmware b)), cfg_Offset = blk * 512,
     cfg_Bundle = \<lparr>pb_Checkpoint = fb_Checkpoint b, pb_Manifest = fb_Manifest b, pb_LogIndex = fb_Index b,
       pb_InclusionProof = fb_InclusionProof b\<rparr>\<rparr>"

definition stored :: "boot_codec \<Rightarrow> image \<Rightarrow> Bundle \<Rightarrow> int \<Rightarrow> bool" where
  "stored K i b blk \<longleftrightarrow> blk \<in> {taBlockA, taBlockB} \<and> int (length (fb_Firmware b)) < slotBytes
     \<and> cfg_Decode K (config_area K i) = Ok (config_of b blk)
     \<and> get_bytes i (blk * 512) (length (fb_Firmware b)) = fb_Firmware b"

lemma config_of_bundle [simp]:
  "config_of (bundle_of elf pb) blk = \<lparr>cfg_Size = int (length elf), cfg_Offset = blk * 512, cfg_Bundle = pb\<rparr>"
  by (simp add: config_of_def bundle_of_def)

lemma stored_cong:
  assumes "stored K i b blk" and "MaxLength K \<le> 40960"
    and "\<And>x. taConfBlock * 512 \<le> x \<Longrightarrow> x < taConfBlock * 512 + 40960 \<Longrightarrow> i' x = i x"
    and "\<And>x. blk * 512 \<le> x \<Longrightarrow> x < blk * 512 + slotBytes \<Longrightarrow> i' x = i x"
  shows "stored K i' b blk"
proof -
  have "config_area K i' = config_area K i"
    unfolding config_area_def using assms(2,3) by (intro get_bytes_cong) (simp split: if_splits)
  moreover have "get_bytes i' (blk * 512) (length (fb_Firmware b)) = get_bytes i (blk * 512) (length (fb_Firmware b))"
    using assms(1,4) by (intro get_bytes_cong) (simp_all add: stored_def)
  ultimately show ?thesis using assms(1) by (simp add: stored_def)
qed

lemma slots_fit: "taBlockB + 0xFD000 \<le> cap \<Longrightarrow> blk \<in> {taBlockA, taBlockB} \<Longrightarrow> 0 \<le> blk \<and> blk * 512 + slotBytes \<le> cap * 512"
  by (auto simp: layout_defs slotBytes_def)

text \<open>The medium once the image and the configuration that describes it are written.\<close>

lemma stored_after:
  assumes codec: "config_codec K"
    and enc: "cfg_Encode K \<lparr>cfg_Size = int (length elf), cfg_Offset = blk * 512, cfg_Bundle = pb\<rparr> = Ok enc"
    and img: "i = put_bytes j (blk * 512) (flash_image elf)" and geo: "taConfBlock * 512 + 40960 \<le> blk * 512"
    and blk: "blk \<in> {taBlockA, taBlockB}" and elf: "int (length elf) < slotBytes"
  shows "stored K (put_bytes i (taConfBlock * 512) (flash_image enc)) (bundle_of elf pb) blk"
proof -
  let ?i = "put_bytes i (taConfBlock * 512) (flash_image enc)"
  note L = config_codec.encode_law [OF codec enc] config_codec.area_law [OF codec]
  have enc': "int (length (flash_image enc)) \<le> 40960" using L(1) flash_image_fits [of enc 80] by simp
  have "get_bytes ?i (taConfBlock * 512) (length enc) = enc"
    using get_put_bytes [of "length enc" "flash_image enc"] by (simp add: flash_image_def)
  moreover have "length enc \<le> nat (MaxLength K)" using L(1) by linarith
  ultimately obtain rest where "config_area K ?i = enc @ rest"
    using get_bytes_append [of ?i "taConfBlock * 512" "length enc" "nat (MaxLength K) - length enc"]
    by (simp add: config_area_def)
  then have "cfg_Decode K (config_area K ?i) = Ok (config_of (bundle_of elf pb) blk)"
    using config_codec.decode_law [OF codec enc] by simp
  moreover have "get_bytes ?i (blk * 512) (length elf) = get_bytes i (blk * 512) (length elf)"
    using geo enc' by (intro get_put_disjoint) linarith
  then have "get_bytes ?i (blk * 512) (length elf) = elf"
    by (simp add: img get_put_bytes flash_image_def)
  ultimately show ?thesis using blk elf by (simp add: stored_def bundle_of_def config_of_def)
qed

context faulty_card
begin

lemma read_stored:
  assumes "inv (world s)" and "stored K (img (world s)) b blk" and "0 \<le> MaxLength K" "MaxLength K \<le> 40960"
    and cap: "taBlockB + 0xFD000 \<le> cap"
  obtains w' where "read K C s = (Ok b, s\<lparr>world := w', appletLoadedFromBlock := blk\<rparr>)" and "inv w'" and "img w' = img (world s)"
proof -
  have bs: "BlockSize (card_Info C (world s)) = 512" by (rule faulty_block_size [OF assms(1)])
  have blk: "blk \<in> {taBlockA, taBlockB}" using assms(2) by (simp add: stored_def)
  note fit = slots_fit [OF cap this]
  obtain w1 where w1: "card_Read C (taConfBlock * 512) (MaxLength K) (world s) = (Ok (config_area K (img (world s))), w1)"
    using faulty_read_law [OF assms(1), of "taConfBlock * 512" "nat (MaxLength K)"] assms(3,4) cap
    by (auto simp: layout_defs config_area_def)
  note f1 = read_frame_law [OF assms(1) w1]
  obtain w2 where w2: "card_Read C (blk * 512) (int (length (fb_Firmware b))) w1 = (Ok (fb_Firmware b), w2)"
    using faulty_read_law [of w1 "blk * 512" "length (fb_Firmware b)"] f1 fit assms(2)
    by (auto simp: stored_def slotBytes_def)
  have "read K C s = (Ok b, s\<lparr>world := w2, appletLoadedFromBlock := blk\<rparr>)"
    using bs w1 w2 assms(2) fit
    by (simp add: read_def readConfig_def bindS_apply wrapS_apply onWorld_apply expectedBlockSize_def stored_def config_of_def)
  with read_frame_law [of w1, OF _ w2] f1 that show ?thesis by auto
qed

text \<open>A successful update, from any state.\<close>

lemma update_success:
  assumes codec: "config_codec K" and "inv (world s)" and elf: "int (length elf) < slotBytes"
    and run: "updateApplet K verify (Some C) elf pb s = (Ok (), s')"
  shows "(\<exists>m. verify (bundle_of elf pb) = Ok m) \<and> (\<exists>blk. stored K (img (world s')) (bundle_of elf pb) blk)"
proof -
  obtain elfBlock where t: "flash_target s Firmware_Applet = Some (taConfBlock, elfBlock)" by (simp add: flash_target_def)
  let ?c = "\<lparr>cfg_Size = int (length elf), cfg_Offset = elfBlock * 512, cfg_Bundle = pb\<rparr>"
  have eb: "elfBlock \<in> {taBlockA, taBlockB}" using t by (auto simp: flash_target_def layout_defs)
  obtain m where v: "verify (bundle_of elf pb) = Ok m" and ff: "flashFirmware K (Some C) Firmware_Applet elf pb s = (Ok (), s')"
    using run by (auto simp: updateApplet_def bindS_apply split: res.splits)
  obtain enc where enc: "cfg_Encode K ?c = Ok enc"
    using ff t by (auto simp: flashFirmware_def bindS_apply expectedBlockSize_def split: res.splits)
  obtain w1 where f: "flash C elf elfBlock (world s) = (Ok (), w1)" and g: "flash C enc taConfBlock w1 = (Ok (), world s')"
    by (rule flashFirmware_stages [OF assms(2) t enc ff]) blast
  note F = flash_frame [OF assms(2) f]
  note G = flash_frame [OF conjunct1 [OF F] g]
  have "stored K (put_bytes (img w1) (taConfBlock * 512) (flash_image enc)) (bundle_of elf pb) elfBlock"
    by (rule stored_after [OF codec enc _ _ eb elf]) (use F eb in \<open>auto simp: layout_defs\<close>)
  with v G show ?thesis by auto
qed

text \<open>One update from a state that runs the stored bundle: unless the write of the configuration failed,
  the bundle is kept or replaced.\<close>

lemma update_stored:
  assumes codec: "config_codec K" and "inv (world s)" and st: "stored K (img (world s)) b (appletLoadedFromBlock s)"
    and elf: "int (length elf) < slotBytes" and run: "updateApplet K verify (Some C) elf pb s = (q, s')"
    and q: "q \<noteq> Ok ()"
  shows "stored K (img (world s')) b (appletLoadedFromBlock s)
    \<or> (\<exists>m. verify (bundle_of elf pb) = Ok m) \<and> conf_write_failed q"
proof -
  obtain elfBlock where t: "flash_target s Firmware_Applet = Some (taConfBlock, elfBlock)" by (simp add: flash_target_def)
  let ?blk = "appletLoadedFromBlock s"
  let ?c = "\<lparr>cfg_Size = int (length elf), cfg_Offset = elfBlock * 512, cfg_Bundle = pb\<rparr>"
  have blk: "?blk \<in> {taBlockA, taBlockB}" using st by (simp add: stored_def)
  then have eb: "elfBlock \<in> {taBlockA, taBlockB}" "elfBlock \<noteq> ?blk"
    using t by (auto simp: flash_target_def layout_defs)
  have apart: "?blk * 512 + slotBytes \<le> elfBlock * 512 \<or> elfBlock * 512 + slotBytes \<le> ?blk * 512"
      "taConfBlock * 512 + 40960 \<le> ?blk * 512" "taConfBlock * 512 + 40960 \<le> elfBlock * 512"
    using blk eb by (auto simp: layout_defs slotBytes_def)
  show ?thesis
  proof (cases "\<exists>m enc. verify (bundle_of elf pb) = Ok m \<and> cfg_Encode K ?c = Ok enc")
    case False
    then have "s' = s" using run t
      by (auto simp: updateApplet_def flashFirmware_def bindS_apply expectedBlockSize_def split: res.splits)
    with st show ?thesis by auto
  next
    case True
    then obtain m enc where v: "verify (bundle_of elf pb) = Ok m" and enc: "cfg_Encode K ?c = Ok enc" by blast
    then have ff: "flashFirmware K (Some C) Firmware_Applet elf pb s = (q, s')"
      using run by (simp add: updateApplet_def bindS_apply)
    obtain w1 q1 where f: "flash C elf elfBlock (world s) = (q1, w1)" and stop: "q1 \<noteq> Ok () \<longrightarrow> world s' = w1"
      and go: "q1 = Ok () \<longrightarrow> conf_write_failed q"
      by (rule flashFirmware_stages [OF assms(2) t enc ff]) (use q in blast)
    note F = flash_frame [OF assms(2) f]
    have el: "int (length (flash_image elf)) \<le> slotBytes"
      using elf flash_image_fits [of elf "0xFD000"] by (simp add: slotBytes_def)
    have old: "img w1 x = img (world s) x" if "x < elfBlock * 512 \<or> elfBlock * 512 + slotBytes \<le> x" for x
    proof -
      note F' = F [THEN conjunct2, THEN conjunct2, THEN conjunct1, rule_format, of x]
      show ?thesis using that el by (intro F') linarith
    qed
    have "stored K (img w1) b ?blk"
      by (rule stored_cong [OF st config_codec.area_law(2) [OF codec]]) (use apart old in \<open>auto simp: slotBytes_def\<close>)
    with stop go v show ?thesis by auto
  qed
qed

text \<open>An update keeps the card's invariant.\<close>

lemma update_inv:
  assumes "inv (world s)" and run: "updateApplet K verify (Some C) elf pb s = (q, s')"
  shows "inv (world s')"
proof -
  obtain elfBlock where t: "flash_target s Firmware_Applet = Some (taConfBlock, elfBlock)" by (simp add: flash_target_def)
  let ?c = "\<lparr>cfg_Size = int (length elf), cfg_Offset = elfBlock * 512, cfg_Bundle = pb\<rparr>"
  show ?thesis
  proof (cases "\<exists>m enc. verify (bundle_of elf pb) = Ok m \<and> cfg_Encode K ?c = Ok enc")
    case False
    then have "s' = s" using run t
      by (auto simp: updateApplet_def flashFirmware_def bindS_apply expectedBlockSize_def split: res.splits)
    with assms(1) show ?thesis by simp
  next
    case True
    then obtain enc where enc: "cfg_Encode K ?c = Ok enc" and ff: "flashFirmware K (Some C) Firmware_Applet elf pb s = (q, s')"
      using run by (auto simp: updateApplet_def bindS_apply)
    obtain w1 q1 q2 where f: "flash C elf elfBlock (world s) = (q1, w1)"
      and "world s' = w1 \<or> flash C enc taConfBlock w1 = (q2, world s')"
      by (rule flashFirmware_stages [OF assms(1) t enc ff]) blast
    then show ?thesis using flash_frame [OF assms(1) f] flash_frame [of w1] by auto
  qed
qed

lemma read_inv:
  assumes "inv (world s)" and "read K C s = (r, s')"
  shows "inv (world s')"
proof -
  obtain q1 w1 where 1: "card_Read C (taConfBlock * expectedBlockSize) (MaxLength K) (world s) = (q1, w1)"
    by (cases "card_Read C (taConfBlock * expectedBlockSize) (MaxLength K) (world s)")
  have I: "inv w1" using read_frame_law [OF assms(1) 1] by simp
  have "inv w" if "card_Read C off n w1 = (q, w)" for off n q w using read_frame_law [OF I that] by simp
  with assms I 1 show ?thesis
    by (auto simp: read_def readConfig_def bindS_apply wrapS_apply onWorld_apply liftRes_def split: res.splits if_splits prod.splits)
qed

end

section \<open>Cycles of update and power-up\<close>

text \<open>Go initialises the package variables anew at every start.\<close>

definition power_cycle :: "('w, 'z) flash_state_scheme \<Rightarrow> ('w, 'z) flash_state_scheme" where
  "power_cycle s = s\<lparr>appletLoadedFromBlock := 0, osLoadedFromBlock := 0\<rparr>"

text \<open>Each cycle gives the result of the update and what the next start reads.\<close>

fun update_cycles :: "boot_codec \<Rightarrow> (Bundle \<Rightarrow> 'm res) \<Rightarrow> 'w Card \<Rightarrow> (bytes \<times> ProofBundle) list
    \<Rightarrow> ('w, 'z) flash_state_scheme \<Rightarrow> (unit res \<times> Bundle res) list" where
  "update_cycles K verify C [] s = []"
| "update_cycles K verify C ((elf, pb) # us) s =
     (case updateApplet K verify (Some C) elf pb s of (q, s1) \<Rightarrow>
      case read K C (power_cycle s1) of (r, s2) \<Rightarrow> (q, r) # update_cycles K verify C us s2)"

text \<open>The specification: one register, undefined (\<open>None\<close>) from a failed write of the configuration to
  the next successful update.\<close>

inductive installed_run :: "(Bundle \<Rightarrow> 'm res) \<Rightarrow> Bundle option \<Rightarrow> (bytes \<times> ProofBundle) list \<Rightarrow> (unit res \<times> Bundle res) list \<Rightarrow> bool"
  for verify where
  finished: "installed_run verify reg [] []"
| unchanged: "q \<noteq> Ok () \<Longrightarrow> installed_run verify (Some b) us rs \<Longrightarrow> installed_run verify (Some b) (u # us) ((q, Ok b) # rs)"
| installed: "verify (bundle_of (fst u) (snd u)) = Ok m \<Longrightarrow> installed_run verify (Some (bundle_of (fst u) (snd u))) us rs
    \<Longrightarrow> installed_run verify reg (u # us) ((Ok (), Ok (bundle_of (fst u) (snd u))) # rs)"
| torn: "verify (bundle_of (fst u) (snd u)) = Ok m \<Longrightarrow> conf_write_failed q \<Longrightarrow> installed_run verify None us rs
    \<Longrightarrow> installed_run verify (Some b) (u # us) ((q, r) # rs)"
| undefined: "q \<noteq> Ok () \<Longrightarrow> installed_run verify None us rs \<Longrightarrow> installed_run verify None (u # us) ((q, r) # rs)"

inductive_cases installed_run_ConsE: "installed_run verify reg (u # us) rs"

text \<open>What the register stands for.\<close>

definition represents :: "boot_codec \<Rightarrow> ('w \<Rightarrow> image) \<Rightarrow> Bundle option \<Rightarrow> ('w, 'z) flash_state_scheme \<Rightarrow> bool" where
  "represents K img reg s = (case reg of None \<Rightarrow> True | Some b \<Rightarrow> stored K (img (world s)) b (appletLoadedFromBlock s))"

lemma installed_run_length: "installed_run verify reg us rs \<Longrightarrow> length rs = length us"
  by (induction rule: installed_run.induct) simp_all

context faulty_card
begin

lemma cycles_refine_register:
  assumes codec: "config_codec K" and cap: "taBlockB + 0xFD000 \<le> cap"
    and "inv (world s)" and "represents K img reg s"
    and "\<forall>u \<in> set us. int (length (fst u)) < slotBytes"
  shows "installed_run verify reg us (update_cycles K verify C us s)"
  using assms(3-5)
proof (induction us arbitrary: reg s)
  case (Cons u us)
  obtain elf pb where u: "u = (elf, pb)" by (cases u)
  obtain q s1 where up: "updateApplet K verify (Some C) elf pb s = (q, s1)" by (cases "updateApplet K verify (Some C) elf pb s")
  obtain r s2 where rd: "read K C (power_cycle s1) = (r, s2)" by (cases "read K C (power_cycle s1)")
  have run: "update_cycles K verify C (u # us) s = (q, r) # update_cycles K verify C us s2" by (simp add: u up rd)
  have w: "world (power_cycle s1) = world s1" by (simp add: power_cycle_def)
  have elf: "int (length elf) < slotBytes" and us: "\<forall>u \<in> set us. int (length (fst u)) < slotBytes"
    using Cons.prems(3) u by simp_all
  have I: "inv (world s1)" by (rule update_inv [OF Cons.prems(1) up])
  with rd w have I2: "inv (world s2)" using read_inv [of "power_cycle s1"] by simp
  have unknown: "installed_run verify None us (update_cycles K verify C us s2)"
    by (rule Cons.IH [OF I2 _ us]) (simp add: represents_def)
  have known: "r = Ok b' \<and> installed_run verify (Some b') us (update_cycles K verify C us s2)"
    if st: "stored K (img (world s1)) b' blk" for b' blk
  proof -
    obtain w' where r: "read K C (power_cycle s1) = (Ok b', (power_cycle s1)\<lparr>world := w', appletLoadedFromBlock := blk\<rparr>)"
      and "img w' = img (world s1)"
      by (rule read_stored [where s = "power_cycle s1", unfolded w, OF I st config_codec.area_law [OF codec] cap]) blast
    with rd st have "r = Ok b'" "represents K img (Some b') s2" by (auto simp: represents_def)
    with Cons.IH [OF I2 _ us] show ?thesis by blast
  qed
  show ?case
  proof (cases "q = Ok ()")
    case True
    obtain m blk where "verify (bundle_of elf pb) = Ok m" "stored K (img (world s1)) (bundle_of elf pb) blk"
      using update_success [OF codec Cons.prems(1) elf up [unfolded True]] by blast
    with known True show ?thesis unfolding run using installed_run.installed [of verify u] by (auto simp: u)
  next
    case False
    show ?thesis
    proof (cases reg)
      case None
      with False unknown show ?thesis unfolding run by (simp add: installed_run.undefined)
    next
      case (Some b)
      with Cons.prems(2) have "stored K (img (world s)) b (appletLoadedFromBlock s)" by (simp add: represents_def)
      from update_stored [OF codec Cons.prems(1) this elf up False] known [of b] unknown False Some
      show ?thesis using installed_run.torn [of verify u] installed_run.unchanged [of q verify b] unfolding run by (auto simp: u)
    qed
  qed
qed (simp add: installed_run.finished)

end

section \<open>Cards and a codec\<close>

text \<open>A medium whose writes fail by a schedule; a failing write leaves other bytes in its blocks.\<close>

definition flaky_WriteBlocks :: "int \<Rightarrow> bytes \<Rightarrow> (image \<times> bool list, unit) io" where
  "flaky_WriteBlocks lba data = (\<lambda>(i, sched). case sched of
      False # rest \<Rightarrow> (Err (External ''write failed''), (put_bytes i (lba * 512) (replicate (length data) 1), rest))
    | _ \<Rightarrow> (case medium_WriteBlocks lba data i of (q, i') \<Rightarrow> (q, (i', tl sched))))"

definition flaky :: "(image \<times> bool list) Card" where
  "flaky = \<lparr>card_Read = (\<lambda>off len (i, sched). case medium_Read off len i of (q, i') \<Rightarrow> (q, (i', sched))),
     card_WriteBlocks = flaky_WriteBlocks,
     card_Info = (\<lambda>_. \<lparr>MMC = True, BlockSize = 512, Blocks = mediumBlocks\<rparr>), card_Detect = retS ()\<rparr>"

lemma flaky_simps:
  "card_Read flaky off len (i, sched) = (case medium_Read off len i of (q, i') \<Rightarrow> (q, (i', sched)))"
  "card_WriteBlocks flaky = flaky_WriteBlocks" "BlockSize (card_Info flaky w) = 512"
  by (simp_all add: flaky_def)

interpretation fl: faulty_card flaky fst "\<lambda>_. True" mediumBlocks
  by unfold_locales
    (auto simp: flaky_def flaky_WriteBlocks_def medium_Read_def medium_WriteBlocks_def
      split: prod.splits list.splits bool.splits if_splits)

text \<open>A codec for boot configurations that meets the contract: the fields in the encoding of \<open>Proto_Wire\<close>,
  preceded by their length.\<close>

definition config_fields :: "BootConfig \<Rightarrow> fields" where
  "config_fields c = number_field 1 (nat (cfg_Size c)) @ number_field 2 (nat (cfg_Offset c))
     @ data_field 3 (pb_Checkpoint (cfg_Bundle c)) @ data_field 4 (pb_Manifest (cfg_Bundle c))
     @ number_field 5 (unat (pb_LogIndex (cfg_Bundle c))) @ map (\<lambda>p. (6, Len p)) (pb_InclusionProof (cfg_Bundle c))"

definition config_of_fields :: "fields \<Rightarrow> BootConfig" where
  "config_of_fields fs = \<lparr>cfg_Size = int (get_number 1 fs), cfg_Offset = int (get_number 2 fs),
     cfg_Bundle = \<lparr>pb_Checkpoint = get_data 3 fs, pb_Manifest = get_data 4 fs, pb_LogIndex = of_nat (get_number 5 fs),
       pb_InclusionProof = lens 6 fs\<rparr>\<rparr>"

definition length_codec :: boot_codec where
  "length_codec = \<lparr>MaxLength = 40960,
     cfg_Encode = (\<lambda>c. let body = put_fields (config_fields c); enc = put_varint (length body) @ body in
       if 0 \<le> cfg_Size c \<and> cfg_Size c < 2 ^ 63 \<and> 0 \<le> cfg_Offset c \<and> cfg_Offset c < 2 ^ 63 \<and> length enc < 40960
       then Ok enc else Err (External ''configuration out of range'')),
     cfg_Decode = (\<lambda>bs. case get_varint bs of
         None \<Rightarrow> Err EOF
       | Some (n, _, r) \<Rightarrow> (case get_fields (take n r) of None \<Rightarrow> Err EOF | Some fs \<Rightarrow> Ok (config_of_fields fs)))\<rparr>"

lemma lens_proofs [simp]: "lens n (map (\<lambda>p. (m, Len p)) ps) = (if n = m then ps else [])"
  "varints n (map (\<lambda>p. (m, Len p)) ps) = []"
  by (induction ps) (simp_all add: lens_def varints_def)

lemma config_fields_roundtrip: "0 \<le> cfg_Size c \<Longrightarrow> 0 \<le> cfg_Offset c \<Longrightarrow> config_of_fields (config_fields c) = c"
  by (simp add: config_of_fields_def config_fields_def get_number_def get_data_def)

lemma config_fields_ok:
  assumes "cfg_Size c < 2 ^ 63" and "cfg_Offset c < 2 ^ 63"
  shows "\<forall>f \<in> set (config_fields c). field_ok f"
proof -
  have "unat (pb_LogIndex (cfg_Bundle c)) < 2 ^ 64" using unsigned_less [of "pb_LogIndex (cfg_Bundle c)", where 'a = nat] by simp
  moreover have "nat (cfg_Size c) < 2 ^ 64" "nat (cfg_Offset c) < 2 ^ 64" using assms by (simp_all add: nat_less_iff)
  ultimately show ?thesis by (auto simp: config_fields_def maxField_def field_sets)
qed

interpretation lcodec: config_codec length_codec
proof unfold_locales
  fix c enc rest assume e: "cfg_Encode length_codec c = Ok enc"
  let ?body = "put_fields (config_fields c)"
  have enc: "enc = put_varint (length ?body) @ ?body" and r: "0 \<le> cfg_Size c" "cfg_Size c < 2 ^ 63" "0 \<le> cfg_Offset c" "cfg_Offset c < 2 ^ 63"
    using e by (auto simp: length_codec_def Let_def split: if_splits)
  obtain k where k: "get_varint (put_varint (length ?body) @ ?body @ rest) = Some (length ?body, k, ?body @ rest)"
    using get_put_varint by blast
  show "cfg_Decode length_codec (enc @ rest) = Ok c"
    using k get_put_fields [OF config_fields_ok [OF r(2,4)]] config_fields_roundtrip [OF r(1,3)]
    by (simp add: enc length_codec_def)
  show "length enc < 40960 \<and> int (length enc) \<le> MaxLength length_codec"
    using e by (auto simp: length_codec_def Let_def split: if_splits)
qed (simp_all add: length_codec_def)

section \<open>Properties\<close>

text \<open>C8: updates refine a register. On any card whose reads succeed and whose failed writes stay inside
  the blocks written (where they may leave anything), every sequence of update attempts, each followed by a
  power cycle, behaves like one register holding the installed bundle. An update that reports success
  installs its bundle, which verified, and the next start reads it, whatever happened before. An update
  that fails leaves the bundle that the next start reads, unless what failed was the write of the
  configuration of a bundle that verified: then what is read is unknown until an update succeeds.\<close>

theorem updates_refine_register:
  assumes "faulty_card C img I cap" and "config_codec K" and "taBlockB + 0xFD000 \<le> cap"
    and "I (world s)" and "represents K img reg s"
    and "\<forall>u \<in> set us. int (length (fst u)) < slotBytes"
  shows "installed_run verify reg us (update_cycles K verify C us s)"
  by (rule faulty_card.cycles_refine_register [OF assms])

text \<open>A device running a three-byte applet from slot A, with a schedule for its writes.\<close>

definition demo_enc :: bytes where
  "demo_enc = (case cfg_Encode length_codec demo_conf of Ok enc \<Rightarrow> enc | _ \<Rightarrow> [])"

definition flaky_state :: "bool list \<Rightarrow> (image \<times> bool list) flash_state" where
  "flaky_state sched = \<lparr>world = (put_bytes (put_bytes (\<lambda>_. 0) (taBlockA * 512) (flash_image [9, 8, 7])) (taConfBlock * 512)
       (flash_image demo_enc), sched), appletLoadedFromBlock = taBlockA, osLoadedFromBlock = osBlockA\<rparr>"

lemmas length_codec_eval = length_codec_def demo_conf_def demo_pb_def config_fields_def layout_defs number_field_def
  data_field_def put_fields_def put_varint.simps Let_def

lemma demo_conf_encodes: "cfg_Encode length_codec demo_conf = Ok demo_enc"
proof -
  have "case cfg_Encode length_codec demo_conf of Ok enc \<Rightarrow> True | _ \<Rightarrow> False" by (simp add: length_codec_eval)
  then show ?thesis by (simp add: demo_enc_def split: res.splits)
qed

lemma flaky_state_stored:
  "represents length_codec fst (Some (bundle_of [9, 8, 7] demo_pb)) (flaky_state sched)"
  using stored_after [OF lcodec.config_codec_axioms, of "[9, 8, 7]" taBlockA demo_pb demo_enc, OF _ refl] demo_conf_encodes
  by (simp add: represents_def flaky_state_def demo_conf_def slotBytes_def) (simp add: layout_defs)

lemma flash_flaky:
  assumes "buf \<noteq> []" and "length buf < 512" and "0 \<le> lba" and "lba < 10000000"
  shows "flash flaky buf lba (i, sch) = (case sch of
      False # rest \<Rightarrow> (Err (External ''write failed''), (put_bytes i (lba * 512) (replicate 512 1), rest))
    | _ \<Rightarrow> (Ok (), (put_bytes i (lba * 512) (flash_image buf), tl sch)))"
proof -
  have "flash_chunk buf = (flash_image buf, [])"
    using flash_image_step [OF assms(1)] assms(2) by (simp add: flash_chunk_def Let_def)
  moreover have "length (fst (flash_chunk buf)) = 512" using assms(2) by (simp add: flash_chunk_def Let_def)
  ultimately show ?thesis using assms
    by (simp add: flash_apply flash_loop.simps [of flaky lba _ "[]"] flash_loop.simps [of flaky lba 0 buf] flaky_simps flaky_WriteBlocks_def medium_WriteBlocks_def
        mediumBlocks_def split: list.splits bool.splits)
qed

text \<open>The update of that device to a two-byte applet: it succeeds, fails in the image or fails in the
  configuration.\<close>

lemma flaky_update:
  "updateApplet length_codec (\<lambda>_. Ok ()) (Some flaky) [1, 2] demo_pb (flaky_state [True, False])
     = (Err (Errorf ''signature flashing error'' (External ''write failed'')),
        (flaky_state [])\<lparr>world := (put_bytes (put_bytes (fst (world (flaky_state []))) (taBlockB * 512) (flash_image [1, 2]))
           (taConfBlock * 512) (replicate 512 1), [])\<rparr>)"
  "fst (updateApplet length_codec (\<lambda>_. Ok ()) (Some flaky) [1, 2] demo_pb (flaky_state [False]))
     = Err (Errorf ''flashing error'' (External ''write failed''))"
  "fst (updateApplet length_codec (\<lambda>_. Ok ()) (Some flaky) [1, 2] demo_pb (flaky_state [])) = Ok ()"
proof -
  have "cfg_Encode length_codec \<lparr>cfg_Size = 2, cfg_Offset = taBlockB * 512, cfg_Bundle = demo_pb\<rparr> \<noteq> Ok []"
    "\<exists>enc. cfg_Encode length_codec \<lparr>cfg_Size = 2, cfg_Offset = taBlockB * 512, cfg_Bundle = demo_pb\<rparr> = Ok enc \<and> length enc < 512"
    by (simp_all add: length_codec_eval)
  then obtain enc where enc: "cfg_Encode length_codec \<lparr>cfg_Size = 2, cfg_Offset = taBlockB * 512, cfg_Bundle = demo_pb\<rparr> = Ok enc"
    "enc \<noteq> []" "length enc < 512" by auto
  have t: "flash_target (flaky_state sched) Firmware_Applet = Some (taConfBlock, taBlockB)" for sched
    by (simp add: flash_target_def flaky_state_def)
  have blocks: "0 \<le> taBlockB" "taBlockB < 10000000" "0 \<le> taConfBlock" "taConfBlock < 10000000" by (simp_all add: layout_defs)
  show "updateApplet length_codec (\<lambda>_. Ok ()) (Some flaky) [1, 2] demo_pb (flaky_state [True, False])
     = (Err (Errorf ''signature flashing error'' (External ''write failed'')),
        (flaky_state [])\<lparr>world := (put_bytes (put_bytes (fst (world (flaky_state []))) (taBlockB * 512) (flash_image [1, 2]))
           (taConfBlock * 512) (replicate 512 1), [])\<rparr>)"
    "fst (updateApplet length_codec (\<lambda>_. Ok ()) (Some flaky) [1, 2] demo_pb (flaky_state [False]))
     = Err (Errorf ''flashing error'' (External ''write failed''))"
    "fst (updateApplet length_codec (\<lambda>_. Ok ()) (Some flaky) [1, 2] demo_pb (flaky_state [])) = Ok ()"
    using t enc by (simp_all add: updateApplet_def flashFirmware_def bindS_apply wrapS_apply onWorld_apply expectedBlockSize_def flash_flaky
        flaky_state_def blocks)
qed

text \<open>The failed write of the configuration is not covered by the promise in the comment of
  \<open>flashFirmware\<close> (\<open>in case of any error the unit will still boot the previous working firmware\<close>): here the
  image was stored, the write of the configuration failed, and the next start finds no applet.\<close>

lemma torn_configuration:
  "\<exists>e. update_cycles length_codec (\<lambda>_. Ok ()) flaky [([1, 2], demo_pb)] (flaky_state [True, False])
     = [(Err (Errorf ''signature flashing error'' (External ''write failed'')), Err e)]"
proof -
  let ?i = "put_bytes (put_bytes (fst (world (flaky_state []))) (taBlockB * 512) (flash_image [1, 2]))
    (taConfBlock * 512) (replicate 512 1)"
  have "get_bytes ?i (taConfBlock * 512) 2 = [1, 1]"
    using get_put_bytes [of 2 "replicate 512 1"] by (simp add: numeral_2_eq_2)
  then obtain rest where area: "get_bytes ?i (taConfBlock * 512) 40960 = 1 # 1 # rest"
    using get_bytes_append [of ?i "taConfBlock * 512" 2 40958] by simp
  have "get_field [1] = None" by (simp add: get_field_def get_uint64_def)
  then have "cfg_Decode length_codec (1 # 1 # rest) = Err EOF" by (simp add: length_codec_def get_fields.simps [of "[1]"])
  with area show ?thesis
    by (simp add: flaky_update(1) read_def readConfig_def bindS_apply wrapS_apply onWorld_apply expectedBlockSize_def power_cycle_def
        flaky_simps medium_Read_def mediumBlocks_def layout_defs) (simp add: length_codec_def layout_defs)
qed

theorem updates_refine_register_witness:
  "update_cycles length_codec (\<lambda>_. Ok ()) flaky [([1, 2], demo_pb)] (flaky_state []) = [(Ok (), Ok (bundle_of [1, 2] demo_pb))]
    \<and> (\<exists>q. update_cycles length_codec (\<lambda>_. Ok ()) flaky [([1, 2], demo_pb)] (flaky_state [False])
         = [(q, Ok (bundle_of [9, 8, 7] demo_pb))])"
proof -
  let ?run = "\<lambda>sched. update_cycles length_codec (\<lambda>_. Ok ()) flaky [([1, 2], demo_pb)] (flaky_state sched)"
  have R: "installed_run (\<lambda>_. Ok ()) (Some (bundle_of [9, 8, 7] demo_pb)) [([1, 2], demo_pb)] (?run sched)" for sched
    using updates_refine_register [OF fl.faulty_card_axioms lcodec.config_codec_axioms _ _ flaky_state_stored,
        of "[([1, 2], demo_pb)]" "\<lambda>_. Ok ()" sched]
    by (simp add: mediumBlocks_def layout_defs slotBytes_def)
  have Q: "\<exists>r. ?run sched = [(fst (updateApplet length_codec (\<lambda>_. Ok ()) (Some flaky) [1, 2] demo_pb (flaky_state sched)), r)]" for sched
    by (auto split: prod.splits)
  from R [of "[]"] Q [of "[]"] R [of "[False]"] Q [of "[False]"] show ?thesis
    by (auto simp: flaky_update elim!: installed_run_ConsE dest: installed_run_length)
qed

end
