(* ===== verification/Wake_Handlers.thy ===== *)
theory Wake_Handlers
  imports Handler
begin

text \<open>
  The wake handlers of \<open>src/trusted_os/handler.s\<close>: the assembly routines that \<open>fiqHandler\<close> calls
  with the addresses the applet registered, to make the runtime of the applet believe that the timer
  its interrupt handler sleeps on has expired. One definition per routine, on a memory of bytes; a
  register is a variable named like it, a branch is a case, and the backward search through the timer
  heap is a recursive function whose value is \<open>None\<close> if the loop never ends. \<open>runtime.WakeG\<close>, to which
  the routine for current applets jumps, belongs to the Go runtime and is a parameter. Faults of the
  memory management unit are not modelled: every address can be read and written, as it can in the
  mode the OS runs in for all its own and the applet's memory.
\<close>

section \<open>Memory\<close>

type_synonym mem = "32 word \<Rightarrow> 8 word"

text \<open>Loads and stores of words are little endian.\<close>

definition ldr :: "mem \<Rightarrow> 32 word \<Rightarrow> 32 word" where
  "ldr m a = ucast (m a) OR push_bit 8 (ucast (m (a + 1))) OR push_bit 16 (ucast (m (a + 2)))
     OR push_bit 24 (ucast (m (a + 3)))"

definition str :: "mem \<Rightarrow> 32 word \<Rightarrow> 32 word \<Rightarrow> mem" where
  "str m a v = m(a := ucast v, a + 1 := ucast (drop_bit 8 v), a + 2 := ucast (drop_bit 16 v),
     a + 3 := ucast (drop_bit 24 v))"

text \<open>The routines store the 64-bit value 1 as two words.\<close>

definition store_one :: "mem \<Rightarrow> 32 word \<Rightarrow> mem" where
  "store_one m a = str (str m a 1) (a + 4) 0"

text \<open>The bytes from an address on, around the end of the address space.\<close>

definition span :: "32 word \<Rightarrow> 32 word \<Rightarrow> 32 word set" where
  "span a n = {b. b - a < n}"

lemma in_span: "b \<in> span a n \<longleftrightarrow> b - a < n"
  by (simp add: span_def)

lemma span_sub:
  assumes "unat c + unat k \<le> unat n"
  shows "span (a + c) k \<subseteq> span a n"
proof
  fix b assume "b \<in> span (a + c) k"
  then have l: "unat (b - (a + c)) < unat k" by (simp add: in_span word_less_nat_alt)
  have e: "b - a = (b - (a + c)) + c" by simp
  have "unat (b - a) = unat (b - (a + c)) + unat c"
    unfolding e using l assms unsigned_less [of n, where 'a = nat] by (intro unat_add_lem [THEN iffD1]) simp
  with l assms show "b \<in> span a n" by (simp add: in_span word_less_nat_alt)
qed

lemma less4: "(x::32 word) < 4 \<longleftrightarrow> x = 0 \<or> x = 1 \<or> x = 2 \<or> x = 3"
  by (simp add: word_less_nat_alt word_unat_eq_iff) linarith

lemma span4: "span a 4 = {a, a + 1, a + 2, a + 3}"
  by (auto simp: in_span less4 diff_eq_eq add.commute)

lemma str_other: "b \<notin> span a 4 \<Longrightarrow> str m a v b = m b"
  by (simp add: str_def span4)

lemma ldr_cong: "(\<And>b. b \<in> span a 4 \<Longrightarrow> m b = m' b) \<Longrightarrow> ldr m a = ldr m' a"
  by (simp add: ldr_def span4)

lemma ldr_str [simp]: "ldr (str m a v) a = v"
proof (rule bit_word_eqI)
  fix n assume n: "n < LENGTH(32)"
  consider "n < 8" | "8 \<le> n" "n < 16" | "16 \<le> n" "n < 24" | "24 \<le> n" by linarith
  then show "bit (ldr (str m a v) a) n = bit v n"
    using n by cases (simp_all add: ldr_def str_def bit_simps, linarith+)
qed

lemma span_disjoint: "n' \<le> a - b \<Longrightarrow> n \<le> b - a \<Longrightarrow> span a n \<inter> span b n' = {}"
proof (rule ccontr)
  assume d: "n' \<le> a - b" "n \<le> b - a" and "span a n \<inter> span b n' \<noteq> {}"
  then obtain x where x: "x - a < n" "x - b < n'" by (auto simp: in_span)
  show False
  proof (cases "x - a \<le> x - b")
    case True
    then have "(x - b) - (x - a) \<le> x - b" by (rule word_sub_le)
    then have "a - b \<le> x - b" by simp
    with x(2) d(1) show False by (meson leD order_le_less_trans)
  next
    case False
    then have "(x - a) - (x - b) \<le> x - a" by (intro word_sub_le) simp
    then have "b - a \<le> x - a" by simp
    with x(1) d(2) show False by (meson leD order_le_less_trans)
  qed
qed

lemma ldr_str_other: "span a 4 \<inter> span b 4 = {} \<Longrightarrow> ldr (str m b v) a = ldr m a"
  by (rule ldr_cong) (auto intro: str_other)

lemma ldr_near [simp]: "4 \<le> a - b \<Longrightarrow> 4 \<le> b - a \<Longrightarrow> ldr (str m b v) a = ldr m a"
  by (rule ldr_str_other [OF span_disjoint])

lemma span8: "span a 8 = span a 4 \<union> span (a + 4) 4"
proof -
  have "(x < 8) = (x < 4 \<or> x - 4 < 4)" for x :: "32 word"
    using unsigned_less [of x, where 'a = nat] by (cases "4 \<le> x") (auto simp: word_less_nat_alt word_le_nat_alt unat_sub_if')
  from this [of "_ - a"] show ?thesis by (simp only: set_eq_iff Un_iff in_span diff_diff_eq) simp
qed

lemma store_one_other: "b \<notin> span a 8 \<Longrightarrow> store_one m a b = m b"
  by (simp add: store_one_def span8 str_other)

lemma ldr_store_one [simp]: "ldr (store_one m a) a = 1" "ldr (store_one m a) (a + 4) = 0"
  by (simp_all add: store_one_def)

lemma ldr_store_one_other: "span a 4 \<inter> span b 8 = {} \<Longrightarrow> ldr (store_one m b) a = ldr m a"
  by (rule ldr_cong) (auto intro: store_one_other)

section \<open>The routines\<close>

text \<open>Applets built with Go 1.25 or later: the OS's own runtime does the work.\<close>

definition asm_wakeHandlerGo125 ::
    "(32 word \<Rightarrow> 32 word \<Rightarrow> mem \<Rightarrow> mem option) \<Rightarrow> 32 word \<Rightarrow> 32 word \<Rightarrow> mem \<Rightarrow> mem option" where
  "asm_wakeHandlerGo125 WakeG handlerG handlerP m =
     (if handlerG = 0 then Some m else if handlerP = 0 then Some m else WakeG handlerG handlerP m)"

text \<open>Go 1.24: the heap is searched from its last entry for the one of the timer in \<open>R3\<close>. The result
  \<open>Some None\<close> is the exit at address 0.\<close>

partial_function (option) go124_check :: "mem \<Rightarrow> 32 word \<Rightarrow> 32 word \<Rightarrow> 32 word option option" where
  "go124_check m R3 R0 =
     (if ldr m R0 = R3 then Some (Some R0)
      else if R0 - 12 = 0 then Some None else go124_check m R3 (R0 - 12))"

definition go124_found :: "32 word \<Rightarrow> 32 word \<Rightarrow> mem \<Rightarrow> mem" where
  "go124_found R3 R0 m =
     (let m1 = store_one m (R0 + 4);
          m2 = store_one m1 (R3 + 12);
          m3 = str m2 (R3 + 4) (ldr m2 (R3 + 4) OR (push_bit 8 2 OR 2))
      in store_one m3 (ldr m3 (R3 + 44) + 40))"

definition asm_wakeHandlerGo124 :: "32 word \<Rightarrow> 32 word \<Rightarrow> mem \<Rightarrow> mem option" where
  "asm_wakeHandlerGo124 handlerG handlerP m =
     (if handlerG = 0 then Some m else if handlerP = 0 then Some m else
      let R3 = ldr m (handlerG + 216) in if R3 = 0 then Some m else
      let R0 = ldr m (R3 + 44) in if R0 = 0 then Some m else
      let R2 = ldr m (R0 + 8) in if R2 = 0 then Some m else
      let R2 = (R2 - 1) * 12; R0 = ldr m (R0 + 4) in if R0 = 0 then Some m else
      (case go124_check m R3 (R0 + R2) of
         None \<Rightarrow> None
       | Some None \<Rightarrow> Some m
       | Some (Some R0) \<Rightarrow> Some (go124_found R3 R0 m)))"

text \<open>Go 1.23: the timer is changed first, and the search is for an entry that is due at the largest
  64-bit time.\<close>

partial_function (option) go123_check :: "mem \<Rightarrow> 32 word \<Rightarrow> 32 word option option" where
  "go123_check m R0 =
     (if ldr m (R0 + 4) = 0xffffffff \<and> ldr m (R0 + 8) = 0x7fffffff then Some (Some R0)
      else if R0 - 12 = 0 then Some None else go123_check m (R0 - 12))"

definition asm_wakeHandlerGo123 :: "32 word \<Rightarrow> 32 word \<Rightarrow> mem \<Rightarrow> mem option" where
  "asm_wakeHandlerGo123 handlerG handlerP m =
     (if handlerG = 0 then Some m else if handlerP = 0 then Some m else
      let R3 = ldr m (handlerG + 212) in if R3 = 0 then Some m else
      let m = store_one m (R3 + 12);
          m = str m (R3 + 4) (ldr m (R3 + 4) OR (push_bit 8 2 OR 2));
          R0 = ldr m (R3 + 44) in if R0 = 0 then Some m else
      let m = store_one m (R0 + 40);
          R2 = ldr m (R0 + 8) in if R2 = 0 then Some m else
      let R2 = (R2 - 1) * 12; R0 = ldr m (R0 + 4) in if R0 = 0 then Some m else
      (case go123_check m (R0 + R2) of
         None \<Rightarrow> None
       | Some None \<Rightarrow> Some m
       | Some (Some R0) \<Rightarrow> Some (store_one m (R0 + 4))))"

text \<open>Before Go 1.23.\<close>

definition asm_wakeHandlerPreGo123 :: "32 word \<Rightarrow> 32 word \<Rightarrow> mem \<Rightarrow> mem option" where
  "asm_wakeHandlerPreGo123 handlerG handlerP m =
     (if handlerG = 0 then Some m else if handlerP = 0 then Some m else
      let R0 = ldr m (handlerG + 208) in if R0 = 0 then Some m else
      let m = store_one m (R0 + 36);
          m = str m (R0 + 44) 7
      in Some (store_one m (handlerP + 2384)))"

text \<open>The call \<open>wHandler(appletHandlerG, appletHandlerP)\<close> of \<open>fiqHandler\<close>, by the routine chosen when
  the applet was loaded.\<close>

definition wake :: "(32 word \<Rightarrow> 32 word \<Rightarrow> mem \<Rightarrow> mem option) \<Rightarrow> wake_handler \<Rightarrow> 32 word \<Rightarrow> 32 word \<Rightarrow>
    mem \<Rightarrow> mem option" where
  "wake WakeG w = (case w of
      wakeHandlerPreGo123 \<Rightarrow> asm_wakeHandlerPreGo123
    | wakeHandlerGo123 \<Rightarrow> asm_wakeHandlerGo123
    | wakeHandlerGo124 \<Rightarrow> asm_wakeHandlerGo124
    | wakeHandlerGo125 \<Rightarrow> asm_wakeHandlerGo125 WakeG)"

section \<open>The search through the timer heap\<close>

text \<open>Both searches run downwards in steps of one heap entry and differ in what they look for. The
  contract has the equation of the loop and that it is the least solution of it: what the loop returns
  it reached in finitely many steps.\<close>

locale heap_search =
  fixes check :: "32 word \<Rightarrow> 32 word option option"
    and hit :: "32 word \<Rightarrow> bool"
  assumes check_step: "check R0 = (if hit R0 then Some (Some R0) else if R0 - 12 = 0 then Some None else check (R0 - 12))"
    and check_returns: "check R0 = Some r \<Longrightarrow> \<exists>k. hit (R0 - 12 * of_nat k) \<or> R0 - 12 * of_nat (Suc k) = 0"
begin

lemma check_finds:
  assumes "hit (R0 - 12 * of_nat k)" and "\<forall>j<k. \<not> hit (R0 - 12 * of_nat j)"
    and "\<forall>j\<in>{1..k}. R0 - 12 * of_nat j \<noteq> 0"
  shows "check R0 = Some (Some (R0 - 12 * of_nat k))"
  using assms
proof (induction k arbitrary: R0)
  case 0
  then show ?case by (subst check_step) simp
next
  case (Suc k)
  have s: "R0 - 12 - 12 * of_nat j = R0 - 12 * of_nat (Suc j)" for j by (simp add: algebra_simps)
  have n: "\<not> hit R0" "R0 - 12 \<noteq> 0" using Suc.prems(2) [rule_format, of 0] Suc.prems(3) [rule_format, of 1] by simp_all
  have "check (R0 - 12) = Some (Some (R0 - 12 - 12 * of_nat k))"
  proof (rule Suc.IH)
    show "hit (R0 - 12 - 12 * of_nat k)" using Suc.prems(1) by (simp only: s)
    show "\<forall>j<k. \<not> hit (R0 - 12 - 12 * of_nat j)" using Suc.prems(2) by (simp only: s) blast
    show "\<forall>j\<in>{1..k}. R0 - 12 - 12 * of_nat j \<noteq> 0"
      using Suc.prems(3) by (simp only: s) (meson atLeastAtMost_iff le_SucI Suc_le_mono)
  qed
  with n show ?case by (subst check_step) (simp only: s if_False)
qed

lemma check_stops: "0 < k \<Longrightarrow> R0 - 12 * of_nat k = 0 \<Longrightarrow> check R0 \<noteq> None"
proof (induction k arbitrary: R0)
  case (Suc k)
  show ?case
  proof (cases "hit R0 \<or> R0 - 12 = 0")
    case True
    then show ?thesis by (subst check_step) auto
  next
    case False
    have s: "R0 - 12 - 12 * of_nat k = 0" using Suc.prems(2) by (simp add: algebra_simps)
    have "0 < k" using s False by (cases k) simp_all
    from Suc.IH [OF this s] False show ?thesis by (subst check_step) simp
  qed
qed simp

text \<open>From an address that is a multiple of 4 the search ends: 3 is invertible modulo \<open>2 ^ 30\<close>, so the
  steps of 12 bytes reach address 0.\<close>

lemma check_aligned:
  assumes "4 dvd unat R0"
  shows "check R0 \<noteq> None"
proof -
  obtain q where q: "unat R0 = 4 * q" using assms by (auto elim: dvdE)
  have z: "(2 ^ 32 :: 32 word) = 0" by simp
  have "12 * (715827883 * q + 2 ^ 30) = unat R0 + 2 ^ 32 * (2 * q + 3)" by (simp add: q)
  then have "(of_nat (12 * (715827883 * q + 2 ^ 30)) :: 32 word) = of_nat (unat R0 + 2 ^ 32 * (2 * q + 3))" by (rule arg_cong)
  also have "\<dots> = of_nat (unat R0)"
    by (simp only: of_nat_add of_nat_mult of_nat_power of_nat_numeral z mult_zero_left add_0_right)
  also have "\<dots> = R0" by simp
  finally have "R0 - 12 * of_nat (715827883 * q + 2 ^ 30) = 0" by (simp only: of_nat_mult of_nat_numeral) simp
  then show ?thesis by (rule check_stops [rotated]) simp
qed

lemma check_diverges:
  assumes "\<not> 4 dvd unat R0" and "\<forall>k. \<not> hit (R0 - 12 * of_nat k)"
  shows "check R0 = None"
proof (rule ccontr)
  assume "check R0 \<noteq> None"
  then obtain k where "R0 - 12 * of_nat (Suc k) = 0" using check_returns assms(2) by blast
  then have "R0 = of_nat (12 * Suc k)" by simp
  then have "unat R0 = 12 * Suc k mod 2 ^ 32" by (simp only: unat_of_nat) simp
  moreover have "4 dvd 12 * Suc k mod (2 ^ 32 :: nat)" by (rule dvd_mod) simp_all
  ultimately show False using assms(1) by simp
qed

end

lemma go124_check_returns:
  assumes "go124_check m R3 R0 = Some r"
  shows "\<exists>k. ldr m (R0 - 12 * of_nat k) = R3 \<or> R0 - 12 * of_nat (Suc k) = 0"
proof (rule go124_check.raw_induct [OF _ assms,
    where P = "\<lambda>m R3 R0 r. \<exists>k. ldr m (R0 - 12 * of_nat k) = R3 \<or> R0 - 12 * of_nat (Suc k) = 0"], goal_cases)
  case (1 chk m R3 R0 r)
  consider "ldr m R0 = R3" | "R0 - 12 = 0" | "chk m R3 (R0 - 12) = Some r" using 1(2) by (auto split: if_splits)
  then show ?case
  proof cases
    case 3
    from 1(1) [OF this] obtain k where "ldr m (R0 - 12 - 12 * of_nat k) = R3 \<or> R0 - 12 - 12 * of_nat (Suc k) = 0" by blast
    then show ?thesis by (intro exI [of _ "Suc k"]) (simp add: algebra_simps)
  qed (auto intro: exI [of _ 0])
qed

interpretation s124: heap_search "go124_check m R3" "\<lambda>a. ldr m a = R3" for m R3
  by unfold_locales (fact go124_check.simps, rule go124_check_returns)

lemma go123_check_returns:
  assumes "go123_check m R0 = Some r"
  shows "\<exists>k. (ldr m (R0 - 12 * of_nat k + 4) = 0xffffffff
     \<and> ldr m (R0 - 12 * of_nat k + 8) = 0x7fffffff) \<or> R0 - 12 * of_nat (Suc k) = 0"
proof (rule go123_check.raw_induct [OF _ assms, where P = "\<lambda>m R0 r. \<exists>k. (ldr m (R0 - 12 * of_nat k + 4) = 0xffffffff
     \<and> ldr m (R0 - 12 * of_nat k + 8) = 0x7fffffff) \<or> R0 - 12 * of_nat (Suc k) = 0"], goal_cases)
  case (1 chk m R0 r)
  consider "ldr m (R0 + 4) = 0xffffffff \<and> ldr m (R0 + 8) = 0x7fffffff" | "R0 - 12 = 0" | "chk m (R0 - 12) = Some r"
    using 1(2) by (auto split: if_splits)
  then show ?case
  proof cases
    case 3
    from 1(1) [OF this] obtain k where "(ldr m (R0 - 12 - 12 * of_nat k + 4) = 0xffffffff
        \<and> ldr m (R0 - 12 - 12 * of_nat k + 8) = 0x7fffffff) \<or> R0 - 12 - 12 * of_nat (Suc k) = 0" by blast
    then show ?thesis by (intro exI [of _ "Suc k"]) (simp add: algebra_simps)
  qed (auto intro: exI [of _ 0])
qed

interpretation s123: heap_search "go123_check m" "\<lambda>a. ldr m (a + 4) = 0xffffffff \<and> ldr m (a + 8) = 0x7fffffff" for m
  by unfold_locales (fact go123_check.simps, rule go123_check_returns)

section \<open>What the routines change\<close>

lemma ldr_store_one_near [simp]:
  "4 \<le> a - b \<Longrightarrow> 4 \<le> b - a \<Longrightarrow> 4 \<le> a - (b + 4) \<Longrightarrow> 4 \<le> b + 4 - a \<Longrightarrow> ldr (store_one m b) a = ldr m a"
  by (simp add: store_one_def)

lemma spans_apart:
  assumes "span a n \<inter> span b n' = {}" and "unat c + unat k \<le> unat n" and "unat c' + unat k' \<le> unat n'"
  shows "span (a + c) k \<inter> span (b + c') k' = {}"
  using span_sub [OF assms(2), of a] span_sub [OF assms(3), of b] assms(1) by blast

text \<open>The words of the heap entry \<open>e\<close>, the timer \<open>t\<close> and the timer set \<open>ts\<close> that a wake-up writes, and
  the state in which it leaves them.\<close>

definition go124_writes :: "32 word \<Rightarrow> 32 word \<Rightarrow> 32 word \<Rightarrow> 32 word set" where
  "go124_writes e t ts = span (e + 4) 8 \<union> span (t + 12) 8 \<union> span (t + 4) 4 \<union> span (ts + 40) 8"

definition go124_expired :: "mem \<Rightarrow> 32 word \<Rightarrow> 32 word \<Rightarrow> 32 word \<Rightarrow> mem \<Rightarrow> bool" where
  "go124_expired m e t ts m' \<longleftrightarrow>
     ldr m' (e + 4) = 1 \<and> ldr m' (e + 8) = 0 \<and> ldr m' (t + 12) = 1 \<and> ldr m' (t + 16) = 0
     \<and> ldr m' (t + 4) = ldr m (t + 4) OR 0x0202 \<and> ldr m' (ts + 40) = 1 \<and> ldr m' (ts + 44) = 0"

lemma go124_found_writes:
  assumes d: "span e 12 \<inter> span t 56 = {}" "span t 56 \<inter> span ts 48 = {}" "span e 12 \<inter> span ts 48 = {}"
    and ts: "ldr m (t + 44) = ts"
  shows "go124_expired m e t ts (go124_found t e m)" and "a \<notin> go124_writes e t ts \<Longrightarrow> go124_found t e m a = m a"
proof -
  define m1 where "m1 = store_one m (e + 4)"
  define m2 where "m2 = store_one m1 (t + 12)"
  define m3 where "m3 = str m2 (t + 4) (ldr m2 (t + 4) OR (push_bit 8 2 OR 2))"
  have te: "span (t + c) 4 \<inter> span (e + 4) 8 = {}" if "unat c \<le> 52" for c
    using spans_apart [OF d(1), of 4 8 c 4] that by auto
  have et: "span (e + c) 4 \<inter> span (t + 12) 8 = {}" "span (e + c) 4 \<inter> span (t + 4) 4 = {}"
    "span (e + c) 4 \<inter> span (ts + 40) 8 = {}" if "c \<in> {4, 8}" for c
    using spans_apart [OF d(1), of c 4 12 8] spans_apart [OF d(1), of c 4 4 4] spans_apart [OF d(3), of c 4 40 8] that by auto
  have tts: "span (t + c) 4 \<inter> span (ts + 40) 8 = {}" if "unat c \<le> 52" for c
    using spans_apart [OF d(2), of c 4 40 8] that by auto
  have t44: "ldr m3 (t + 44) = ts"
    by (simp add: m3_def m2_def m1_def ldr_store_one_other [OF te] ts)
  then have f: "go124_found t e m = store_one m3 (ts + 40)"
    by (simp add: go124_found_def m1_def m2_def m3_def Let_def)
  have e4: "ldr (store_one m3 (ts + 40)) (e + c) = ldr m1 (e + c)" if "c \<in> {4, 8}" for c
    using that by (simp add: ldr_store_one_other [OF et(3)] m3_def ldr_str_other [OF et(2)] m2_def ldr_store_one_other [OF et(1)])
  have b: "ldr m1 (e + 4) = 1" "ldr m1 (e + 8) = 0"
    using ldr_store_one [of m "e + 4"] by (simp_all add: m1_def add.assoc)
  have c: "ldr m2 (t + 12) = 1" "ldr m2 (t + 16) = 0" "ldr m2 (t + 4) = ldr m (t + 4)"
    using ldr_store_one [of m1 "t + 12"] by (simp_all add: m2_def m1_def add.assoc ldr_store_one_other [OF te])
  have g: "ldr (store_one m3 (ts + 40)) (ts + 44) = 0"
    using ldr_store_one(2) [of m3 "ts + 40"] by (simp add: add.assoc)
  have h: "ldr m3 (t + 12) = 1" "ldr m3 (t + 16) = 0" "ldr m3 (t + 4) = ldr m (t + 4) OR 0x0202"
    by (simp_all add: m3_def c push_bit_eq_mult)
  show "go124_expired m e t ts (go124_found t e m)"
    unfolding go124_expired_def f by (simp add: e4 b h g ldr_store_one_other [OF tts])
  show "go124_found t e m a = m a" if "a \<notin> go124_writes e t ts"
    using that by (simp add: f go124_writes_def m3_def m2_def m1_def store_one_other str_other)
qed

text \<open>The addresses of the heap's entries, counted down from the last one.\<close>

lemma heap_entry:
  assumes "i < n"
  shows "h + (of_nat n - 1) * 12 - 12 * of_nat (n - 1 - i) = h + 12 * (of_nat i :: 32 word)"
proof -
  have "of_nat n - 1 - of_nat (n - 1 - i) = (of_nat i :: 32 word)"
    using assms by (simp add: of_nat_diff)
  then show ?thesis by (simp add: algebra_simps)
qed

lemma heap_entry_nonzero:
  assumes "(h::32 word) \<noteq> 0" and "unat h + 12 * n \<le> 2 ^ 32" and "i < n"
  shows "h + 12 * of_nat i \<noteq> 0"
proof
  assume z: "h + 12 * of_nat i = 0"
  have "h + 12 * of_nat i = of_nat (unat h + 12 * i)" by simp
  then have "unat (h + 12 * of_nat i) = (unat h + 12 * i) mod 2 ^ 32" by (simp only: unat_of_nat) simp
  also have "\<dots> = unat h + 12 * i" using assms by (intro mod_less) simp
  finally show False using z assms(1) by (simp add: unat_eq_0)
qed

lemma go124_check_heap:
  assumes h: "h \<noteq> 0" "unat h + 12 * unat n \<le> 2 ^ 32" and i: "i < unat n"
    and hit: "ldr m (h + 12 * of_nat i) = t" and last: "\<forall>j. i < j \<and> j < unat n \<longrightarrow> ldr m (h + 12 * of_nat j) \<noteq> t"
  shows "go124_check m t (h + (n - 1) * 12) = Some (Some (h + 12 * of_nat i))"
proof -
  have e: "h + (n - 1) * 12 - 12 * of_nat k = h + 12 * of_nat (unat n - 1 - k)" if "k < unat n" for k
    using heap_entry [of "unat n - 1 - k" "unat n" h] that by simp
  let ?k = "unat n - 1 - i"
  have "go124_check m t (h + (n - 1) * 12) = Some (Some (h + (n - 1) * 12 - 12 * of_nat ?k))"
  proof (rule s124.check_finds)
    show "ldr m (h + (n - 1) * 12 - 12 * of_nat ?k) = t" using hit i by (subst e) simp_all
    show "\<forall>j<?k. ldr m (h + (n - 1) * 12 - 12 * of_nat j) \<noteq> t"
    proof (intro allI impI)
      fix j assume j: "j < ?k"
      then have "ldr m (h + 12 * of_nat (unat n - 1 - j)) \<noteq> t" by (intro last [rule_format]) linarith
      with j show "ldr m (h + (n - 1) * 12 - 12 * of_nat j) \<noteq> t" by (simp only: e not_False_eq_True)
    qed
    show "\<forall>j\<in>{1..?k}. h + (n - 1) * 12 - 12 * of_nat j \<noteq> 0"
    proof
      fix j assume "j \<in> {1..?k}"
      then show "h + (n - 1) * 12 - 12 * of_nat j \<noteq> 0"
        using i heap_entry_nonzero [OF h, of "unat n - 1 - j"] by (subst e) auto
    qed
  qed
  also have "h + (n - 1) * 12 - 12 * of_nat ?k = h + 12 * of_nat i" using i by (subst e) simp_all
  finally show ?thesis .
qed

section \<open>Properties\<close>

text \<open>Waking an applet built with Go 1.24: if the registered goroutine has a timer \<open>t\<close>, whose timer
  set \<open>ts\<close> has a heap that does not wrap around the address space, and the last heap entry of that
  timer is number \<open>i\<close>, then the routine returns, having made exactly that entry and the timer due at
  time 1, marked the timer as modified and made the set look at its timers; it writes nothing but the
  four fields. The entry, the timer and the set are separate objects.\<close>

lemma go124_wakes_timer:
  assumes "G \<noteq> 0" and "P \<noteq> 0"
    and "ldr m (G + 216) = t" and "t \<noteq> 0"
    and "ldr m (t + 44) = ts" and "ts \<noteq> 0"
    and "ldr m (ts + 4) = h" and "h \<noteq> 0" and "ldr m (ts + 8) = n" and "unat h + 12 * unat n \<le> 2 ^ 32"
    and "i < unat n" and "ldr m (h + 12 * of_nat i) = t"
    and "\<forall>j. i < j \<and> j < unat n \<longrightarrow> ldr m (h + 12 * of_nat j) \<noteq> t"
    and "span (h + 12 * of_nat i) 12 \<inter> span t 56 = {}" and "span t 56 \<inter> span ts 48 = {}"
    and "span (h + 12 * of_nat i) 12 \<inter> span ts 48 = {}"
  shows "\<exists>m'. wake WakeG wakeHandlerGo124 G P m = Some m' \<and> go124_expired m (h + 12 * of_nat i) t ts m'
    \<and> (\<forall>a. a \<notin> go124_writes (h + 12 * of_nat i) t ts \<longrightarrow> m' a = m a)"
proof -
  have "n \<noteq> 0" using assms(11) by auto
  then have "wake WakeG wakeHandlerGo124 G P m = Some (go124_found t (h + 12 * of_nat i) m)"
    using assms(1-9) go124_check_heap [OF assms(8,10,11,12,13)]
    by (simp add: wake_def asm_wakeHandlerGo124_def Let_def)
  then show ?thesis using go124_found_writes [OF assms(14-16,5)] by simp
qed

text \<open>A small applet image: the goroutine at \<open>0x90000100\<close>, its timer at \<open>0x90001000\<close>, the timer set at
  \<open>0x90002000\<close> and a heap of two entries at \<open>0x90003000\<close>, the second of which is the timer's.\<close>

definition wake_image :: mem where
  "wake_image = str (str (str (str (str (\<lambda>_. 0) (0x90000100 + 216) 0x90001000) (0x90001000 + 44) 0x90002000)
     (0x90002000 + 4) 0x90003000) (0x90002000 + 8) 2) (0x90003000 + 12) 0x90001000"

lemma wake_image_fields:
  "ldr wake_image (0x90000100 + 216) = 0x90001000" "ldr wake_image (0x90001000 + 44) = 0x90002000"
  "ldr wake_image (0x90002000 + 4) = 0x90003000" "ldr wake_image (0x90002000 + 8) = 2"
  "ldr wake_image (0x90003000 + 12) = 0x90001000"
  by (simp_all add: wake_image_def)

lemma go124_wakes_timer_example:
  "\<exists>m'. wake (\<lambda>_ _. Some) wakeHandlerGo124 0x90000100 0x90000010 wake_image = Some m'
    \<and> ldr m' 0x9000100c = 1 \<and> ldr m' 0x90003010 = 1 \<and> m' 0x90003000 = wake_image 0x90003000"
proof -
  have "span 0x9000300c 12 \<inter> span 0x90001000 56 = {}" "span 0x90001000 56 \<inter> span 0x90002000 48 = {}"
    "span 0x9000300c 12 \<inter> span 0x90002000 48 = {}" by (intro span_disjoint; simp)+
  moreover have "\<forall>j. Suc 0 < j \<and> j < 2 \<longrightarrow> ldr wake_image (0x90003000 + 12 * of_nat j) \<noteq> 0x90001000" by auto
  ultimately obtain m' where m': "wake (\<lambda>_ _. Some) wakeHandlerGo124 0x90000100 0x90000010 wake_image = Some m'"
      "go124_expired wake_image 0x9000300c 0x90001000 0x90002000 m'"
      "\<forall>a. a \<notin> go124_writes 0x9000300c 0x90001000 0x90002000 \<longrightarrow> m' a = wake_image a"
    using go124_wakes_timer [where G = "0x90000100" and P = "0x90000010" and m = wake_image and i = 1
      and WakeG = "\<lambda>_ _. Some", OF _ _ wake_image_fields(1) _ wake_image_fields(2) _ wake_image_fields(3) _ wake_image_fields(4)]
      wake_image_fields(5) by auto
  then show ?thesis by (intro exI [of _ m']) (simp add: go124_expired_def go124_writes_def in_span)
qed

text \<open>C26: when the search through the heap of a Go 1.24 applet ends: from a heap pointer that is a
  multiple of 4 always, whatever the memory contains, since the steps reach address 0 at last; from
  any other pointer it does not end unless it meets a word equal to the timer's address. The OS does
  not check the pointer, so an interrupt of an applet with such a heap leaves the OS in the loop.\<close>

theorem go124_search_ends:
  assumes "G \<noteq> 0" and "P \<noteq> 0"
    and "ldr m (G + 216) = t" and "t \<noteq> 0" and "ldr m (t + 44) = ts" and "ts \<noteq> 0"
    and "ldr m (ts + 4) = h" and "h \<noteq> 0" and "ldr m (ts + 8) = n" and "n \<noteq> 0"
  shows "(4 dvd unat h \<longrightarrow> wake WakeG wakeHandlerGo124 G P m \<noteq> None)
    \<and> (\<not> 4 dvd unat h \<and> (\<forall>k. ldr m (h + (n - 1) * 12 - 12 * of_nat k) \<noteq> t)
        \<longrightarrow> wake WakeG wakeHandlerGo124 G P m = None)"
proof -
  have w: "wake WakeG wakeHandlerGo124 G P m = None \<longleftrightarrow> go124_check m t (h + (n - 1) * 12) = None"
    using assms by (simp add: wake_def asm_wakeHandlerGo124_def Let_def split: option.splits)
  have "h + (n - 1) * 12 = of_nat (unat h + 12 * unat (n - 1))" by simp
  then have "unat (h + (n - 1) * 12) = (unat h + 12 * unat (n - 1)) mod 2 ^ 32" by (simp only: unat_of_nat) simp
  then have a: "4 dvd unat (h + (n - 1) * 12) \<longleftrightarrow> 4 dvd unat h"
    by (simp add: dvd_mod_iff dvd_add_left_iff)
  show ?thesis
    using s124.check_aligned [of "h + (n - 1) * 12" m t] s124.check_diverges [of "h + (n - 1) * 12" m t]
    unfolding w a by blast
qed

text \<open>An image whose heap pointer is not a multiple of 4 and which has no other word like the address of
  the timer: the high byte of that address is at no address the search reads it from.\<close>

definition wake_odd :: mem where
  "wake_odd = str (str (str (str (\<lambda>_. 0) (0x90000100 + 216) 0x90001000) (0x90001000 + 44) 0x90002000)
     (0x90002000 + 4) 0x90003001) (0x90002000 + 8) 1"

lemma wake_odd_misses: "ldr wake_odd (0x90003001 - 12 * of_nat k) \<noteq> 0x90001000"
proof
  assume e: "ldr wake_odd (0x90003001 - 12 * of_nat k) = 0x90001000"
  have h: "m (a + 3) = ucast (drop_bit 24 (ldr m a))" for m :: mem and a
    by (rule bit_word_eqI) (auto simp: ldr_def bit_simps dest: bit_imp_le_length)
  have c: "ucast (drop_bit 24 (0x90001000 :: 32 word)) = (0x90 :: 8 word)" by code_simp
  have "wake_odd (0x90003004 - 12 * of_nat k) = 0x90"
    using h [of wake_odd "0x90003001 - 12 * of_nat k", unfolded e c] by (simp add: algebra_simps)
  moreover have "take_bit 2 (0x90003004 - 12 * of_nat k :: 32 word) = 0"
  proof -
    have "0x90003004 - 12 * of_nat k = push_bit 2 (0x24000c01 - 3 * of_nat k :: 32 word)"
      by (simp add: push_bit_eq_mult algebra_simps)
    then show ?thesis by (simp add: take_bit_push_bit)
  qed
  ultimately show False
    by (auto simp: wake_odd_def str_def split: if_splits)
qed

theorem go124_search_ends_witness:
  "wake (\<lambda>_ _. Some) wakeHandlerGo124 0x90000100 0x90000010 wake_odd = None
    \<and> wake (\<lambda>_ _. Some) wakeHandlerGo124 0x90000100 0x90000010 wake_image \<noteq> None"
proof -
  have f: "ldr wake_odd (0x90000100 + 216) = 0x90001000" "ldr wake_odd (0x90001000 + 44) = 0x90002000"
    "ldr wake_odd (0x90002000 + 4) = 0x90003001" "ldr wake_odd (0x90002000 + 8) = 1"
    by (simp_all add: wake_odd_def)
  show ?thesis
    using go124_search_ends [where G = "0x90000100" and P = "0x90000010" and m = wake_image and WakeG = "\<lambda>_ _. Some",
        OF _ _ wake_image_fields(1) _ wake_image_fields(2) _ wake_image_fields(3) _ wake_image_fields(4)]
      go124_search_ends [where G = "0x90000100" and P = "0x90000010" and m = wake_odd and WakeG = "\<lambda>_ _. Some",
        OF _ _ f(1) _ f(2) _ f(3) _ f(4)] wake_odd_misses
    by simp
qed

text \<open>C18: the addresses a wake-up writes are taken from the applet's memory unchecked: the OS checks that
  the registered addresses are the applet's, but an applet built with a Go release before 1.23 that
  changes only the word at its registered goroutine that holds the address of the timer makes the next
  interrupt write 1 to any address it chooses and 7 eight bytes further on, memory of the OS included.\<close>

theorem wake_target_unchecked:
  assumes "mm \<in> {mem_default, mem_bee}" and "isAppletMemory mm G" and "isAppletMemory mm P"
    and "target \<noteq> 36" and "span target 12 \<inter> span (P + 2384) 8 = {}"
  shows "\<exists>m1 m2. (\<forall>a. a \<notin> span (G + 208) 4 \<longrightarrow> m1 a = m a)
    \<and> wake WakeG wakeHandlerPreGo123 G P m1 = Some m2 \<and> ldr m2 target = 1 \<and> ldr m2 (target + 8) = 7"
proof -
  have nz: "G \<noteq> 0" "P \<noteq> 0" using assms(1-3) by (auto simp: isAppletMemory_def mem_default_def mem_bee_def)
  define m1 where "m1 = str m (G + 208) (target - 36)"
  define m2 where "m2 = store_one (str (store_one m1 target) (target + 8) 7) (P + 2384)"
  have "target - 36 \<noteq> 0" using assms(4) by simp
  then have w: "wake WakeG wakeHandlerPreGo123 G P m1 = Some m2"
    using nz by (simp add: wake_def asm_wakeHandlerPreGo123_def m1_def m2_def Let_def algebra_simps)
  have o: "span (target + c) 4 \<inter> span (P + 2384) 8 = {}" if "c \<in> {0, 8}" for c
    using spans_apart [OF assms(5), of c 4 0 8] that by auto
  have "ldr m2 target = 1" "ldr m2 (target + 8) = 7"
    using o [of 0] o [of 8] by (simp_all add: m2_def ldr_store_one_other)
  with w show ?thesis by (intro exI [of _ m1] exI [of _ m2]) (simp add: m1_def str_other)
qed

theorem wake_target_unchecked_witness:
  "\<exists>m1 m2. (\<forall>a. a \<notin> span 0x900001d0 4 \<longrightarrow> m1 a = wake_image a)
    \<and> wake (\<lambda>_ _. Some) wakeHandlerPreGo123 0x90000100 0x90000010 m1 = Some m2 \<and> ldr m2 0x80010000 = 1
    \<and> unat (0x80010000 :: 32 word) \<in> region (ramStart mem_default) (ramSize mem_default)"
proof -
  have "span 0x80010000 12 \<inter> span (0x90000010 + 2384) 8 = {}" by (intro span_disjoint) simp_all
  moreover have "isAppletMemory mem_default 0x90000100" "isAppletMemory mem_default 0x90000010"
    and "unat (0x80010000 :: 32 word) \<in> region (ramStart mem_default) (ramSize mem_default)"
    by (simp_all add: isAppletMemory_def mem_default_def region_def ramStart_def ramSize_def)
  ultimately show ?thesis
    using wake_target_unchecked [of mem_default "0x90000100" "0x90000010" "0x80010000" wake_image "\<lambda>_ _. Some"] by auto
qed

end
