(* ===== verification/Semver.thy ===== *)
theory Semver
  imports Handler Net_Addr "HOL-Library.Char_ord" "HOL-Library.List_Lexorder" "HOL-Library.Product_Lexorder"
begin

text \<open>
  Semantic versions. The version package is outside the repository and a parameter of the model; this
  theory has an executable instance after the standard it implements (Semantic Versioning 2.0.0: three
  numbers, dotted pre-release identifiers, dotted build metadata that precedence ignores). It meets the
  laws \<open>semver_ops\<close>, so what is proved from them holds for versions as the project tags them; the
  concrete runs below check versions with several digits and release candidates, and choose the wake
  handler for real runtime versions.
\<close>

section \<open>Dotted texts\<close>

fun join :: "char \<Rightarrow> string list \<Rightarrow> string" where
  "join c [] = []"
| "join c [x] = x"
| "join c (x # y # xs) = x @ c # join c (y # xs)"

definition break_at :: "char \<Rightarrow> string \<Rightarrow> string \<times> string option" where
  "break_at c s = (takeWhile (\<lambda>x. x \<noteq> c) s, case dropWhile (\<lambda>x. x \<noteq> c) s of [] \<Rightarrow> None | _ # r \<Rightarrow> Some r)"

lemma split_on_step: "c \<notin> set x \<Longrightarrow> split_on c (x @ c # r) = x # split_on c r"
  by (induction x) auto

lemma split_on_one: "c \<notin> set x \<Longrightarrow> split_on c x = [x]"
  by (induction x) auto

lemma split_join: "xs \<noteq> [] \<Longrightarrow> \<forall>x \<in> set xs. c \<notin> set x \<Longrightarrow> split_on c (join c xs) = xs"
  by (induction c xs rule: join.induct) (auto simp: split_on_step split_on_one)

lemma split_on_nonempty [simp]: "split_on c s \<noteq> []"
  by (induction s) (auto split: list.split)

lemma in_join: "x \<in> set (join c xs) \<Longrightarrow> x = c \<or> (\<exists>y \<in> set xs. x \<in> set y)"
  by (induction c xs rule: join.induct) auto

lemma break_at_none: "c \<notin> set s \<Longrightarrow> break_at c s = (s, None)"
  by (induction s) (auto simp: break_at_def split: if_splits)

lemma break_at_some: "c \<notin> set s \<Longrightarrow> break_at c (s @ c # r) = (s, Some r)"
  by (induction s) (auto simp: break_at_def)

section \<open>Versions\<close>

datatype ident = Numeric nat | Alnum string

datatype version = Version nat nat nat "ident list" "string list"

definition id_char :: "char \<Rightarrow> bool" where
  "id_char c \<longleftrightarrow> (let n = of_char c :: nat in 48 \<le> n \<and> n \<le> 57 \<or> 65 \<le> n \<and> n \<le> 90 \<or> 97 \<le> n \<and> n \<le> 122 \<or> n = 45)"

definition parse_number :: "string \<Rightarrow> nat option" where
  "parse_number s = (if s = [] \<or> (hd s = CHR ''0'' \<and> s \<noteq> ''0'') then None else decimal 0 s)"

definition parse_meta :: "string \<Rightarrow> string option" where
  "parse_meta s = (if s \<noteq> [] \<and> list_all id_char s then Some s else None)"

text \<open>Digits with a leading zero are neither a number nor an identifier.\<close>

definition parse_ident :: "string \<Rightarrow> ident option" where
  "parse_ident s = (case parse_number s of
      Some n \<Rightarrow> Some (Numeric n)
    | None \<Rightarrow> if decimal 0 s = None then map_option Alnum (parse_meta s) else None)"

fun dotted :: "(string \<Rightarrow> 'a option) \<Rightarrow> string option \<Rightarrow> 'a list option" where
  "dotted f None = Some []"
| "dotted f (Some s) = those (map f (split_on CHR ''.'' s))"

definition parse_semver :: "string \<Rightarrow> version res" where
  "parse_semver s =
     (let (s1, meta) = break_at CHR ''+'' s; (core, pre) = break_at CHR ''-'' s1
      in case (those (map parse_number (split_on CHR ''.'' core)), dotted parse_ident pre, dotted parse_meta meta) of
           (Some [a, b, c], Some p, Some m) \<Rightarrow> Ok (Version a b c p m)
         | _ \<Rightarrow> Err (External ''not a semantic version''))"

fun print_ident :: "ident \<Rightarrow> string" where
  "print_ident (Numeric n) = show_nat n"
| "print_ident (Alnum s) = s"

definition print_tail :: "char \<Rightarrow> string list \<Rightarrow> string" where
  "print_tail c xs = (if xs = [] then [] else c # join CHR ''.'' xs)"

fun print_semver :: "version \<Rightarrow> string" where
  "print_semver (Version a b c p m) = join CHR ''.'' (map show_nat [a, b, c])
     @ print_tail CHR ''-'' (map print_ident p) @ print_tail CHR ''+'' m"

text \<open>Precedence: numeric identifiers before others, a longer list of identifiers after its prefixes,
  a release after its pre-releases.\<close>

instantiation ident :: linorder
begin

fun less_eq_ident :: "ident \<Rightarrow> ident \<Rightarrow> bool" where
  "less_eq_ident (Numeric a) (Numeric b) \<longleftrightarrow> a \<le> b"
| "less_eq_ident (Numeric a) (Alnum t) \<longleftrightarrow> True"
| "less_eq_ident (Alnum s) (Numeric b) \<longleftrightarrow> False"
| "less_eq_ident (Alnum s) (Alnum t) \<longleftrightarrow> s \<le> t"

definition less_ident :: "ident \<Rightarrow> ident \<Rightarrow> bool" where
  "less_ident x y \<longleftrightarrow> x \<le> y \<and> \<not> y \<le> x"

instance
proof
  fix x y z :: ident
  show "x < y \<longleftrightarrow> x \<le> y \<and> \<not> y \<le> x" by (rule less_ident_def)
  show "x \<le> x" by (cases x) simp_all
  show "x \<le> y \<Longrightarrow> y \<le> z \<Longrightarrow> x \<le> z" by (cases x; cases y; cases z) simp_all
  show "x \<le> y \<Longrightarrow> y \<le> x \<Longrightarrow> x = y" by (cases x; cases y) simp_all
  show "x \<le> y \<or> y \<le> x" by (cases x; cases y) auto
qed

end

fun precedence :: "version \<Rightarrow> nat \<times> nat \<times> nat \<times> bool \<times> ident list" where
  "precedence (Version a b c p m) = (a, b, c, p = [], p)"

definition semver2 :: "version semver" where
  "semver2 = \<lparr>NewVersion = parse_semver, Version_String = print_semver,
     LessThan = (\<lambda>v w. precedence v < precedence w), Equal = (\<lambda>v w. precedence v = precedence w)\<rparr>"

section \<open>Parsing undoes printing\<close>

lemma decimal_append: "decimal acc (xs @ ys) = (case decimal acc xs of None \<Rightarrow> None | Some a \<Rightarrow> decimal a ys)"
  by (induction xs arbitrary: acc) (auto split: option.split)

lemma digit_value_char [simp]: "d < 10 \<Longrightarrow> digit_value (char_of (d + 48)) = Some d"
  by (simp add: digit_value_def Let_def)

lemma show_nat_shape:
  "decimal 0 (show_nat n) = Some n \<and> show_nat n \<noteq> [] \<and> (hd (show_nat n) = CHR ''0'' \<longrightarrow> n = 0)"
proof (induction n rule: show_nat.induct)
  case (1 n)
  have z: "CHR ''0'' = char_of (48 :: nat)" by code_simp
  show ?case
  proof (cases "n < 10")
    case True
    then show ?thesis by (simp add: show_nat.simps [of n] z char_of_eq_iff take_bit_eq_mod)
  next
    case False
    with 1 show ?thesis by (subst (1 2 3) show_nat.simps) (auto simp: decimal_append)
  qed
qed

lemma parse_number_show [simp]: "parse_number (show_nat n) = Some n"
  using show_nat_shape [of n] by (auto simp: parse_number_def show_nat.simps [of 0])

lemma decimal_digits: "decimal acc s = Some n \<Longrightarrow> x \<in> set s \<Longrightarrow> digit_value x \<noteq> None"
  by (induction s arbitrary: acc) (auto split: option.splits)

lemma id_char_seps: "\<not> id_char CHR ''.''" "\<not> id_char CHR ''+''"
  by code_simp+

lemma show_nat_chars: "x \<in> set (show_nat n) \<Longrightarrow> id_char x \<and> x \<noteq> CHR ''-''"
  using decimal_digits [of 0 "show_nat n" n x] show_nat_shape [of n]
  by (auto simp: digit_value_def id_char_def Let_def split: if_splits)

text \<open>What the parser returns.\<close>

definition semver_ok :: "version \<Rightarrow> bool" where
  "semver_ok v = (case v of Version a b c p m \<Rightarrow>
     (\<forall>i \<in> set p. parse_ident (print_ident i) = Some i) \<and> (\<forall>i \<in> set m. parse_meta i = Some i))"

lemma those_map_iff: "those (map f xs) = Some ys \<longleftrightarrow> list_all2 (\<lambda>x y. f x = Some y) xs ys"
  by (induction xs arbitrary: ys) (auto simp: list_all2_Cons1 split: option.split)

lemma parse_ident_show [simp]: "parse_ident (show_nat n) = Some (Numeric n)"
  by (simp add: parse_ident_def)

lemma parse_ident_Alnum: "parse_ident s = Some (Alnum t) \<Longrightarrow> s = t \<and> list_all id_char t"
  by (auto simp: parse_ident_def parse_meta_def split: option.splits if_splits)

lemma parse_ident_print: "parse_ident s = Some i \<Longrightarrow> parse_ident (print_ident i) = Some i"
  by (cases i) (use parse_ident_Alnum in auto)

lemma parse_semver_ok: "parse_semver s = Ok v \<Longrightarrow> semver_ok v"
proof -
  have "dotted parse_ident q = Some p \<Longrightarrow> i \<in> set p \<Longrightarrow> parse_ident (print_ident i) = Some i" for q p i
    by (cases q) (auto simp: those_map_iff list_all2_conv_all_nth in_set_conv_nth intro: parse_ident_print)
  moreover have "dotted parse_meta q = Some p \<Longrightarrow> i \<in> set p \<Longrightarrow> parse_meta i = Some i" for q p i
    by (cases q) (auto simp: those_map_iff list_all2_conv_all_nth in_set_conv_nth parse_meta_def split: if_splits)
  moreover assume "parse_semver s = Ok v"
  ultimately show ?thesis
    by (auto simp: parse_semver_def semver_ok_def Let_def split: prod.splits option.splits list.splits)
qed

lemma print_ident_chars: "parse_ident (print_ident i) = Some i \<Longrightarrow> x \<in> set (print_ident i) \<Longrightarrow> id_char x"
  by (cases i) (auto simp: show_nat_chars list_all_iff dest: parse_ident_Alnum)

lemma print_tail_chars:
  "\<forall>y \<in> set xs. \<forall>x \<in> set y. id_char x \<Longrightarrow> x \<in> set (print_tail c xs) \<Longrightarrow> x = c \<or> x = CHR ''.'' \<or> id_char x"
  by (auto simp: print_tail_def dest: in_join split: if_splits)

lemma break_print_tail: "c \<notin> set s \<Longrightarrow> break_at c (s @ print_tail c xs) = (s, if xs = [] then None else Some (join CHR ''.'' xs))"
  by (simp add: print_tail_def break_at_none break_at_some)

lemma split_join_ids: "xs \<noteq> [] \<Longrightarrow> \<forall>y \<in> set xs. \<forall>x \<in> set y. id_char x \<Longrightarrow> split_on CHR ''.'' (join CHR ''.'' xs) = xs"
  by (rule split_join) (use id_char_seps(1) in blast)+

lemma dotted_join:
  "\<forall>y \<in> set xs. \<forall>x \<in> set y. id_char x \<Longrightarrow> list_all2 (\<lambda>x i. f x = Some i) xs is
    \<Longrightarrow> dotted f (if xs = [] then None else Some (join CHR ''.'' xs)) = Some is"
  by (cases "xs = []") (simp_all add: split_join_ids those_map_iff)

lemma parse_print_semver:
  assumes "semver_ok v"
  shows "parse_semver (print_semver v) = Ok v"
proof (cases v)
  case (Version a b c p m)
  let ?core = "join CHR ''.'' (map show_nat [a, b, c])" and ?p = "map print_ident p"
  have chars: "\<forall>y \<in> set ?p. \<forall>x \<in> set y. id_char x" "\<forall>y \<in> set m. \<forall>x \<in> set y. id_char x"
    using assms Version print_ident_chars
    by (auto simp: semver_ok_def parse_meta_def list_all_iff split: if_splits)
  have core: "x \<in> set ?core \<Longrightarrow> x = CHR ''.'' \<or> id_char x \<and> x \<noteq> CHR ''-''" for x
    using show_nat_chars by auto
  from core [of "CHR ''-''"] have minus: "CHR ''-'' \<notin> set ?core" by blast
  have "CHR ''+'' \<notin> set ?core" using core [of "CHR ''+''"] id_char_seps by blast
  moreover have "CHR ''+'' \<notin> set (print_tail CHR ''-'' ?p)"
    using print_tail_chars [OF chars(1), of "CHR ''+''" "CHR ''-''"] id_char_seps(2) by auto
  ultimately have plus: "CHR ''+'' \<notin> set (?core @ print_tail CHR ''-'' ?p)" by simp
  have "those (map parse_number (split_on CHR ''.'' ?core)) = Some [a, b, c]"
    by (subst split_join_ids) (simp_all add: show_nat_chars)
  moreover have "dotted parse_ident (if ?p = [] then None else Some (join CHR ''.'' ?p)) = Some p"
    using assms Version by (intro dotted_join chars) (auto simp: semver_ok_def list_all2_conv_all_nth)
  moreover have "dotted parse_meta (if m = [] then None else Some (join CHR ''.'' m)) = Some m"
    using assms Version by (intro dotted_join chars) (auto simp: semver_ok_def list_all2_conv_all_nth)
  ultimately show ?thesis
    using break_print_tail [OF plus, of m] break_print_tail [OF minus, of ?p] Version by (simp add: parse_semver_def)
qed

interpretation sem: semver_ops semver2
proof
  show "NewVersion semver2 s = Ok v \<Longrightarrow> NewVersion semver2 (Version_String semver2 v) = Ok v" for s v
    using parse_semver_ok parse_print_semver by (simp add: semver2_def)
  show "is_Ok (NewVersion semver2 ''0.0.0'')" by code_simp
qed (auto simp: semver2_def)

section \<open>Rollback protection and wake handlers with semantic versions\<close>

lemma precedence_examples:
  "map (\<lambda>s. case parse_semver s of Ok v \<Rightarrow> print_semver v | _ \<Rightarrow> ''refused'')
     [''1.10.0-rc.2+ab12'', ''0.3.17-incompat'', ''1.02.3'', ''v1.2.3'', ''1.2'', ''1.2.3-01'', ''1.2.3-'']
   = [''1.10.0-rc.2+ab12'', ''0.3.17-incompat'', ''refused'', ''refused'', ''refused'', ''refused'', ''refused'']"
  "sorted_wrt (LessThan semver2) [Version 1 2 3 [Alnum ''rc'', Numeric 2] [], Version 1 2 3 [Alnum ''rc'', Numeric 10] [],
     Version 1 2 3 [] [''b1''], Version 1 2 4 [Numeric 1] [], Version 1 10 0 [] []]"
  by code_simp+

interpretation sem_rb: rollback_device emmc_hw e_key e_counter emmc_sector semver2
  by unfold_locales

text \<open>Checks of a blank sector with versions of several digits and release candidates: the candidate is
  accepted, the older release and the older candidate are not, the release is.\<close>

definition demo_releases :: "(16 word \<times> string) list" where
  "demo_releases = [(2, ''1.10.0-rc.2''), (2, ''1.9.4''), (2, ''1.10.0-rc.1''), (2, ''1.10.0'')]"

lemma semver_checks:
  "check_seq (checkVersion emmc_hw semver2) demo_releases demo_rb = [True, False, False, True]"
proof -
  let ?zero = "\<lambda>_ :: 16 word. Version 0 0 0 [] []"
  have parse: "NewVersion semver2 ''0.0.0'' = Ok (?zero 0)" by code_simp
  have stored: "rb_stored semver2 emmc_sector demo_rb x = Ok (?zero x)" for x
    using parse decode_version_blank [unfolded versionLength_def, of semver2]
    by (simp add: demo_rb_def rb_stored_def versionLength_def)
  have "list_all (\<lambda>(_, str). case parse_semver str of Ok v \<Rightarrow> length (print_semver v) \<le> 28 | _ \<Rightarrow> False) demo_releases"
    by code_simp
  then have storable: "rb_storable semver2 v" if "(x, str) \<in> set demo_releases" "NewVersion semver2 str = Ok v" for x str v
    using that by (fastforce simp: list_all_iff rb_storable_def semver2_def)
  have "check_seq (checkVersion emmc_hw semver2) demo_releases demo_rb = fst (register_run semver2 demo_releases ?zero)"
    using sem_rb.checks_refine_registers [OF demo_rb_ready(1) _ storable, where vs = demo_releases and X = UNIV and reg = ?zero]
      stored demo_rb_ready(2)
    by (simp add: checkVersion_def demo_releases_def)
  also have "\<dots> = [True, False, False, True]" by code_simp
  finally show ?thesis .
qed

text \<open>A board with these versions: the applet's runtime decides the wake handler.\<close>

definition go_board :: "(unit, version) board" where
  "go_board = \<lparr>Native = True, debug = False, SNVS_Available = (\<lambda>_. True), LAN = True, USB = False,
     mem_layout = mem_default, key_hardware = demo_keys, fuse_box = blown_flag,
     rpmb_driver = \<lparr>hw_MMC = (\<lambda>_. True), hw_WriteRPMB = (\<lambda>_ _ w. (Ok (), w)),
       hw_ReadRPMB = (\<lambda>n w. (Ok (zeros n), w)), hw_rand = (\<lambda>n w. (Ok (zeros n), w))\<rparr>,
     Storage = None, boot_config = tiny_boot_codec, semvers = semver2,
     AppletBundle_Verify = (\<lambda>_. Ok ()), OSBundle_Verify = (\<lambda>_. Ok ()), SwitchEndianness = rev,
     board_LED = (\<lambda>_ _ w. (Ok (), w)), Stdout_Write = (\<lambda>_ w. (Ok (), w)), SetARMFreq = (\<lambda>_ w. (Ok (), w)),
     GetInterrupt = (\<lambda>w. (Ok 0, w)), TransferRegion = (\<lambda>_. Ok (0, 0)), Memory_Write = (\<lambda>c _ _. c),
     Memory_Read = (\<lambda>_ _ n. zeros n), Ret = (\<lambda>c _. c), saved_Mode = SPSR, bits_Set = (\<lambda>w _. w),
     bits_Clear = (\<lambda>w _. w), arm_FIQ = 0x1c, arm_SUPERVISOR = 8, arm_USR_MODE = 0x10, SYS_WRITE = 4,
     LAN_IRQ = 152, USB_IRQ = 75, WDOG2_IRQ = 42, SecureHandler = retS (), ELF_Load = (\<lambda>_ w. (Ok 0, w)),
     Monitor_Load = (\<lambda>_ w. (Ok demo_ctx, w)), applet_end = 0xa0000000, Ctx_Run = retS (),
     PHY_Register = (\<lambda>_ _. 4), LAN_MAC = (\<lambda>_. []), FrontPortMode = (\<lambda>_. (True, None)), NIC_Init = (\<lambda>_ _. Ok ()), runtime_text = []\<rparr>"

lemma configureWakeHandler_runtimes:
  "list_all (\<lambda>(runtime, h). \<exists>v. NewVersion semver2 runtime = Ok v
       \<and> configureWakeHandler go_board v s = (Ok (), s\<lparr>wHandler := Some h\<rparr>))
     [(''1.22.6'', wakeHandlerPreGo123), (''1.23.0-rc.1'', wakeHandlerPreGo123), (''1.23.1'', wakeHandlerGo123),
      (''1.24.6'', wakeHandlerGo124), (''1.25.0'', wakeHandlerGo125)]"
proof -
  have cut: "NewVersion semver2 ''1.23.0'' = Ok (Version 1 23 0 [] [])" "NewVersion semver2 ''1.24.0'' = Ok (Version 1 24 0 [] [])"
    "NewVersion semver2 ''1.25.0'' = Ok (Version 1 25 0 [] [])" by code_simp+
  have parse: "NewVersion semver2 ''1.22.6'' = Ok (Version 1 22 6 [] [])"
    "NewVersion semver2 ''1.23.0-rc.1'' = Ok (Version 1 23 0 [Alnum ''rc'', Numeric 1] [])"
    "NewVersion semver2 ''1.23.1'' = Ok (Version 1 23 1 [] [])" "NewVersion semver2 ''1.24.6'' = Ok (Version 1 24 6 [] [])"
    by code_simp+
  let ?choose = "choose_wake_handler semver2 (Version 1 23 0 [] []) (Version 1 24 0 [] []) (Version 1 25 0 [] [])"
  have "semvers go_board = semver2" by (simp add: go_board_def)
  then have "configureWakeHandler go_board v s = (Ok (), s\<lparr>wHandler := Some (?choose v)\<rparr>)" for v
    using cut by (simp add: configureWakeHandler_def bindS_apply semver_New_def handler123Cutover_def
        handler124Cutover_def handler125Cutover_def)
  moreover have "?choose (Version 1 22 6 [] []) = wakeHandlerPreGo123"
    "?choose (Version 1 23 0 [Alnum ''rc'', Numeric 1] []) = wakeHandlerPreGo123" "?choose (Version 1 23 1 [] []) = wakeHandlerGo123"
    "?choose (Version 1 24 6 [] []) = wakeHandlerGo124" "?choose (Version 1 25 0 [] []) = wakeHandlerGo125" by code_simp+
  ultimately show ?thesis using cut(3) parse by simp
qed

end
