(* ===== verification/Interrupt_Path.thy ===== *)
theory Interrupt_Path
  imports Wake_Handlers Semver Rpc
begin

text \<open>
  The path of an interrupt from the exception vector to the applet's runtime: \<open>handler\<close> and
  \<open>fiqHandler\<close> of \<open>src/trusted_os/handler.go\<close> act on the state of the OS and record the call of a
  wake handler; the routines of \<open>src/trusted_os/handler.s\<close> act on memory. Here the recorded calls are
  carried out on the memory, and the parts that set the path up (choice of the wake handler when the
  applet is loaded, registration of the addresses by the applet) are composed with it.
\<close>

section \<open>The recorded calls on memory\<close>

text \<open>\<open>None\<close>: one of the routines does not return.\<close>

fun apply_wakes :: "(32 word \<Rightarrow> 32 word \<Rightarrow> mem \<Rightarrow> mem option) \<Rightarrow> os_event list \<Rightarrow> mem \<Rightarrow> mem option" where
  "apply_wakes WakeG [] m = Some m"
| "apply_wakes WakeG (Wake w g p # es) m = (case wake WakeG w g p m of
     None \<Rightarrow> None | Some m' \<Rightarrow> apply_wakes WakeG es m')"
| "apply_wakes WakeG (e # es) m = apply_wakes WakeG es m"

definition exception ::
    "(32 word \<Rightarrow> 32 word \<Rightarrow> mem \<Rightarrow> mem option) \<Rightarrow> ('w, 'v) board \<Rightarrow> ('w, 'v) os \<Rightarrow> mem \<Rightarrow> unit res \<times> ('w, 'v) os \<times> mem option" where
  "exception WakeG E s m = (case handler E s of (r, s') \<Rightarrow>
     (r, s', apply_wakes WakeG (drop (length (events s)) (events s')) m))"

fun is_Wake :: "os_event \<Rightarrow> bool" where
  "is_Wake (Wake w g p) = True"
| "is_Wake e = False"

lemma apply_wakes_append:
  "apply_wakes WakeG (es @ fs) m = (case apply_wakes WakeG es m of None \<Rightarrow> None | Some m' \<Rightarrow> apply_wakes WakeG fs m')"
  by (induction WakeG es m rule: apply_wakes.induct) (auto split: option.split)

lemma apply_wakes_none: "list_all (\<lambda>e. \<not> is_Wake e) es \<Longrightarrow> apply_wakes WakeG es m = Some m"
  by (induction WakeG es m rule: apply_wakes.induct) auto

section \<open>Servicing an interrupt wakes nobody by itself\<close>

definition adds_no_wake :: "('w, 'v, 'a) osio \<Rightarrow> bool" where
  "adds_no_wake m \<longleftrightarrow> (\<forall>s. \<exists>es. events (snd (m s)) = events s @ es \<and> list_all (\<lambda>e. \<not> is_Wake e) es)"

lemma adds_no_wake_quiet: "leaves events m \<Longrightarrow> adds_no_wake m"
  by (auto simp: adds_no_wake_def leaves_def)

lemma adds_no_wake_emit: "\<not> is_Wake e \<Longrightarrow> adds_no_wake (emit e)"
  by (simp add: adds_no_wake_def)

lemma adds_no_wake_bindS:
  assumes "adds_no_wake m" and "\<And>x. adds_no_wake (f x)"
  shows "adds_no_wake (bindS m f)"
  unfolding adds_no_wake_def
proof
  fix s
  obtain r s1 where m: "m s = (r, s1)" by (cases "m s")
  then obtain es where es: "events s1 = events s @ es" "list_all (\<lambda>e. \<not> is_Wake e) es"
    using assms(1) unfolding adds_no_wake_def by (metis snd_conv)
  show "\<exists>es. events (snd (bindS m f s)) = events s @ es \<and> list_all (\<lambda>e. \<not> is_Wake e) es"
  proof (cases r)
    case (Ok x)
    obtain fs where "events (snd (f x s1)) = events s1 @ fs" "list_all (\<lambda>e. \<not> is_Wake e) fs"
      using assms(2) [of x] unfolding adds_no_wake_def by blast
    with Ok m es show ?thesis by (intro exI [of _ "es @ fs"]) (simp add: bindS_apply)
  qed (use m es in \<open>auto simp: bindS_apply\<close>)
qed

lemma adds_no_wake_receiveLAN: "adds_no_wake (receiveLAN ring)"
proof (induction ring)
  case Nil
  show ?case by (simp add: adds_no_wake_def)
next
  case (Cons p ring)
  have "adds_no_wake (asyncRx p)"
    by (rule adds_no_wake_quiet) (auto simp: asyncRx_def intro!: leaves_modifyS split: option.split)
  with Cons show ?case by (auto intro!: adds_no_wake_bindS adds_no_wake_emit)
qed

lemma adds_no_wake_isr: "adds_no_wake (isr E)"
proof -
  have "adds_no_wake (run_irq a)" for a
  proof (cases a)
    case ReceiveLAN
    have "adds_no_wake (getS lan_ring)" by (rule adds_no_wake_quiet) (simp add: leaves_def)
    then show ?thesis unfolding ReceiveLAN run_irq_def irq_action.case
      by (rule adds_no_wake_bindS) (rule adds_no_wake_receiveLAN)
  qed (auto simp: run_irq_def intro!: adds_no_wake_emit)
  moreover have "adds_no_wake (onWorld m)" for m by (rule adds_no_wake_quiet) (rule leaves_onWorld, simp)
  moreover have "adds_no_wake (getS f)" "adds_no_wake (retS ())" for f by (rule adds_no_wake_quiet, simp add: leaves_def)+
  ultimately show ?thesis unfolding isr_def by (auto intro!: adds_no_wake_bindS split: option.split)
qed

text \<open>What an exception does to memory: an interrupt of the applet is one call of the wake handler, one
  of the OS none.\<close>

lemma exception_fiq:
  assumes "ExceptionVector (ectx s) = arm_FIQ E" and "handler E s = (Ok (), s')"
  shows "exception WakeG E s m = (Ok (), s',
    if saved_Mode E (ectx s) = arm_USR_MODE E then wake WakeG (the (wHandler s)) (appletHandlerG s) (appletHandlerP s) m else Some m)"
proof -
  have run: "fiqHandler E s = (Ok (), s')" using assms by (simp add: handler_def bindS_apply)
  show ?thesis
  proof (cases "saved_Mode E (ectx s) = arm_USR_MODE E")
    case True
    then obtain s1 w where s1: "isr E s = (Ok (), s1)" "wHandler s = Some w"
        "s' = s1\<lparr>ectx := ectx s', events := events s1 @ [Wake w (appletHandlerG s) (appletHandlerP s)]\<rparr>"
      using fiqHandler_masks [OF run] by blast
    from arg_cong [OF s1(3), of events] have ev: "events s' = events s1 @ [Wake w (appletHandlerG s) (appletHandlerP s)]" by simp
    obtain es where es: "events s1 = events s @ es" "list_all (\<lambda>e. \<not> is_Wake e) es"
      using adds_no_wake_isr [of E] s1(1) unfolding adds_no_wake_def by (metis snd_conv)
    have "drop (length (events s)) (events s') = es @ [Wake w (appletHandlerG s) (appletHandlerP s)]"
      using ev es(1) by simp
    then show ?thesis using assms(2) True s1(2) apply_wakes_none [OF es(2)]
      by (simp add: exception_def apply_wakes_append split: option.split)
  next
    case False
    then have "s' = s\<lparr>ectx := ectx s'\<rparr>" using fiqHandler_masks [OF run] by blast
    from arg_cong [OF this, of events] have "events s' = events s" by simp
    then show ?thesis using assms(2) False by (simp add: exception_def)
  qed
qed

section \<open>Properties\<close>

text \<open>The goroutine at \<open>G\<close> of a Go 1.24 applet sleeps on the timer \<open>t\<close> of the set \<open>ts\<close>; \<open>e\<close> is the last
  entry of the set's heap for this timer.\<close>

definition go124_sleeps :: "mem \<Rightarrow> 32 word \<Rightarrow> 32 word \<Rightarrow> 32 word \<Rightarrow> 32 word \<Rightarrow> bool" where
  "go124_sleeps m G t ts e \<longleftrightarrow> ldr m (G + 216) = t \<and> t \<noteq> 0 \<and> ldr m (t + 44) = ts \<and> ts \<noteq> 0
     \<and> (\<exists>i. let h = ldr m (ts + 4); n = ldr m (ts + 8) in h \<noteq> 0 \<and> unat h + 12 * unat n \<le> 2 ^ 32
          \<and> i < unat n \<and> e = h + 12 * of_nat i \<and> ldr m e = t
          \<and> (\<forall>j. i < j \<and> j < unat n \<longrightarrow> ldr m (h + 12 * of_nat j) \<noteq> t))
     \<and> span e 12 \<inter> span t 56 = {} \<and> span t 56 \<inter> span ts 48 = {} \<and> span e 12 \<inter> span ts 48 = {}"

lemma go124_sleeps_wakes:
  assumes "go124_sleeps m G t ts e" and "G \<noteq> 0" and "P \<noteq> 0"
  shows "\<exists>m'. wake WakeG wakeHandlerGo124 G P m = Some m' \<and> go124_expired m e t ts m'
    \<and> (\<forall>a. a \<notin> go124_writes e t ts \<longrightarrow> m' a = m a)"
  using assms go124_wakes_timer [of G P m t ts "ldr m (ts + 4)" "ldr m (ts + 8)"]
  unfolding go124_sleeps_def Let_def by metis

lemma applet_memory_nonzero: "mm \<in> {mem_default, mem_bee} \<Longrightarrow> isAppletMemory mm a \<Longrightarrow> a \<noteq> 0"
  by (auto simp: isAppletMemory_def mem_default_def mem_bee_def)

text \<open>C13: an interrupt wakes the applet. An applet built with a runtime from Go 1.24 up to, but not
  including, 1.25 was loaded and has registered the goroutine that serves interrupts, which sleeps. When
  an interrupt arrives while the applet runs and is serviced, the exception handler returns with FIQs
  masked for the applet and its registers as they were, and in memory exactly the timer the goroutine
  sleeps on has become due; nothing else of the memory has changed.\<close>

theorem interrupt_wakes_applet:
  assumes "mem_layout E \<in> {mem_default, mem_bee}" and "semver_ops (semvers E)"
    and "NewVersion (semvers E) ''1.23.0'' = Ok c123" and "NewVersion (semvers E) ''1.24.0'' = Ok c124"
    and "NewVersion (semvers E) ''1.25.0'' = Ok c125" and "LessThan (semvers E) c123 c124" and "LessThan (semvers E) c124 c125"
    and "\<not> LessThan (semvers E) v c124" and "LessThan (semvers E) v c125"
    and loaded: "configureWakeHandler E v s0 = (Ok (), s1)" and registered: "RPC_Register E \<lparr>h_G = G, h_P = P\<rparr> s1 = (Ok (), s2)"
    and s: "s = s2\<lparr>ectx := ctx\<rparr>" "ExceptionVector ctx = arm_FIQ E" "saved_Mode E ctx = arm_USR_MODE E"
    and "is_Ok (fst (isr E s))" and sleeps: "go124_sleeps m G t ts e"
  shows "\<exists>s' m'. exception WakeG E s m = (Ok (), s', Some m')
    \<and> ectx s' = ctx\<lparr>SPSR := bits_Set E (SPSR ctx) CPSR_FIQ\<rparr>
    \<and> go124_expired m e t ts m' \<and> (\<forall>a. a \<notin> go124_writes e t ts \<longrightarrow> m' a = m a)"
proof -
  obtain h where "configureWakeHandler E v s0 = (Ok (), s0\<lparr>wHandler := Some h\<rparr>)" "h = wakeHandlerGo124"
    using configureWakeHandler_intervals [OF assms(2-7), of v s0] assms(8,9) by blast
  then have s1: "wHandler s1 = Some wakeHandlerGo124" using loaded by auto
  have mem: "isAppletMemory (mem_layout E) G" "isAppletMemory (mem_layout E) P"
    and s2: "s2 = s1\<lparr>appletHandlerG := G, appletHandlerP := P\<rparr>"
    using registered by (auto simp: RPC_Register_def split: if_splits)
  have wh: "wHandler s = Some wakeHandlerGo124" "appletHandlerG s = G" "appletHandlerP s = P" "ectx s = ctx"
    using s1 s2 s(1) by simp_all
  obtain s3 where s3: "isr E s = (Ok (), s3)" using assms(15) by (cases "isr E s") (auto simp: is_Ok_iff)
  then have "fiq_view s3 = fiq_view s" using leavesD [OF leaves_isr] by blast
  then have "\<exists>s'. handler E s = (Ok (), s')"
    using s(2,3) wh s3 by (simp add: handler_def fiqHandler_def bindS_apply fiq_view_def)
  then obtain s' where s': "handler E s = (Ok (), s')" by blast
  then have "fiqHandler E s = (Ok (), s')" using s(2) wh(4) by (simp add: handler_def bindS_apply)
  then have ctx: "ectx s' = ctx\<lparr>SPSR := bits_Set E (SPSR ctx) CPSR_FIQ\<rparr>" using fiqHandler_masks wh(4) by blast
  have "exception WakeG E s m = (Ok (), s', wake WakeG wakeHandlerGo124 G P m)"
    using exception_fiq [of s E s' WakeG m] s(2,3) s' wh by simp
  with ctx go124_sleeps_wakes [OF sleeps, of P WakeG] mem applet_memory_nonzero [OF assms(1)] show ?thesis by auto
qed

theorem interrupt_wakes_applet_witness:
  "\<forall>s0. \<exists>s' m'. exception (\<lambda>_ _. Some) go_board
      (s0\<lparr>irqHandler := Map.empty, wHandler := Some wakeHandlerGo124, appletHandlerG := 0x90000100, appletHandlerP := 0x90000010,
         ectx := demo_ctx\<lparr>ExceptionVector := 0x1c\<rparr>\<rparr>) wake_image = (Ok (), s', Some m')
    \<and> ldr m' 0x9000100c = 1 \<and> ldr m' 0x90003010 = 1 \<and> m' 0x90003000 = wake_image 0x90003000"
proof
  fix s0 :: "(unit, version) os"
  let ?s0 = "s0\<lparr>irqHandler := Map.empty\<rparr>" and ?v = "Version 1 24 6 [] []" and ?ctx = "demo_ctx\<lparr>ExceptionVector := 0x1c\<rparr>"
  let ?s1 = "?s0\<lparr>wHandler := Some wakeHandlerGo124\<rparr>"
  let ?s2 = "?s1\<lparr>appletHandlerG := 0x90000100, appletHandlerP := 0x90000010\<rparr>"
  have b: "semvers go_board = semver2" "mem_layout go_board = mem_default" "arm_FIQ go_board = 0x1c" "saved_Mode go_board = SPSR"
    "arm_USR_MODE go_board = 0x10" "GetInterrupt go_board = (\<lambda>w. (Ok 0, w))" by (simp_all add: go_board_def)
  have v: "NewVersion semver2 ''1.23.0'' = Ok (Version 1 23 0 [] [])" "NewVersion semver2 ''1.24.0'' = Ok (Version 1 24 0 [] [])"
    "NewVersion semver2 ''1.25.0'' = Ok (Version 1 25 0 [] [])" by code_simp+
  have lt: "LessThan semver2 (Version 1 23 0 [] []) (Version 1 24 0 [] [])" "LessThan semver2 (Version 1 24 0 [] []) (Version 1 25 0 [] [])"
    "\<not> LessThan semver2 ?v (Version 1 24 0 [] [])" "LessThan semver2 ?v (Version 1 25 0 [] [])" by code_simp+
  have conf: "configureWakeHandler go_board ?v ?s0 = (Ok (), ?s1)"
    using configureWakeHandler_intervals [where E = go_board, unfolded b(1), OF sem.semver_ops_axioms v lt(1,2), of ?v ?s0] lt(3,4) by metis
  have reg: "RPC_Register go_board \<lparr>h_G = 0x90000100, h_P = 0x90000010\<rparr> ?s1 = (Ok (), ?s2)"
    by (simp add: RPC_Register_def b isAppletMemory_def mem_default_def)
  have isr: "is_Ok (fst (isr go_board (?s2\<lparr>ectx := ?ctx\<rparr>)))" by (simp add: isr_def bindS_apply onWorld_apply b)
  have "\<forall>j. Suc 0 < j \<and> j < 2 \<longrightarrow> ldr wake_image (0x90003000 + 12 * of_nat j) \<noteq> 0x90001000" by auto
  then have sleeps: "go124_sleeps wake_image 0x90000100 0x90001000 0x90002000 0x9000300c"
    unfolding go124_sleeps_def Let_def using wake_image_fields
    by (intro conjI exI [of _ 1] span_disjoint) simp_all
  have "ExceptionVector ?ctx = arm_FIQ go_board" "saved_Mode go_board ?ctx = arm_USR_MODE go_board"
    "mem_layout go_board \<in> {mem_default, mem_bee}" "semver_ops (semvers go_board)"
    using sem.semver_ops_axioms by (simp_all add: b demo_ctx_def)
  then obtain s' m' where "exception (\<lambda>_ _. Some) go_board (?s2\<lparr>ectx := ?ctx\<rparr>) wake_image = (Ok (), s', Some m')"
    "go124_expired wake_image 0x9000300c 0x90001000 0x90002000 m'"
    "\<forall>a. a \<notin> go124_writes 0x9000300c 0x90001000 0x90002000 \<longrightarrow> m' a = wake_image a"
    using interrupt_wakes_applet [where E = go_board and WakeG = "\<lambda>_ _. Some", unfolded b(1), OF _ _ v lt conf reg refl _ _ isr sleeps]
    by (auto simp: b(1))
  then show "\<exists>s' m'. exception (\<lambda>_ _. Some) go_board
      (s0\<lparr>irqHandler := Map.empty, wHandler := Some wakeHandlerGo124, appletHandlerG := 0x90000100, appletHandlerP := 0x90000010,
         ectx := ?ctx\<rparr>) wake_image = (Ok (), s', Some m')
    \<and> ldr m' 0x9000100c = 1 \<and> ldr m' 0x90003010 = 1 \<and> m' 0x90003000 = wake_image 0x90003000"
    by (intro exI [of _ s'] exI [of _ m']) (simp add: go124_expired_def go124_writes_def in_span)
qed

end
