(* ===== verification/Applet_Requests.thy ===== *)
theory Applet_Requests
  imports Rpc
begin

text \<open>
  Everything the applet can ask of the OS, as one system: the methods of the RPC receiver
  (\<open>src/trusted_os/rpc.go\<close>) as requests, \<open>serve\<close> to dispatch them, and an inductive relation for
  the runs of an applet, which may send any requests in any order. The interface that the proofs
  rest on is the locale \<open>isolated_board\<close>: the replay protected block follows the standard, and no
  other device of the board changes it.
\<close>

section \<open>Requests\<close>

datatype request =
    Req_Version string
  | Req_Config bytes bool
  | Req_Address bytes
  | Req_Register Handler
  | Req_Status bool
  | Req_SetWitnessStatus rpc_WitnessStatus
  | Req_LED LEDStatus
  | Req_CardInfo
  | Req_WriteBlocks WriteBlocksArg
  | Req_Read ReadArg
  | Req_WriteRPMB bytes "32 word option"
  | Req_ReadRPMB bytes "32 word option"
  | Req_DeriveKey bytes bytes
  | Req_HAB bytes
  | Req_GetInstalledVersions
  | Req_InstallOS FirmwareUpdate
  | Req_InstallApplet FirmwareUpdate
  | Req_Reboot
  | Req_ConsoleLog bool
  | Req_CrashLog bool

definition discard :: "('w, 'v, 'a) osio \<Rightarrow> ('w, 'v, unit) osio" where
  "discard m = bindS m (\<lambda>_. retS ())"

text \<open>What the receiver has besides the board: the build's texts, its diversifier and the console
  logs.\<close>

record rpc_env =
  re_build :: build_info
  re_Diversifier :: bytes
  re_consoleLogs :: bytes

fun serve :: "('w, 'v) board \<Rightarrow> rpc_env \<Rightarrow> request \<Rightarrow> ('w, 'v, unit) osio" where
  "serve E V (Req_Version v) = RPC_Version E v"
| "serve E V (Req_Config c p) = discard (RPC_Config E c p)"
| "serve E V (Req_Address m) = RPC_Address E m"
| "serve E V (Req_Register h) = RPC_Register E h"
| "serve E V (Req_Status b) = discard (RPC_Status (re_build V) E b)"
| "serve E V (Req_SetWitnessStatus w) = RPC_SetWitnessStatus w"
| "serve E V (Req_LED l) = RPC_LED E l"
| "serve E V Req_CardInfo = discard (RPC_CardInfo E)"
| "serve E V (Req_WriteBlocks x) = RPC_WriteBlocks E x"
| "serve E V (Req_Read x) = discard (RPC_Read E x)"
| "serve E V (Req_WriteRPMB b n) = discard (RPC_WriteRPMB E b n)"
| "serve E V (Req_ReadRPMB b n) = discard (RPC_ReadRPMB E b n)"
| "serve E V (Req_DeriveKey d k) = discard (RPC_DeriveKey E (re_Diversifier V) d k)"
| "serve E V (Req_HAB h) = RPC_HAB E h"
| "serve E V Req_GetInstalledVersions = discard RPC_GetInstalledVersions"
| "serve E V (Req_InstallOS u) = RPC_InstallOS E u"
| "serve E V (Req_InstallApplet u) = RPC_InstallApplet E u"
| "serve E V Req_Reboot = RPC_Reboot"
| "serve E V (Req_ConsoleLog b) = discard (RPC_ConsoleLog (re_consoleLogs V) b)"
| "serve E V (Req_CrashLog b) = discard (RPC_CrashLog E b)"

text \<open>A run of the applet: any requests, one after the other.\<close>

inductive applet_run :: "('w, 'v) board \<Rightarrow> rpc_env \<Rightarrow> ('w, 'v) os \<Rightarrow> request list \<Rightarrow> ('w, 'v) os \<Rightarrow> bool"
  for E :: "('w, 'v) board" and V :: rpc_env and s :: "('w, 'v) os" where
  applet_start: "applet_run E V s [] s"
| applet_request: "applet_run E V s rs s1 \<Longrightarrow> applet_run E V s (rs @ [r]) (snd (serve E V r s1))"

inductive_cases applet_run_snocE: "applet_run E V s (rs @ [r]) s2"

section \<open>The rest of the board\<close>

locale isolated_board = rollback_device "rpmb_driver E" dkey dctr dmem "semvers E"
  for E :: "('w, 'v) board" and dkey dctr dmem +
  assumes card_leaves: "Storage E = Some C \<Longrightarrow> leaves (\<lambda>w. (dkey w, dctr w, dmem w)) (card_Read C off n)"
      "Storage E = Some C \<Longrightarrow> leaves (\<lambda>w. (dkey w, dctr w, dmem w)) (card_WriteBlocks C lba b)"
    and led_leaves: "leaves (\<lambda>w. (dkey w, dctr w, dmem w)) (board_LED E name on)"
    and fuse_leaves: "leaves (\<lambda>w. (dkey w, dctr w, dmem w)) (ReadOCOTP (fuse_box E) bank wrd pos len)"
      "leaves (\<lambda>w. (dkey w, dctr w, dmem w)) (BlowOCOTP (fuse_box E) bank wrd pos len val)"
    and caam_leaves: "CAAM_DeriveKey (key_hardware E) = Some f \<Longrightarrow> leaves (\<lambda>w. (dkey w, dctr w, dmem w)) (f d k)"
    and dcp_leaves: "DCP_DeriveKey (key_hardware E) = Some g \<Longrightarrow> leaves (\<lambda>w. (dkey w, dctr w, dmem w)) (g d1 d2 slot)"
begin

definition rview :: "'w \<Rightarrow> bytes option \<times> 32 word \<times> (16 word \<Rightarrow> bytes)" where
  "rview w = (dkey w, dctr w, dmem w)"

definition sview :: "('w, 'v) os \<Rightarrow> (bytes option \<times> 32 word \<times> (16 word \<Rightarrow> bytes)) \<times> RPMB option" where
  "sview s = (rview (world s), rpmb_partition s)"

lemma leaves_world: "leaves rview m \<Longrightarrow> leaves sview (onWorld m)"
  by (auto simp: leaves_def sview_def onWorld_apply split: prod.split) (metis snd_conv)+

lemma leaves_discard: "leaves f m \<Longrightarrow> leaves f (discard m)"
  by (simp add: discard_def keeps_rules)

lemma sview_updates [simp]:
  "sview (s\<lparr>rpc_Cfg := c\<rparr>) = sview s" "sview (s\<lparr>events := e\<rparr>) = sview s" "sview (s\<lparr>witnessStatus := ws\<rparr>) = sview s"
  "sview (s\<lparr>osFirmwareBuffer := b\<rparr>) = sview s" "sview (s\<lparr>appletFirmwareBuffer := b\<rparr>) = sview s"
  "sview (s\<lparr>rxQueue := q\<rparr>) = sview s" "sview (s\<lparr>txQueue := q\<rparr>) = sview s" "sview (s\<lparr>irqHandler := h\<rparr>) = sview s"
  "sview (s\<lparr>appletHandlerG := g\<rparr>) = sview s" "sview (s\<lparr>appletHandlerP := p\<rparr>) = sview s"
  by (simp_all add: sview_def)

lemmas leaves_devices = card_leaves [folded rview_def] led_leaves [folded rview_def] fuse_leaves [folded rview_def]

lemmas leaves_keys = caam_leaves [folded rview_def] dcp_leaves [folded rview_def]

lemma leaves_fuse: "leaves rview (fuse (fuse_box E) name bank wrd off len val)"
  unfolding fuse_def by (auto intro!: keeps_rules leaves_devices split: sum.split)

lemma leaves_hab: "leaves rview (Activate avail (fuse_box E) swap srk)"
  unfolding Activate_def hab_def by (auto intro!: keeps_rules leaves_fuse)

lemma leaves_flash:
  assumes "Storage E = Some C"
  shows "leaves rview (flash C buf lba)"
proof -
  have "rview (snd (flash_loop C lba blocks buf w)) = rview w" for blocks buf w
    using assms
  proof (induction C lba blocks buf w rule: flash_loop.induct)
    case (1 C lba blocks buf w)
    obtain q w1 where wr: "card_WriteBlocks C (lba + blocks) (fst (flash_chunk buf)) w = (q, w1)"
      by (cases "card_WriteBlocks C (lba + blocks) (fst (flash_chunk buf)) w")
    have same: "rview w1 = rview w" by (rule leavesD [OF leaves_devices(2) [OF 1(2)] wr])
    show ?case
    proof (cases "buf = []")
      case True
      then show ?thesis by (simp add: flash_loop.simps [of C lba blocks buf w])
    next
      case False
      with 1 wr same show ?thesis by (cases q) (auto simp: flash_loop.simps [of C lba blocks buf w])
    qed
  qed
  then have "leaves rview (flash_loop C lba 0 buf)" by (simp add: leaves_def)
  then show ?thesis by (simp add: flash_def keeps_rules)
qed

lemma leaves_flashFirmware: "leaves sview (flashFirmware K (Storage E) t elf pb)"
  unfolding flashFirmware_def
  by (auto intro!: keeps_rules leaves_world leaves_flash split: option.split)

lemma leaves_updates:
  "leaves sview (updateOS K v (Storage E) elf pb)" "leaves sview (updateApplet K v (Storage E) elf pb)"
  by (simp_all add: updateOS_def updateApplet_def keeps_rules leaves_flashFirmware)

lemma leaves_Ctx_Stop: "leaves sview Ctx_Stop"
  by (auto simp: Ctx_Stop_def intro!: keeps_rules)

lemma leaves_netStart: "leaves sview (netStart E)"
  by (auto simp: netStart_def netStartLAN_def netStartUSB_def intro!: keeps_rules split: res.split)

text \<open>All requests but those on the replay protected block leave it alone.\<close>

lemma serve_leaves:
  assumes "\<forall>v. r \<noteq> Req_Version v" and "\<forall>b n. r \<noteq> Req_WriteRPMB b n" and "\<forall>b n. r \<noteq> Req_ReadRPMB b n"
  shows "leaves sview (serve E V r)"
proof (cases r)
  case (Req_DeriveKey d k)
  then show ?thesis
    by (auto simp: RPC_DeriveKey_def intro!: keeps_rules leaves_discard leaves_world intro: leaves_keys split: option.split)
qed (use assms in \<open>auto simp: RPC_Config_def RPC_Address_def RPC_Register_def RPC_Status_def RPC_SetWitnessStatus_def
    RPC_LED_def RPC_CardInfo_def RPC_WriteBlocks_def RPC_Read_def RPC_HAB_def RPC_GetInstalledVersions_def
    RPC_InstallOS_def RPC_InstallApplet_def RPC_Reboot_def RPC_ConsoleLog_def RPC_CrashLog_def retrieveLastCrashLog_def Let_def
    intro!: keeps_rules leaves_discard leaves_world leaves_devices leaves_hab leaves_updates leaves_Ctx_Stop leaves_netStart
    split: option.split\<close>)

section \<open>Requests on the replay protected block\<close>

text \<open>One step of the version epochs: the block stays usable, at most one write is spent, the OS version
  is untouched and the applet version does not go back; only a version text that is too long (\<open>long\<close>) can
  make it unreadable, and then it stays so.\<close>

definition epoch_step :: "bool \<Rightarrow> 'w rb_state \<Rightarrow> 'w rb_state \<Rightarrow> bool" where
  "epoch_step long s t \<longleftrightarrow> rb_ready dkey t \<and> rb_room dctr s \<le> Suc (rb_room dctr t)
     \<and> rb_stored (semvers E) dmem t osVersionSector = rb_stored (semvers E) dmem s osVersionSector
     \<and> (\<forall>e. rb_stored (semvers E) dmem s taVersionSector = Ok e \<longrightarrow>
         (\<exists>e'. rb_stored (semvers E) dmem t taVersionSector = Ok e' \<and> \<not> LessThan (semvers E) e' e)
         \<or> long \<and> \<not> is_Ok (rb_stored (semvers E) dmem t taVersionSector))
     \<and> (\<not> is_Ok (rb_stored (semvers E) dmem s taVersionSector) \<longrightarrow> \<not> is_Ok (rb_stored (semvers E) dmem t taVersionSector))"

text \<open>Requests that report a version whose text is too long.\<close>

fun long_version :: "request \<Rightarrow> bool" where
  "long_version (Req_Version str) \<longleftrightarrow> (case NewVersion (semvers E) str of Ok v \<Rightarrow> 28 < length (Version_String (semvers E) v) | _ \<Rightarrow> False)"
| "long_version _ \<longleftrightarrow> False"

lemma epoch_step_same:
  assumes "rb_ready dkey s" and "dkey (rb_dev t) = dkey (rb_dev s)" and "dctr (rb_dev t) = dctr (rb_dev s)"
    and "dmem (rb_dev t) = dmem (rb_dev s)" and "partition t = partition s"
  shows "epoch_step l s t"
  using assms less_irrefl by (auto simp: epoch_step_def rb_ready_def rb_room_def rb_stored_def)

lemma epoch_step_sview:
  assumes "rb_ready dkey (rb_of s)" and "sview s' = sview s"
  shows "epoch_step l (rb_of s) (rb_of s')"
  using assms by (intro epoch_step_same) (simp_all add: sview_def rview_def rb_of_def)

lemma check_epoch_step:
  assumes "rb_ready dkey s" and "0 < rb_room dctr s"
    and "checkVersion (rpmb_driver E) (semvers E) taVersionSector str s = (r, t)"
  shows "epoch_step (long_version (Req_Version str)) s t"
  using check_any [OF assms] by (auto simp: epoch_step_def osVersionSector_def taVersionSector_def rb_storable_def)

lemma transfer_epoch_step:
  assumes ready: "rb_ready dkey s" and room: "0 < rb_room dctr s"
    and run: "rb_transfer (rpmb_driver E) taUserSector buf n wr s = (r, t)"
  shows "epoch_step l s t"
proof -
  obtain p where p: "partition s = Some p" "init p" "dkey (rb_dev s) = Some (key p)"
    using ready by (auto simp: rb_ready_def)
  have ctr: "dctr (rb_dev s) \<noteq> -1" using room by (auto simp: rb_room_def)
  obtain wc where wc: "Counter (rpmb_driver E) p True (rb_dev s) = (Ok (dctr (rb_dev s)), wc)" "same_dev (rb_dev s) wc"
    using Counter_ok [OF p(2,3)] by metis
  show ?thesis
  proof (cases "length buf \<le> 256")
    case False
    then have "Write (rpmb_driver E) p taUserSector buf (rb_dev s)
        = (Err (ErrorsNew ''transfer size must not exceed 256 bytes''), rb_dev s)"
      "Read (rpmb_driver E) p taUserSector buf (rb_dev s)
        = (Err (ErrorsNew ''transfer size must not exceed 256 bytes''), rb_dev s)"
      by (simp_all add: Write_def Read_def transfer_def FrameLength_def)
    with run p(1) wc ready show ?thesis
      by (cases n; cases wr)
        (auto simp: rb_transfer_def bindS_apply tryS_apply onDev_apply same_dev_def intro!: epoch_step_same ready)
  next
    case True
    obtain w2 b where rd: "Read (rpmb_driver E) p taUserSector buf (rb_dev s) = (Ok b, w2)" "same_dev (rb_dev s) w2"
      using Read_ok [OF p(2,3) True] by metis
    obtain w1 where w1: "Write (rpmb_driver E) p taUserSector buf (rb_dev s) = (Ok (), w1)" "dkey w1 = dkey (rb_dev s)"
        "dctr w1 = dctr (rb_dev s) + 1" "dmem w1 = (dmem (rb_dev s))(taUserSector := go_copy (zeros 256) buf)"
      using Write_ok [OF p(2,3) ctr True] by blast
    show ?thesis
    proof (cases wr)
      case False
      with run p(1) rd show ?thesis
        by (auto simp: rb_transfer_def bindS_apply tryS_apply onDev_apply same_dev_def intro!: epoch_step_same ready)
    next
      case True
      with run p(1) w1(1) have t: "t = s\<lparr>rb_dev := w1\<rparr>"
        by (auto simp: rb_transfer_def bindS_apply tryS_apply onDev_apply)
      have "- 1 - dctr w1 = - 1 - dctr (rb_dev s) - 1" using w1(3) by simp
      moreover have "unat (- 1 - dctr (rb_dev s) - 1) = unat (- 1 - dctr (rb_dev s)) - 1"
        using ctr by (intro unat_minus_one) (metis eq_iff_diff_eq_0)
      ultimately have "unat (- 1 - dctr w1) = unat (- 1 - dctr (rb_dev s)) - 1" by metis
      then have "rb_room dctr s \<le> Suc (rb_room dctr t)" using t by (simp add: rb_room_def)
      moreover have "rb_ready dkey t" using p w1(2) t by (auto simp: rb_ready_def)
      ultimately show ?thesis
        using t w1(4) less_irrefl
        by (auto simp: epoch_step_def rb_stored_def osVersionSector_def taVersionSector_def taUserSector_def)
    qed
  qed
qed

lemma onRPMB_rb_of:
  assumes "onRPMB m s = (r, s')"
  obtains t where "m (rb_of s) = (r, t)" and "world s' = rb_dev t" and "rpmb_partition s' = partition t"
  using assms by (auto simp: onRPMB_apply rb_of_def split: prod.splits)

lemma epoch_step_of:
  assumes "epoch_step l s t" and "world s' = rb_dev t" and "rpmb_partition s' = partition t"
  shows "epoch_step l s (rb_of s')"
  using assms by (auto simp: epoch_step_def rb_of_def rb_ready_def rb_room_def rb_stored_def)

text \<open>Every request is such a step.\<close>

lemma serve_epoch_step:
  assumes ready: "rb_ready dkey (rb_of s)" and room: "0 < rb_room dctr (rb_of s)"
  shows "epoch_step (long_version r) (rb_of s) (rb_of (snd (serve E V r s)))"
proof -
  have xfer: "epoch_step l (rb_of s) (rb_of (snd (discard (onRPMB (rb_transfer (rpmb_driver E) taUserSector b n wr)) s)))"
    for l b n wr
  proof -
    obtain q s1 where run: "onRPMB (rb_transfer (rpmb_driver E) taUserSector b n wr) s = (q, s1)"
      by (cases "onRPMB (rb_transfer (rpmb_driver E) taUserSector b n wr) s")
    then obtain t where t: "rb_transfer (rpmb_driver E) taUserSector b n wr (rb_of s) = (q, t)" "world s1 = rb_dev t"
      "rpmb_partition s1 = partition t" by (rule onRPMB_rb_of)
    from run have "snd (discard (onRPMB (rb_transfer (rpmb_driver E) taUserSector b n wr)) s) = s1"
      by (cases q) (simp_all add: discard_def bindS_apply)
    with epoch_step_of [OF transfer_epoch_step [OF ready room t(1)] t(2,3)] show ?thesis by simp
  qed
  consider (version) str where "r = Req_Version str" | (transfer) b n where "r = Req_WriteRPMB b n \<or> r = Req_ReadRPMB b n"
    | (other) "\<forall>v. r \<noteq> Req_Version v" "\<forall>b n. r \<noteq> Req_WriteRPMB b n" "\<forall>b n. r \<noteq> Req_ReadRPMB b n" by blast
  then show ?thesis
  proof cases
    case version
    obtain q s1 where run: "onRPMB (checkVersion (rpmb_driver E) (semvers E) taVersionSector str) s = (q, s1)"
      by (cases "onRPMB (checkVersion (rpmb_driver E) (semvers E) taVersionSector str) s")
    then obtain t where t: "checkVersion (rpmb_driver E) (semvers E) taVersionSector str (rb_of s) = (q, t)"
      "world s1 = rb_dev t" "rpmb_partition s1 = partition t" by (rule onRPMB_rb_of)
    have step: "epoch_step (long_version r) (rb_of s) (rb_of s1)"
      using epoch_step_of [OF check_epoch_step [OF ready room t(1)] t(2,3)] version by simp
    have "rb_of (snd (Ctx_Stop s1)) = rb_of s1" by (simp add: Ctx_Stop_apply rb_of_def)
    then have "rb_of (snd (serve E V r s)) \<in> {rb_of s, rb_of s1}"
      using run version by (cases q) (auto simp: RPC_Version_def bindS_apply tryS_apply)
    with step epoch_step_sview [OF ready refl] show ?thesis by auto
  next
    case transfer
    with xfer show ?thesis
      by (auto simp: RPC_WriteRPMB_def RPC_ReadRPMB_def)
  next
    case other
    from leavesD [OF serve_leaves [OF other]] show ?thesis by (intro epoch_step_sview ready) (metis prod.collapse)
  qed
qed

text \<open>Steps compose.\<close>

lemma epoch_steps:
  assumes "applet_run E V s rs s'" and "rb_ready dkey (rb_of s)" and "length rs \<le> rb_room dctr (rb_of s)"
  shows "rb_ready dkey (rb_of s') \<and> rb_room dctr (rb_of s) \<le> length rs + rb_room dctr (rb_of s')
    \<and> rb_stored (semvers E) dmem (rb_of s') osVersionSector = rb_stored (semvers E) dmem (rb_of s) osVersionSector
    \<and> (\<forall>e. rb_stored (semvers E) dmem (rb_of s) taVersionSector = Ok e \<longrightarrow>
        (\<exists>e'. rb_stored (semvers E) dmem (rb_of s') taVersionSector = Ok e' \<and> \<not> LessThan (semvers E) e' e)
        \<or> (\<exists>r \<in> set rs. long_version r) \<and> \<not> is_Ok (rb_stored (semvers E) dmem (rb_of s') taVersionSector))"
  using assms
proof (induction rule: applet_run.induct)
  case applet_start
  then show ?case using less_irrefl by auto
next
  case (applet_request rs s1 r)
  let ?st = "\<lambda>s. rb_stored (semvers E) dmem (rb_of s) taVersionSector" and ?s2 = "snd (serve E V r s1)"
  have IH: "rb_ready dkey (rb_of s1)" "rb_room dctr (rb_of s) \<le> length rs + rb_room dctr (rb_of s1)"
    "rb_stored (semvers E) dmem (rb_of s1) osVersionSector = rb_stored (semvers E) dmem (rb_of s) osVersionSector"
    and ta: "\<And>e. ?st s = Ok e \<Longrightarrow> (\<exists>e'. ?st s1 = Ok e' \<and> \<not> LessThan (semvers E) e' e)
        \<or> (\<exists>r \<in> set rs. long_version r) \<and> \<not> is_Ok (?st s1)"
    using applet_request.IH [OF applet_request.prems(1)] applet_request.prems(2) by auto
  have "0 < rb_room dctr (rb_of s1)" using IH applet_request.prems(2) by simp
  note step = serve_epoch_step [OF IH(1) this, of r V, unfolded epoch_step_def]
  have "(\<exists>e'. ?st ?s2 = Ok e' \<and> \<not> LessThan (semvers E) e' e)
      \<or> (\<exists>x \<in> set (rs @ [r]). long_version x) \<and> \<not> is_Ok (?st ?s2)" if "?st s = Ok e" for e
    using ta [OF that]
  proof
    assume "\<exists>e'. ?st s1 = Ok e' \<and> \<not> LessThan (semvers E) e' e"
    then obtain e' where "?st s1 = Ok e'" "\<not> LessThan (semvers E) e' e" by blast
    with step less_weak [of _ e] show ?thesis by auto
  next
    assume "(\<exists>r \<in> set rs. long_version r) \<and> \<not> is_Ok (?st s1)"
    with step show ?thesis by auto
  qed
  with IH step show ?case by simp
qed

lemma long_versionD:
  "long_version r \<Longrightarrow> \<exists>str v. r = Req_Version str \<and> NewVersion (semvers E) str = Ok v \<and> 28 < length (Version_String (semvers E) v)"
  by (cases r) (auto split: res.splits)

text \<open>After any run, a version check passes only for a version that is not older than the one recorded before,
  and if none is readable it does not pass.\<close>

lemma run_epochs:
  assumes "applet_run E V s rs s'" and "rb_ready dkey (rb_of s)" and "length rs < rb_room dctr (rb_of s)"
    and "rb_stored (semvers E) dmem (rb_of s) taVersionSector = Ok e"
  shows "is_Ok (fst (checkVersion (rpmb_driver E) (semvers E) taVersionSector str (rb_of s'))) \<Longrightarrow>
      \<exists>v. NewVersion (semvers E) str = Ok v \<and> \<not> LessThan (semvers E) v e"
    and "\<not> is_Ok (rb_stored (semvers E) dmem (rb_of s') taVersionSector) \<Longrightarrow>
      \<not> is_Ok (fst (checkVersion (rpmb_driver E) (semvers E) taVersionSector str (rb_of s')))"
proof -
  obtain r t where run: "checkVersion (rpmb_driver E) (semvers E) taVersionSector str (rb_of s') = (r, t)"
    by (cases "checkVersion (rpmb_driver E) (semvers E) taVersionSector str (rb_of s')")
  note S = epoch_steps [OF assms(1,2) less_imp_le [OF assms(3)]]
  have "0 < rb_room dctr (rb_of s')" using S assms(3) by linarith
  note C = check_any [OF conjunct1 [OF S] this run]
  from C run show "\<not> is_Ok (rb_stored (semvers E) dmem (rb_of s') taVersionSector) \<Longrightarrow>
      \<not> is_Ok (fst (checkVersion (rpmb_driver E) (semvers E) taVersionSector str (rb_of s')))" by simp
  assume "is_Ok (fst (checkVersion (rpmb_driver E) (semvers E) taVersionSector str (rb_of s')))"
  with C run obtain v e' where v: "NewVersion (semvers E) str = Ok v"
    and e': "rb_stored (semvers E) dmem (rb_of s') taVersionSector = Ok e'" "\<not> LessThan (semvers E) v e'" by auto
  with S assms(4) have "\<not> LessThan (semvers E) e' e" by auto
  with v e' less_weak show "\<exists>v. NewVersion (semvers E) str = Ok v \<and> \<not> LessThan (semvers E) v e" by blast
qed

end

section \<open>The machine for concrete runs\<close>

lemma leaves_parts:
  "leaves (\<lambda>m. (e_key (m_emmc m), e_counter (m_emmc m), emmc_sector (m_emmc m))) (on_card m1)"
  "leaves (\<lambda>m. (e_key (m_emmc m), e_counter (m_emmc m), emmc_sector (m_emmc m))) (on_fuses m2)"
  by (auto simp: leaves_def on_card_def on_fuses_def zoomS_apply split: prod.splits)

interpretation demo: isolated_board demo_board "\<lambda>m. e_key (m_emmc m)" "\<lambda>m. e_counter (m_emmc m)"
  "\<lambda>m. emmc_sector (m_emmc m)"
proof (intro isolated_board.intro isolated_board_axioms.intro, goal_cases)
  case 1
  show ?case using mrb.rollback_device_axioms by simp
next
  case (4 name on)
  show ?case by (simp add: leaves_def demo_board_def)
next
  case (7 f d k)
  then show ?case by (auto simp: demo_board_def demo_keys_def leaves_def)
next
  case (8 g d1 d2 slot)
  then show ?case by (auto simp: demo_board_def demo_keys_def leaves_def)
qed (use leaves_parts in \<open>auto simp: machine_card_def machine_otp_def\<close>)

section \<open>Properties\<close>

text \<open>C9: rollback protection survives whatever the applet does. Take any run of the applet, any requests in
  any order, on a board where nothing but the eMMC driver reaches the replay protected block, with fewer
  requests than the write counter has steps left; let \<open>e\<close> be the applet version recorded before. Then the
  block is still usable, the OS version recorded is the same, and no check of an applet version older
  than \<open>e\<close> passes. The applet version recorded is readable and not older than \<open>e\<close>, unless the applet
  reported a version whose text has more than 28 characters; it can then be unreadable, and no version
  passes at all.\<close>

theorem applet_keeps_epochs:
  assumes "isolated_board E dkey dctr dmem" and "applet_run E V s rs s'"
    and "rb_ready dkey (rb_of s)" and "length rs < rb_room dctr (rb_of s)"
    and "rb_stored (semvers E) dmem (rb_of s) taVersionSector = Ok e"
  shows "rb_ready dkey (rb_of s')
    \<and> rb_stored (semvers E) dmem (rb_of s') osVersionSector = rb_stored (semvers E) dmem (rb_of s) osVersionSector
    \<and> (\<forall>str. is_Ok (fst (checkVersion (rpmb_driver E) (semvers E) taVersionSector str (rb_of s'))) \<longrightarrow>
        (\<exists>v. NewVersion (semvers E) str = Ok v \<and> \<not> LessThan (semvers E) v e))
    \<and> ((\<exists>e'. rb_stored (semvers E) dmem (rb_of s') taVersionSector = Ok e' \<and> \<not> LessThan (semvers E) e' e)
      \<or> (\<exists>str v. Req_Version str \<in> set rs \<and> NewVersion (semvers E) str = Ok v \<and> 28 < length (Version_String (semvers E) v))
        \<and> (\<forall>str. \<not> is_Ok (fst (checkVersion (rpmb_driver E) (semvers E) taVersionSector str (rb_of s')))))"
proof -
  note S = isolated_board.epoch_steps [OF assms(1-3) less_imp_le [OF assms(4)]]
  note R = isolated_board.run_epochs [OF assms]
  show ?thesis using S R(1) R(2) assms(5) isolated_board.long_versionD [OF assms(1)] by metis
qed

theorem applet_keeps_epochs_witness:
  "\<exists>s' e'. applet_run demo_board \<lparr>re_build = \<lparr>bi_SRKHash = [], bi_Revision = [], bi_Build = []\<rparr>, re_Diversifier = [], re_consoleLogs = []\<rparr>
      demo_os [Req_WriteRPMB [1, 2, 3] None, Req_Version ''1.2.3''] s'
    \<and> rb_stored tiny_semver (\<lambda>m. emmc_sector (m_emmc m)) (rb_of s') taVersionSector = Ok e'
    \<and> \<not> LessThan tiny_semver e' (0, 0, 0)"
proof -
  let ?V = "\<lparr>re_build = \<lparr>bi_SRKHash = [], bi_Revision = [], bi_Build = []\<rparr>, re_Diversifier = [], re_consoleLogs = []\<rparr>"
  obtain s' where run: "applet_run demo_board ?V demo_os [Req_WriteRPMB [1, 2, 3] None, Req_Version ''1.2.3''] s'"
    using applet_run.intros(2) [OF applet_run.intros(2) [OF applet_run.intros(1)],
        of demo_board ?V demo_os "Req_WriteRPMB [1, 2, 3] None" "Req_Version ''1.2.3''"] by auto
  have "2 < rb_room (\<lambda>m. e_counter (m_emmc m)) (rb_of demo_os)" by (simp add: rb_room_def rb_of_def)
  note K = applet_keeps_epochs [OF demo.isolated_board_axioms run demo_os_rb(1), of "(0, 0, 0)"]
  have "\<not> 28 < length (Version_String tiny_semver v)" for v using tiny_storable [of v] by (simp add: rb_storable_def)
  with K demo_os_rb(3) \<open>2 < _\<close> have "\<exists>e'. rb_stored tiny_semver (\<lambda>m. emmc_sector (m_emmc m)) (rb_of s') taVersionSector = Ok e'
      \<and> \<not> LessThan tiny_semver e' (0, 0, 0)" by simp
  with run show ?thesis by blast
qed

end
