(* ===== verification/Control.thy ===== *)
theory Control
  imports Rpc Log_Transfer
begin

text \<open>
  The USB control interface of the Trusted OS: the message handlers and \<open>Start\<close> of
  \<open>src/trusted_os/ctl.go\<close>, and the set-up of the USB device and of the HID message table
  (\<open>src/trusted_os/usb_hid.go\<close>). The handlers act on the state of \<open>Os\<close> next to the log
  buffer (\<open>log_ctl\<close> of \<open>Log_Transfer\<close>). The USB and U2F HID packages are outside the
  repository: the record \<open>usb_stack\<close> has the calls the code makes of them. A handler returns
  the bytes of its reply.
\<close>

section \<open>Message handlers\<close>

type_synonym ('w, 'v) ctl_state = "('w, 'v) os log_ctl"
type_synonym ('w, 'v, 'a) ctlio = "(('w, 'v) ctl_state, 'a) io"

definition onOs :: "('s, 'a) io \<Rightarrow> ('s log_ctl, 'a) io" where
  "onOs m = zoomS lc_os (\<lambda>s c. c\<lparr>lc_os := s\<rparr>) m"

definition ctl_HandleMessage :: "bytes \<Rightarrow> ('w, 'v, bytes) ctlio" where
  "ctl_HandleMessage req = retS []"

definition ctl_Status :: "api_codec \<Rightarrow> build_info \<Rightarrow> ('w, 'v) board \<Rightarrow> bytes \<Rightarrow> ('w, 'v, bytes) ctlio" where
  "ctl_Status K B E req = getS (\<lambda>c. enc_Status K (getStatus B E (lc_os c)))"

text \<open>A new configuration restarts a running applet, from the embedded image \<open>taELF\<close>.\<close>

definition ctl_Config ::
  "api_codec \<Rightarrow> ('w, 'v) board \<Rightarrow> ('w, 'v, unit) osio \<Rightarrow> bytes \<Rightarrow> bytes \<Rightarrow> ('w, 'v, bytes) ctlio" where
  "ctl_Config K E inspect taELF req =
     (if req = [] then retS (ErrorResponse K (ErrorsNew ''empty configuration''))
      else onOs (
        bindS (modifyS (\<lambda>s. s\<lparr>rpc_Cfg := req\<rparr>)) (\<lambda>_.
        bindS (getS rpc_Ctx) (\<lambda>running.
        if running then
          bindS (emit CtxStop) (\<lambda>_.
          bindS (emit CtxWait) (\<lambda>_.
          bindS (loadApplet E inspect taELF) (\<lambda>(_, err). case err of
              Some e \<Rightarrow> retS (ErrorResponse K e)
            | None \<Rightarrow> retS (EmptyResponse K))))
        else retS (EmptyResponse K)))))"

text \<open>Secure boot: only the hash built into the OS image can be fused.\<close>

definition ctl_HAB :: "api_codec \<Rightarrow> build_info \<Rightarrow> ('w, 'v) board \<Rightarrow> bytes \<Rightarrow> ('w, 'v, bytes) ctlio" where
  "ctl_HAB K B E req =
     tryS (liftRes (hex_decode (bi_SRKHash B))) (\<lambda>d. case d of
       Inl e \<Rightarrow> retS (ErrorResponse K (Errorf ''built-in SRK hash is invalid'' e))
     | Inr srkh \<Rightarrow>
         if length srkh \<noteq> sha256_Size
         then retS (ErrorResponse K (ErrorsNew ''built-in SRK hash is wrong size''))
         else
           tryS (onOs (onWorld (Activate (SNVS_Available E) (fuse_box E) (SwitchEndianness E) srkh))) (\<lambda>r. case r of
             Inl e \<Rightarrow> retS (ErrorResponse K e)
           | Inr _ \<Rightarrow> retS (EmptyResponse K)))"

text \<open>\<open>handleLogsRequest\<close> calls its log source exactly for a request that parses and does not
  continue an earlier one; here the source runs first in that case.\<close>

definition fresh_request :: "api_codec \<Rightarrow> bytes \<Rightarrow> bool" where
  "fresh_request K r = (case dec_LogRequest K r of Ok req \<Rightarrow> \<not> lr_Continue req | _ \<Rightarrow> False)"

definition serve_logs ::
  "api_codec \<Rightarrow> (bytes \<Rightarrow> bytes) \<Rightarrow> ('s, bytes) io \<Rightarrow> bytes \<Rightarrow> ('s log_ctl, bytes) io" where
  "serve_logs K gzip source r =
     bindS (if fresh_request K r then onOs source else retS []) (\<lambda>logs c.
       case handleLogsRequest K gzip (\<lambda>s. (logs, s)) r c of (b, c') \<Rightarrow> (Ok b, c'))"

definition ctl_ConsoleLogs :: "api_codec \<Rightarrow> (bytes \<Rightarrow> bytes) \<Rightarrow> bytes \<Rightarrow> bytes \<Rightarrow> ('w, 'v, bytes) ctlio" where
  "ctl_ConsoleLogs K gzip consoleLogs r = serve_logs K gzip (retS consoleLogs) r"

definition crash_log_source :: "('w, 'v) board \<Rightarrow> ('w, 'v, bytes) osio" where
  "crash_log_source E = (case Storage E of
      None \<Rightarrow> haltS nil_dereference
    | Some C \<Rightarrow> tryS (onWorld (retrieveLastCrashLog C)) (\<lambda>r. case r of
        Inl e \<Rightarrow> retS (bytes_of_string (''Failed to retrieve crash logs: '' @ error_text e))
      | Inr l \<Rightarrow> retS l))"

definition ctl_CrashLogs :: "api_codec \<Rightarrow> (bytes \<Rightarrow> bytes) \<Rightarrow> ('w, 'v) board \<Rightarrow> bytes \<Rightarrow> ('w, 'v, bytes) ctlio" where
  "ctl_CrashLogs K gzip E r = serve_logs K gzip (crash_log_source E) r"

section \<open>The USB device\<close>

text \<open>Descriptor fields the code sets itself; everything else of the device (defaults, string and
  configuration tables, endpoints) is the library's value of type \<open>'d\<close>.\<close>

record 'd usb_device =
  LanguageCodes :: "16 word list"
  DeviceClass :: byte
  DeviceSubClass :: byte
  DeviceProtocol :: byte
  VendorId :: "16 word"
  ProductId :: "16 word"
  DeviceRelease :: "16 word"
  ManufacturerIdx :: byte
  ProductIdx :: byte
  SerialNumberIdx :: byte
  QualifierConfigurations :: byte
  hid_report :: bytes
  dev_rest :: 'd

text \<open>The library's calls: adding a string gives its index (an error is ignored by the code and
  leaves the index the library returned with it).\<close>

record 'd usb_stack =
  AddString :: "string \<Rightarrow> 'd \<Rightarrow> byte \<times> 'd"
  AddConfiguration :: "('d, unit) io"
  num_configurations :: "'d \<Rightarrow> nat"
  NewHandler :: "('d, unit) io"
  ConfigureUSB :: "('d, unit) io"
  rename_interface :: "bytes \<Rightarrow> 'd \<Rightarrow> 'd"
  set_endpoints :: "byte \<Rightarrow> byte \<Rightarrow> 'd \<Rightarrow> 'd"
  AddMapping_ok :: "nat \<Rightarrow> bool"
  VendorCommandFirst :: nat

definition onRest :: "('d, 'a) io \<Rightarrow> ('d usb_device, 'a) io" where
  "onRest m = zoomS dev_rest (\<lambda>d u. u\<lparr>dev_rest := d\<rparr>) m"

definition add_string :: "'d usb_stack \<Rightarrow> string \<Rightarrow> ('d usb_device, byte) io" where
  "add_string L t = onRest (\<lambda>d. case AddString L t d of (i, d') \<Rightarrow> (Ok i, d'))"

definition configureDevice :: "'d usb_stack \<Rightarrow> string \<Rightarrow> ('d usb_device, unit) io" where
  "configureDevice L serial =
     bindS (modifyS (\<lambda>u. u\<lparr>LanguageCodes := [0x0409], DeviceClass := 0xef, DeviceSubClass := 0x02,
       DeviceProtocol := 0x01, VendorId := of_nat VendorID, ProductId := of_nat ProductID, DeviceRelease := 1\<rparr>)) (\<lambda>_.
     bindS (add_string L ''WithSecure Foundry'') (\<lambda>i.
     bindS (modifyS (\<lambda>u. u\<lparr>ManufacturerIdx := i\<rparr>)) (\<lambda>_.
     bindS (add_string L ''Armory Witness'') (\<lambda>i.
     bindS (modifyS (\<lambda>u. u\<lparr>ProductIdx := i\<rparr>)) (\<lambda>_.
     bindS (add_string L serial) (\<lambda>i.
     bindS (modifyS (\<lambda>u. u\<lparr>SerialNumberIdx := i\<rparr>)) (\<lambda>_.
     bindS (onRest (AddConfiguration L)) (\<lambda>_.
     modifyS (\<lambda>u. u\<lparr>QualifierConfigurations := of_nat (num_configurations L (dev_rest u))\<rparr>)))))))))"

text \<open>The messages the host can send, and the table of the HID handler.\<close>

datatype ctl_op = Op_Status | Op_Config | Op_HAB | Op_ConsoleLogs | Op_CrashLogs

definition hid_commands :: "nat \<Rightarrow> (nat \<times> ctl_op) list" where
  "hid_commands first =
     [(U2FHID_ARMORY_INF first, Op_Status), (U2FHID_ARMORY_CFG first, Op_Config),
      (U2FHID_ARMORY_HAB first, Op_HAB), (U2FHID_ARMORY_CONSOLE_LOGS first, Op_ConsoleLogs),
      (U2FHID_ARMORY_CRASH_LOGS first, Op_CrashLogs)]"

fun add_mappings :: "(nat \<Rightarrow> bool) \<Rightarrow> (nat \<times> ctl_op) list \<Rightarrow> (nat \<rightharpoonup> ctl_op) \<Rightarrow> (nat \<rightharpoonup> ctl_op) res" where
  "add_mappings ok [] t = Ok t"
| "add_mappings ok ((c, x) # cs) t =
     (if ok c then add_mappings ok cs (t(c \<mapsto> x)) else Err (External ''u2fhid: mapping refused''))"

text \<open>UTF-16 little endian of a text in the basic multilingual plane (here ASCII).\<close>

definition utf16_le :: "string \<Rightarrow> bytes" where
  "utf16_le t = concat (map (\<lambda>c. [byte_of_char c, 0]) t)"

definition put_le16 :: "16 word \<Rightarrow> bytes" where
  "put_le16 w = [ucast w, ucast (drop_bit 8 w)]"

text \<open>\<open>binary.LittleEndian.PutUint16(report[1:], v)\<close> panics on a report that is too short.\<close>

definition put_usage_page :: "16 word \<Rightarrow> bytes \<Rightarrow> bytes" where
  "put_usage_page v r = take 1 r @ put_le16 v @ drop 3 r"

definition configureHID :: "'d usb_stack \<Rightarrow> ('d usb_device, nat \<rightharpoonup> ctl_op) io" where
  "configureHID L =
     bindS (getS hid_report) (\<lambda>report.
     if length report < 3 then haltS ''index out of range''
     else
     bindS (modifyS (\<lambda>u. u\<lparr>hid_report := put_usage_page (of_nat HIDUsagePage) report\<rparr>)) (\<lambda>_.
     bindS (onRest (NewHandler L)) (\<lambda>_.
     bindS (onRest (ConfigureUSB L)) (\<lambda>_.
     bindS (onRest (modifyS (rename_interface L (utf16_le ''U2FHID interface descriptor'')))) (\<lambda>_.
     bindS (onRest (modifyS (set_endpoints L 0x03 0x83))) (\<lambda>_.
     liftRes (add_mappings (AddMapping_ok L) (hid_commands (VendorCommandFirst L)) Map.empty)))))))"

section \<open>Start\<close>

text \<open>\<open>Control\<close> is nil or a port with its interrupt; \<open>configureUART\<close> depends on the build.
  The state is the OS next to the USB device; the result is the message table, \<open>None\<close> when there
  is no control port.\<close>

definition fatal :: "('s, 'a) io \<Rightarrow> ('s, 'a) io" where
  "fatal m = tryS m (\<lambda>r. case r of Inl e \<Rightarrow> haltS (error_text e) | Inr x \<Rightarrow> retS x)"

definition onUsb :: "('d usb_device, 'a) io \<Rightarrow> (('w, 'v) os \<times> 'd usb_device, 'a) io" where
  "onUsb m = zoomS snd (\<lambda>u p. (fst p, u)) m"

definition onFst :: "('w, 'v, 'a) osio \<Rightarrow> (('w, 'v) os \<times> 'd usb_device, 'a) io" where
  "onFst m = zoomS fst (\<lambda>s p. (s, snd p)) m"

definition ctl_Start ::
  "'d usb_stack \<Rightarrow> ('w, 'v) board \<Rightarrow> int option \<Rightarrow> ('d usb_device, unit) io
   \<Rightarrow> (('w, 'v) os \<times> 'd usb_device, (nat \<rightharpoonup> ctl_op) option) io" where
  "ctl_Start L E control configureUART =
     bindS (onUsb (fatal (configureDevice L (hex_upper (UniqueID (key_hardware E)))))) (\<lambda>_.
     bindS (onUsb (fatal (configureHID L))) (\<lambda>table.
     bindS (onUsb (fatal configureUART)) (\<lambda>_.
     case control of
       None \<Rightarrow> retS None
     | Some irq \<Rightarrow>
         bindS (onFst (emit (DeviceMode Control_port))) (\<lambda>_.
         bindS (onFst (modifyS (\<lambda>s. s\<lparr>irqHandler := (irqHandler s)(irq \<mapsto> ServiceControl)\<rparr>))) (\<lambda>_.
         bindS (onFst (emit (EnableUSBInterrupt Control_port ''IRQ_URI''))) (\<lambda>_.
         bindS (onFst (emit (EnableUSBInterrupt Control_port ''IRQ_PCI''))) (\<lambda>_.
         bindS (onFst (emit (EnableUSBInterrupt Control_port ''IRQ_UI''))) (\<lambda>_.
         bindS (onFst (emit (GICEnable irq))) (\<lambda>_.
         retS (Some table))))))))))"

text \<open>What the control interface needs from its build to answer messages.\<close>

record ('w, 'v) ctl_env =
  ce_codec :: api_codec
  ce_build :: build_info
  ce_board :: "('w, 'v) board"
  ce_inspect :: "('w, 'v, unit) osio"
  ce_taELF :: bytes
  ce_gzip :: "bytes \<Rightarrow> bytes"
  ce_consoleLogs :: bytes

fun ctl_handle :: "('w, 'v) ctl_env \<Rightarrow> ctl_op \<Rightarrow> bytes \<Rightarrow> ('w, 'v, bytes) ctlio" where
  "ctl_handle V Op_Status = ctl_Status (ce_codec V) (ce_build V) (ce_board V)"
| "ctl_handle V Op_Config = ctl_Config (ce_codec V) (ce_board V) (ce_inspect V) (ce_taELF V)"
| "ctl_handle V Op_HAB = ctl_HAB (ce_codec V) (ce_build V) (ce_board V)"
| "ctl_handle V Op_ConsoleLogs = ctl_ConsoleLogs (ce_codec V) (ce_gzip V) (ce_consoleLogs V)"
| "ctl_handle V Op_CrashLogs = ctl_CrashLogs (ce_codec V) (ce_gzip V) (ce_board V)"

section \<open>Lemmas\<close>

lemma onOs_apply [io_simps]: "onOs m c = (case m (lc_os c) of (r, s) \<Rightarrow> (r, c\<lparr>lc_os := s\<rparr>))"
  by (simp add: onOs_def zoomS_apply)

lemma onRest_apply [io_simps]: "onRest m u = (case m (dev_rest u) of (r, d) \<Rightarrow> (r, u\<lparr>dev_rest := d\<rparr>))"
  by (simp add: onRest_def zoomS_apply)

lemma add_string_apply [io_simps]:
  "add_string L t u = (case AddString L t (dev_rest u) of (i, d) \<Rightarrow> (Ok i, u\<lparr>dev_rest := d\<rparr>))"
  by (simp add: add_string_def onRest_apply split: prod.split)

text \<open>The log handlers are \<open>handleLogsRequest\<close> on the logs the source returns.\<close>

lemma serve_logs_source:
  assumes "source (lc_os c) = (Ok (fst (l (lc_os c))), snd (l (lc_os c)))"
  shows "serve_logs K gzip source r c = (case handleLogsRequest K gzip l r c of (b, c') \<Rightarrow> (Ok b, c'))"
  using assms
  by (auto simp: serve_logs_def bindS_apply onOs_apply fresh_request_def handleLogsRequest_def
      split: res.splits prod.splits)

text \<open>Vendor commands are distinct, so the table maps each command to its own operation.\<close>

lemma hid_commands_distinct: "distinct (map fst (hid_commands first))"
  by (simp add: hid_commands_def U2FHID_ARMORY_INF_def U2FHID_ARMORY_CFG_def U2FHID_ARMORY_HAB_def
      U2FHID_ARMORY_CONSOLE_LOGS_def U2FHID_ARMORY_CRASH_LOGS_def VendorCommand_def)

lemma add_mappings_ok:
  "add_mappings ok cs t = Ok t' \<Longrightarrow> distinct (map fst cs) \<Longrightarrow> t' = t ++ map_of cs \<and> (\<forall>c \<in> set cs. ok (fst c))"
proof (induction cs arbitrary: t)
  case (Cons c cs)
  obtain k x where c: "c = (k, x)" by (cases c)
  with Cons.prems(1) have ok: "ok k" and rec: "add_mappings ok cs (t(k \<mapsto> x)) = Ok t'" by (auto split: if_splits)
  from Cons.prems(2) have "distinct (map fst cs)" by simp
  note t' = Cons.IH [OF rec this]
  have "map_of cs k = None" using Cons.prems(2) c by (simp add: map_of_eq_None_iff)
  then have "t(k \<mapsto> x) ++ map_of cs = t ++ map_of (c # cs)"
    by (auto simp: c map_add_def fun_eq_iff split: option.splits)
  with t' ok c show ?case by (metis set_ConsD fst_conv)
qed simp

lemma configureHID_table:
  assumes "configureHID L u = (Ok t, u')"
  shows "t = map_of (hid_commands (VendorCommandFirst L))"
    and "hid_report u' = put_usage_page (of_nat HIDUsagePage) (hid_report u)"
    and "VendorId u' = VendorId u" "ProductId u' = ProductId u" "3 \<le> length (hid_report u)"
proof -
  from assms have "add_mappings (AddMapping_ok L) (hid_commands (VendorCommandFirst L)) Map.empty = Ok t"
    by (auto simp: configureHID_def bindS_apply onRest_apply split: prod.splits res.splits if_splits)
  from add_mappings_ok [OF this hid_commands_distinct] show "t = map_of (hid_commands (VendorCommandFirst L))"
    by simp
  from assms show "hid_report u' = put_usage_page (of_nat HIDUsagePage) (hid_report u)"
    "VendorId u' = VendorId u" "ProductId u' = ProductId u" "3 \<le> length (hid_report u)"
    by (auto simp: configureHID_def bindS_apply onRest_apply split: prod.splits res.splits if_splits)
qed

lemma configureDevice_ids:
  assumes "configureDevice L serial u = (Ok (), u')"
  shows "VendorId u' = of_nat VendorID \<and> ProductId u' = of_nat ProductID \<and> hid_report u' = hid_report u"
  using assms
  by (auto simp: configureDevice_def bindS_apply onRest_apply add_string_apply split: prod.splits res.splits)

lemmas hid_lookup = hid_commands_def U2FHID_ARMORY_INF_def U2FHID_ARMORY_CFG_def U2FHID_ARMORY_HAB_def
  U2FHID_ARMORY_CONSOLE_LOGS_def U2FHID_ARMORY_CRASH_LOGS_def VendorCommand_def

end
