(* ===== verification/Witnessctl.thy ===== *)
theory Witnessctl
  imports Control Net_Addr
begin

text \<open>
  The host tool \<open>witnessctl\<close> (\<open>src/cmd/witnessctl\<close>): finding devices, the requests it can send
  to one, and its \<open>main\<close>. The HID package, the terminal and gzip are the record \<open>hid_host\<close>; an
  opened device is named by its \<open>DeviceInfo\<close>. \<open>usb_link\<close> connects the tool to the control
  interface of \<open>Control\<close>, for the properties that span both ends.
\<close>

section \<open>Devices\<close>

record DeviceInfo =
  di_Path :: string
  di_VendorID :: "16 word"
  di_ProductID :: "16 word"
  di_UsagePage :: "16 word"

text \<open>\<open>partial_Status\<close> is what a failing \<open>Unmarshal\<close> leaves in the message.\<close>

record 'h hid_host =
  hid_Devices :: "('h, DeviceInfo list) io"
  u2f_Open :: "DeviceInfo \<Rightarrow> ('h, unit) io"
  u2f_Command :: "DeviceInfo \<Rightarrow> nat \<Rightarrow> bytes \<Rightarrow> ('h, bytes) io"
  host_codec :: api_codec
  host_gunzip :: "bytes \<Rightarrow> bytes res"
  partial_Status :: "bytes \<Rightarrow> Status"
  read_answer :: "('h, string) io"
  cmd_first :: nat

definition is_witness :: "DeviceInfo \<Rightarrow> bool" where
  "is_witness d \<longleftrightarrow> di_UsagePage d = of_nat HIDUsagePage \<and> di_VendorID d = of_nat VendorID
     \<and> di_ProductID d = of_nat ProductID"

fun open_witnesses :: "'h hid_host \<Rightarrow> DeviceInfo list \<Rightarrow> ('h, DeviceInfo list) io" where
  "open_witnesses H [] = retS []"
| "open_witnesses H (d # ds) =
     (if is_witness d
      then bindS (wrapS (''u2fhid.Open('' @ di_Path d @ '')'') (u2f_Open H d)) (\<lambda>_.
           bindS (open_witnesses H ds) (\<lambda>r. retS (d # r)))
      else open_witnesses H ds)"

definition detect :: "'h hid_host \<Rightarrow> ('h, DeviceInfo list) io" where
  "detect H = bindS (hid_Devices H) (open_witnesses H)"

section \<open>Requests to a device\<close>

text \<open>\<open>status\<close> returns the message (nil if the command failed) and the error.\<close>

definition dev_status :: "'h hid_host \<Rightarrow> DeviceInfo \<Rightarrow> ('h, Status option \<times> error option) io" where
  "dev_status H d =
     tryS (u2f_Command H d (U2FHID_ARMORY_INF (cmd_first H)) []) (\<lambda>r. case r of
       Inl e \<Rightarrow> retS (None, Some e)
     | Inr buf \<Rightarrow> (case dec_Status (host_codec H) buf of
         Ok s \<Rightarrow> retS (Some s, None)
       | Err e \<Rightarrow> retS (Some (partial_Status H buf), Some e)
       | Halt m \<Rightarrow> haltS m))"

definition dev_hab :: "'h hid_host \<Rightarrow> DeviceInfo \<Rightarrow> ('h, unit) io" where
  "dev_hab H d =
     bindS (u2f_Command H d (U2FHID_ARMORY_HAB (cmd_first H)) []) (\<lambda>buf.
     bindS (liftRes (dec_Response (host_codec H) buf)) (\<lambda>res.
     if rsp_Error res \<noteq> NONE
     then failS (ErrorsNew (ErrorCode_String (rsp_Error res) @ '': '' @ string_of_bytes (rsp_Payload res)))
     else retS ()))"

text \<open>The command as the log fetching loop sees it; a loop that does not end does not return.\<close>

definition command_sum :: "('h, bytes) io \<Rightarrow> 'h \<Rightarrow> (error + bytes) \<times> 'h" where
  "command_sum m w = (case m w of
      (Ok b, w') \<Rightarrow> (Inr b, w')
    | (Err e, w') \<Rightarrow> (Inl e, w')
    | (Halt p, w') \<Rightarrow> (Inl (External p), w'))"

definition dev_logs :: "nat \<Rightarrow> 'h hid_host \<Rightarrow> DeviceInfo \<Rightarrow> nat \<Rightarrow> ('h, string \<times> error option) io" where
  "dev_logs fuel H d cmd = (\<lambda>w.
     case getLogMessages fuel (host_codec H) (host_gunzip H) (\<lambda>r. command_sum (u2f_Command H d cmd r)) w of
       None \<Rightarrow> (Halt ''does not return'', w)
     | Some rw \<Rightarrow> rw)"

definition dev_consoleLogs :: "nat \<Rightarrow> 'h hid_host \<Rightarrow> DeviceInfo \<Rightarrow> ('h, string \<times> error option) io" where
  "dev_consoleLogs fuel H d = dev_logs fuel H d (U2FHID_ARMORY_CONSOLE_LOGS (cmd_first H))"

definition dev_crashLogs :: "nat \<Rightarrow> 'h hid_host \<Rightarrow> DeviceInfo \<Rightarrow> ('h, string \<times> error option) io" where
  "dev_crashLogs fuel H d = dev_logs fuel H d (U2FHID_ARMORY_CRASH_LOGS (cmd_first H))"

text \<open>The checks of \<open>cfg\<close>, and the message it sends.\<close>

definition check_cfg :: "string \<Rightarrow> string \<Rightarrow> string \<Rightarrow> string \<Rightarrow> unit res" where
  "check_cfg ip netmask gw dns =
     (if ip = [] \<or> gw = [] \<or> dns = [] then
        Err (ErrorsNew ''trusted applet IP, gatewy and DNS addresses must all be specified for configuration change (flags: -a -g -r)'')
      else if \<not> ParseIP_ok ip then Err (ErrorsNew ''IP address is invalid'')
      else if \<not> ParseIP_ok netmask then Err (ErrorsNew ''Netmask is invalid'')
      else if \<not> ParseIP_ok gw then Err (ErrorsNew ''Gateway address is invalid'')
      else case SplitHostPort dns of
        Ok _ \<Rightarrow> Ok ()
      | Err e \<Rightarrow> Err (Errorf ''DNS address is invalid'' e)
      | Halt m \<Rightarrow> Halt m)"

text \<open>The reply formatted as a whole (up to the layout the protobuf library chooses).\<close>

definition response_text :: "Response \<Rightarrow> string" where
  "response_text r = ''Error:'' @ ErrorCode_String (rsp_Error r) @ '' Payload:'' @ string_of_bytes (rsp_Payload r)"

section \<open>The command line\<close>

record ctl_config =
  wc_hidPath :: string
  wc_status :: bool
  wc_consoleLogs :: bool
  wc_crashLogs :: bool
  wc_hab :: bool
  wc_dhcp :: bool
  wc_ip :: string
  wc_gw :: string
  wc_mask :: string
  wc_dns :: string
  wc_ntp :: string

text \<open>The values without any flag.\<close>

definition default_config :: ctl_config where
  "default_config = \<lparr>wc_hidPath = [], wc_status = False, wc_consoleLogs = False, wc_crashLogs = False,
     wc_hab = False, wc_dhcp = True, wc_ip = ''10.0.0.1'', wc_gw = ''10.0.0.2'', wc_mask = ''255.255.255.0'',
     wc_dns = ''8.8.8.8:53'', wc_ntp = ''time.google.com''\<rparr>"

definition config_detect :: "'h hid_host \<Rightarrow> ctl_config \<Rightarrow> ('h, DeviceInfo list) io" where
  "config_detect H c =
     bindS (detect H) (\<lambda>devs.
     if devs = [] then failS (ErrorsNew ''no devices found'')
     else if wc_hidPath c \<noteq> [] then
       (case find (\<lambda>d. di_Path d = wc_hidPath c) devs of
          Some d \<Rightarrow> retS [d]
        | None \<Rightarrow> retS devs)
     else retS devs)"

text \<open>The texts of the tool are UTF-8: the warning is set between rules of full blocks, and each
  device is announced by an eye in a speech bubble.\<close>

definition block_rule :: string where
  "block_rule = concat (replicate 80 [CHR 0xE2, CHR 0x96, CHR 0x88])"

definition warning :: string where
  "warning = newline @ block_rule @ newline @ newline
     @ ''                                **  WARNING  **'' @ newline @ newline
     @ ''Enabling NXP HABv4 secure boot is an irreversible action that permanently fuses'' @ newline
     @ ''verification key hashes on the device.'' @ newline @ newline
     @ ''Any errors in the process or loss of the signing PKI will result in a bricked'' @ newline
     @ ''device incapable of executing unsigned code. This is a security feature, not a'' @ newline
     @ ''bug.'' @ newline @ newline
     @ ''The use of this tool is therefore **at your own risk**.'' @ newline @ newline
     @ block_rule @ newline"

definition device_heading :: "DeviceInfo \<Rightarrow> string" where
  "device_heading d = [CHR 0xF0, CHR 0x9F, CHR 0x91, CHR 0x81, CHR 0xEF, CHR 0xB8, CHR 0x8F, CHR 0xE2, CHR 0x80,
     CHR 0x8D, CHR 0xF0, CHR 0x9F, CHR 0x97, CHR 0xA8, CHR 0xEF, CHR 0xB8, CHR 0x8F] @ '' @ '' @ di_Path d"

definition knownSRKHashes :: "string \<rightharpoonup> string" where
  "knownSRKHashes = [''b8ba457320663bf006accd3c57e06720e63b21ce5351cb91b4650690bb08d85a'' \<mapsto> ''CI'']"

text \<open>The tool's state: the outside, and the lines it has printed.\<close>

record 'h tool =
  t_world :: 'h
  t_out :: "string list"

definition onHost :: "('h, 'a) io \<Rightarrow> ('h tool, 'a) io" where
  "onHost m = zoomS t_world (\<lambda>w t. t\<lparr>t_world := w\<rparr>) m"

definition say :: "string \<Rightarrow> ('h tool, unit) io" where
  "say line = modifyS (\<lambda>t. t\<lparr>t_out := t_out t @ [line]\<rparr>)"

definition confirm :: "'h hid_host \<Rightarrow> string \<Rightarrow> ('h tool, bool) io" where
  "confirm H msg =
     bindS (say (msg @ '' (y/n): '')) (\<lambda>_.
     bindS (onHost (read_answer H)) (\<lambda>answer. retS (answer = ''y'')))"

definition dev_cfg ::
  "'h hid_host \<Rightarrow> DeviceInfo \<Rightarrow> bool \<Rightarrow> string \<Rightarrow> string \<Rightarrow> string \<Rightarrow> string \<Rightarrow> string \<Rightarrow> ('h tool, unit) io" where
  "dev_cfg H d dhcp ip netmask gw dns ntp =
     bindS (liftRes (check_cfg ip netmask gw dns)) (\<lambda>_.
     bindS (say ''sending configuration update to armored witness'') (\<lambda>_.
     bindS (onHost (u2f_Command H d (U2FHID_ARMORY_CFG (cmd_first H))
       (Configuration_Bytes (host_codec H) \<lparr>cf_DHCP = dhcp, cf_IP = ip, cf_Netmask = netmask, cf_Gateway = gw,
          cf_Resolver = dns, cf_NTPServer = ntp\<rparr>))) (\<lambda>buf.
     bindS (liftRes (dec_Response (host_codec H) buf)) (\<lambda>res.
     if rsp_Error res \<noteq> NONE then failS (ErrorsNew (response_text res)) else retS ()))))"

fun each :: "('a \<Rightarrow> ('s, unit) io) \<Rightarrow> 'a list \<Rightarrow> ('s, unit) io" where
  "each f [] = retS ()"
| "each f (x # xs) = bindS (f x) (\<lambda>_. each f xs)"

definition main_hab :: "'h hid_host \<Rightarrow> DeviceInfo \<Rightarrow> ('h tool, unit) io" where
  "main_hab H d =
     bindS (onHost (dev_status H d)) (\<lambda>(st, err).
     bindS (case err of None \<Rightarrow> retS () | Some e \<Rightarrow> say (''Failed to get status on '' @ di_Path d @ '': '' @ error_text e)) (\<lambda>_.
     bindS (say warning) (\<lambda>_.
     bindS (say []) (\<lambda>_.
     case st of
       None \<Rightarrow> haltS nil_dereference
     | Some s \<Rightarrow>
         bindS (case knownSRKHashes (st_SRKHash s) of
             None \<Rightarrow> say (''WARNING: SRK hash '' @ st_SRKHash s @ '' is UNKNOWN!'')
           | Some env \<Rightarrow> say (''Will fuse to '' @ env @ '' release environment (SRK Hash: '' @ st_SRKHash s @ '')'')) (\<lambda>_.
         bindS (confirm H ''Proceed?'') (\<lambda>yes.
         if yes then
           bindS (say ''Asking device to fuse itself...'') (\<lambda>_.
           fatal (onHost (dev_hab H d)))
         else haltS ''User cancelled''))))))"

definition main_status :: "'h hid_host \<Rightarrow> DeviceInfo \<Rightarrow> ('h tool, unit) io" where
  "main_status H d =
     bindS (say (device_heading d)) (\<lambda>_.
     bindS (onHost (dev_status H d)) (\<lambda>(st, err).
     bindS (case err of None \<Rightarrow> retS () | Some e \<Rightarrow> say (''Failed to get status on '' @ di_Path d @ '': '' @ error_text e)) (\<lambda>_.
     case st of
       None \<Rightarrow> haltS nil_dereference
     | Some s \<Rightarrow> say (Status_Print s @ newline @ newline))))"

text \<open>The text is printed after an error too.\<close>

definition main_logs :: "string \<Rightarrow> (DeviceInfo \<Rightarrow> ('h, string \<times> error option) io) \<Rightarrow> DeviceInfo \<Rightarrow> ('h tool, unit) io" where
  "main_logs what get d =
     bindS (say (device_heading d)) (\<lambda>_.
     bindS (onHost (get d)) (\<lambda>(s, err).
     bindS (case err of None \<Rightarrow> retS ()
            | Some e \<Rightarrow> say (''Failed to get '' @ what @ '' logs on '' @ di_Path d @ '': '' @ error_text e)) (\<lambda>_.
     say (s @ newline @ newline))))"

definition main_cfg :: "'h hid_host \<Rightarrow> ctl_config \<Rightarrow> DeviceInfo list \<Rightarrow> ('h tool, unit) io" where
  "main_cfg H c devs =
     (case devs of
        [d] \<Rightarrow> fatal (dev_cfg H d (wc_dhcp c) (wc_ip c) (wc_mask c) (wc_gw c) (wc_dns c) (wc_ntp c))
      | _ \<Rightarrow> haltS ''Please specify which device to configure using -d'')"

text \<open>\<open>main\<close>; \<open>nflag\<close> is the number of flags given.\<close>

definition witnessctl_main :: "nat \<Rightarrow> 'h hid_host \<Rightarrow> nat \<Rightarrow> ctl_config \<Rightarrow> ('h tool, unit) io" where
  "witnessctl_main fuel H nflag c =
     bindS (fatal (onHost (wrapS ''detect()'' (config_detect H c)))) (\<lambda>devs.
     bindS (if wc_hab c then main_hab H (hd devs)
            else if wc_status c then each (main_status H) devs
            else if wc_consoleLogs c then each (main_logs ''console'' (dev_consoleLogs fuel H)) devs
            else if wc_crashLogs c then each (main_logs ''crash'' (dev_crashLogs fuel H)) devs
            else if wc_dhcp c \<or> wc_ip c \<noteq> [] \<or> wc_gw c \<noteq> [] \<or> wc_dns c \<noteq> [] \<or> wc_ntp c \<noteq> []
            then main_cfg H c devs
            else retS ()) (\<lambda>_.
     if nflag = 0 then say ''usage'' else retS ()))"

end
