(* ===== verification/Usb_Link.thy ===== *)
theory Usb_Link
  imports Witnessctl Proto_Wire
begin

text \<open>
  The host tool and the device together. \<open>usb_link\<close> delivers a command of \<open>witnessctl\<close> to the
  handler that the message table of \<open>configureHID\<close> gives; a device that crashes or has no handler
  gives the host a transport error. The properties run the host's functions against the device's.
\<close>

section \<open>The connection\<close>

definition no_reply :: error where "no_reply = External ''u2fhid: no reply''"

definition usb_link :: "('w, 'v) ctl_env \<Rightarrow> (nat \<rightharpoonup> ctl_op) \<Rightarrow> nat \<Rightarrow> bytes \<Rightarrow> ('w, 'v, bytes) ctlio" where
  "usb_link V table cmd req = (\<lambda>c. case table cmd of
      None \<Rightarrow> (Err no_reply, c)
    | Some x \<Rightarrow> (case ctl_handle V x req c of
        (Ok b, c') \<Rightarrow> (Ok b, c')
      | (_, c') \<Rightarrow> (Err no_reply, c')))"

text \<open>A host that reaches the device \<open>d\<close> over such a link.\<close>

definition linked :: "('w, 'v) ctl_state hid_host \<Rightarrow> DeviceInfo \<Rightarrow> ('w, 'v) ctl_env \<Rightarrow> bool" where
  "linked H d V \<longleftrightarrow> host_codec H = ce_codec V
     \<and> u2f_Command H d = usb_link V (map_of (hid_commands (cmd_first H)))"

lemma linked_commands:
  assumes "linked H d V"
  shows "u2f_Command H d (U2FHID_ARMORY_INF (cmd_first H)) req c =
      (case ctl_handle V Op_Status req c of (Ok b, c') \<Rightarrow> (Ok b, c') | (_, c') \<Rightarrow> (Err no_reply, c'))"
    and "u2f_Command H d (U2FHID_ARMORY_CFG (cmd_first H)) req c =
      (case ctl_handle V Op_Config req c of (Ok b, c') \<Rightarrow> (Ok b, c') | (_, c') \<Rightarrow> (Err no_reply, c'))"
    and "u2f_Command H d (U2FHID_ARMORY_HAB (cmd_first H)) req c =
      (case ctl_handle V Op_HAB req c of (Ok b, c') \<Rightarrow> (Ok b, c') | (_, c') \<Rightarrow> (Err no_reply, c'))"
    and "u2f_Command H d (U2FHID_ARMORY_CONSOLE_LOGS (cmd_first H)) req c =
      (case ctl_handle V Op_ConsoleLogs req c of (Ok b, c') \<Rightarrow> (Ok b, c') | (_, c') \<Rightarrow> (Err no_reply, c'))"
    and "u2f_Command H d (U2FHID_ARMORY_CRASH_LOGS (cmd_first H)) req c =
      (case ctl_handle V Op_CrashLogs req c of (Ok b, c') \<Rightarrow> (Ok b, c') | (_, c') \<Rightarrow> (Err no_reply, c'))"
  using assms by (simp_all add: linked_def usb_link_def hid_lookup)

lemma linked_codec: "linked H d V \<Longrightarrow> host_codec H = ce_codec V"
  by (simp add: linked_def)

section \<open>Lemmas\<close>

lemma onHost_apply [io_simps]: "onHost m t = (case m (t_world t) of (r, w) \<Rightarrow> (r, t\<lparr>t_world := w\<rparr>))"
  by (simp add: onHost_def zoomS_apply)

lemma say_apply [simp, io_simps]: "say x t = (Ok (), t\<lparr>t_out := t_out t @ [x]\<rparr>)"
  by (simp add: say_def)

context api_wire
begin

lemma dec_ErrorResponse:
  "dec_Response K (ErrorResponse K e) = Ok \<lparr>rsp_Error = GENERIC_ERROR, rsp_Payload = bytes_of_string (error_text e)\<rparr>"
  by (simp add: ErrorResponse_def response_law)

lemma dec_EmptyResponse: "dec_Response K (EmptyResponse K) = Ok \<lparr>rsp_Error = NONE, rsp_Payload = []\<rparr>"
  by (simp add: EmptyResponse_def response_law)

end

section \<open>Properties\<close>

text \<open>C22: enabling secure boot end to end. Over a link with codecs that decode what they encode,
  \<open>witnessctl\<close>'s request reports success exactly when activation with the hash built into the OS
  succeeded, and otherwise carries the device's error text; a built-in hash that is not 32 bytes in
  hexadecimal is refused and nothing on the device changes.\<close>

theorem hab_end_to_end:
  assumes wire: "api_wire (ce_codec V)" and link: "linked H d V"
  shows "(\<forall>srk r w. hex_decode (bi_SRKHash (ce_build V)) = Ok srk \<and> length srk = 32
        \<and> Activate (SNVS_Available (ce_board V)) (fuse_box (ce_board V)) (SwitchEndianness (ce_board V)) srk
            (world (lc_os c)) = (r, w) \<and> (\<forall>m. r \<noteq> Halt m) \<longrightarrow>
        dev_hab H d c = (case r of Err e \<Rightarrow> Err (ErrorsNew (''GENERIC_ERROR: '' @ error_text e)) | _ \<Rightarrow> Ok (),
          c\<lparr>lc_os := lc_os c\<lparr>world := w\<rparr>\<rparr>))
    \<and> ((\<forall>b. hex_decode (bi_SRKHash (ce_build V)) = Ok b \<longrightarrow> length b \<noteq> 32) \<longrightarrow>
        (\<exists>e. dev_hab H d c = (Err e, c)))"
proof (intro conjI allI impI)
  note run = dev_hab_def bindS_apply tryS_apply linked_commands [OF link] linked_codec [OF link] ctl_HAB_def
    onOs_apply onWorld_apply sha256_Size_def api_wire.dec_ErrorResponse [OF wire] api_wire.dec_EmptyResponse [OF wire]
  fix srk r w
  assume "hex_decode (bi_SRKHash (ce_build V)) = Ok srk \<and> length srk = 32
      \<and> Activate (SNVS_Available (ce_board V)) (fuse_box (ce_board V)) (SwitchEndianness (ce_board V)) srk
          (world (lc_os c)) = (r, w) \<and> (\<forall>m. r \<noteq> Halt m)"
  then show "dev_hab H d c = (case r of Err e \<Rightarrow> Err (ErrorsNew (''GENERIC_ERROR: '' @ error_text e)) | _ \<Rightarrow> Ok (),
      c\<lparr>lc_os := lc_os c\<lparr>world := w\<rparr>\<rparr>)"
    by (cases r) (simp_all add: run)
next
  note run = dev_hab_def bindS_apply tryS_apply linked_commands [OF link] linked_codec [OF link] ctl_HAB_def
    onOs_apply sha256_Size_def api_wire.dec_ErrorResponse [OF wire]
  assume "\<forall>b. hex_decode (bi_SRKHash (ce_build V)) = Ok b \<longrightarrow> length b \<noteq> 32"
  then show "\<exists>e. dev_hab H d c = (Err e, c)"
    by (cases "hex_decode (bi_SRKHash (ce_build V))") (simp_all add: run)
qed

text \<open>The reply to a configuration, by what loading the applet embedded in the OS does.\<close>

lemma dev_cfg_running:
  assumes wire: "api_wire (ce_codec V)" and link: "linked H d V" and "check_cfg ip netmask gw dns = Ok ()"
    and b: "b = Configuration_Bytes (ce_codec V) \<lparr>cf_DHCP = dhcp, cf_IP = ip, cf_Netmask = netmask, cf_Gateway = gw,
        cf_Resolver = dns, cf_NTPServer = ntp\<rparr>" and "b \<noteq> []" and "rpc_Ctx (lc_os (t_world t))"
    and "loadApplet (ce_board V) (ce_inspect V) (ce_taELF V)
        ((lc_os (t_world t))\<lparr>rpc_Cfg := b, events := events (lc_os (t_world t)) @ [CtxStop, CtxWait]\<rparr>) = (Ok (ld, err), s')"
  shows "(fst (dev_cfg H d dhcp ip netmask gw dns ntp t) = Ok ()) = (err = None)"
    and "lc_os (t_world (snd (dev_cfg H d dhcp ip netmask gw dns ntp t))) = s'"
  using assms(3,5-7)
  by (simp_all add: dev_cfg_def bindS_apply tryS_apply linked_commands [OF link] linked_codec [OF link] ctl_Config_def
      onOs_apply onHost_apply api_wire.dec_ErrorResponse [OF wire] api_wire.dec_EmptyResponse [OF wire] flip: b split: option.split)

text \<open>C23: configuration end to end. Let \<open>witnessctl\<close>'s checks pass. While no applet runs, the request succeeds
  and the configuration sent is what the applet reads when it next asks for it. While one runs, it is
  stopped first and then the applet embedded in the OS is loaded, whatever image was running. If that can be
  loaded, it is started in a state in which it reads the configuration sent, and the request succeeds
  exactly if the run does (in a build without debugging). If it cannot, the request fails, although the
  configuration has been taken, and no applet was started. If the checks fail nothing is sent.\<close>

theorem cfg_end_to_end:
  assumes wire: "api_wire (ce_codec V)" and link: "linked H d V"
    and b: "b = Configuration_Bytes (ce_codec V) \<lparr>cf_DHCP = dhcp, cf_IP = ip, cf_Netmask = netmask, cf_Gateway = gw,
        cf_Resolver = dns, cf_NTPServer = ntp\<rparr>" and ne: "b \<noteq> []" and debug: "\<not> debug (ce_board V)"
  shows "(check_cfg ip netmask gw dns = Ok () \<and> \<not> rpc_Ctx (lc_os (t_world t)) \<longrightarrow>
        (\<exists>t' s'. dev_cfg H d dhcp ip netmask gw dns ntp t = (Ok (), t')
          \<and> RPC_Config (ce_board V) current True (lc_os (t_world t')) = (Ok (Some b), s')))
    \<and> (check_cfg ip netmask gw dns = Ok () \<and> rpc_Ctx (lc_os (t_world t))
        \<and> ELF_Load (ce_board V) (ce_taELF V) (world (lc_os (t_world t))) = (Ok entry, w1)
        \<and> Monitor_Load (ce_board V) entry w1 = (Ok ctx, w2) \<longrightarrow>
        (\<exists>s0 s2 es. events s0 = events (lc_os (t_world t)) @ [CtxStop, CtxWait] @ es
          \<and> ctx_R15 (ectx s0) = ctx_R15 ctx \<and> ctx_mem (ectx s0) = ctx_mem ctx
          \<and> RPC_Config (ce_board V) current True s0 = (Ok (Some b), s2)
          \<and> (\<forall>r s1. Ctx_Run (ce_board V) s0 = (r, s1) \<and> (\<forall>m. r \<noteq> Halt m) \<longrightarrow>
              (fst (dev_cfg H d dhcp ip netmask gw dns ntp t) = Ok ()) = (r = Ok ()))))
    \<and> (\<forall>e. check_cfg ip netmask gw dns = Ok () \<and> rpc_Ctx (lc_os (t_world t))
        \<and> ELF_Load (ce_board V) (ce_taELF V) (world (lc_os (t_world t))) = (Err e, w1) \<longrightarrow>
        fst (dev_cfg H d dhcp ip netmask gw dns ntp t) \<noteq> Ok ()
        \<and> rpc_Cfg (lc_os (t_world (snd (dev_cfg H d dhcp ip netmask gw dns ntp t)))) = b
        \<and> (\<exists>m. events (lc_os (t_world (snd (dev_cfg H d dhcp ip netmask gw dns ntp t)))) = events (lc_os (t_world t))
            @ [CtxStop, CtxWait, ConfigureMMU (unat (appletStart (mem_layout (ce_board V)))) m]))
    \<and> (\<forall>e. check_cfg ip netmask gw dns = Err e \<longrightarrow> dev_cfg H d dhcp ip netmask gw dns ntp t = (Err e, t))"
proof (intro conjI impI allI, goal_cases)
  case 1
  then show ?case using b ne
    by (simp add: dev_cfg_def bindS_apply tryS_apply linked_commands [OF link] linked_codec [OF link] ctl_Config_def onOs_apply
        onHost_apply api_wire.dec_EmptyResponse [OF wire] RPC_Config_def)
next
  case 2
  let ?s = "(lc_os (t_world t))\<lparr>rpc_Cfg := b, events := events (lc_os (t_world t)) @ [CtxStop, CtxWait]\<rparr>"
  have "ELF_Load (ce_board V) (ce_taELF V) (world ?s) = (Ok entry, w1)" "Monitor_Load (ce_board V) entry w1 = (Ok ctx, w2)" using 2 by simp_all
  then obtain s0 where s0: "rpc_Cfg s0 = b" "\<exists>es. events s0 = events (lc_os (t_world t)) @ [CtxStop, CtxWait] @ es"
      "ectx s0 = ctx\<lparr>ctx_R13 := applet_end (ce_board V), SPSR := bits_Clear (ce_board V) (SPSR ctx) CPSR_FIQ\<rparr>"
    and ok: "\<And>s1. Ctx_Run (ce_board V) s0 = (Ok (), s1) \<Longrightarrow> loadApplet (ce_board V) (ce_inspect V) (ce_taELF V) ?s
      = (Ok (True, None), s1\<lparr>events := events s1 @ [GICFIQEn False, EnableInterrupts]\<rparr>)"
    and er: "\<And>e s1. Ctx_Run (ce_board V) s0 = (Err e, s1) \<Longrightarrow> loadApplet (ce_board V) (ce_inspect V) (ce_taELF V) ?s
      = (Ok (True, Some e), s1\<lparr>events := events s1 @ [GICFIQEn False, EnableInterrupts]\<rparr>)"
    by (rule loadApplet_starts [where inspect = "ce_inspect V"]) (use debug in auto)
  have "(fst (dev_cfg H d dhcp ip netmask gw dns ntp t) = Ok ()) = (r = Ok ())"
    if "Ctx_Run (ce_board V) s0 = (r, s1)" "\<forall>m. r \<noteq> Halt m" for r s1
    using that 2 dev_cfg_running(1) [OF wire link _ b ne _ ok] dev_cfg_running(1) [OF wire link _ b ne _ er]
    by (cases r) auto
  moreover obtain s2 where "RPC_Config (ce_board V) current True s0 = (Ok (Some b), s2)" using s0(1) ne by (simp add: RPC_Config_def bindS_apply)
  moreover obtain es where "events s0 = events (lc_os (t_world t)) @ [CtxStop, CtxWait] @ es" using s0(2) by blast
  ultimately show ?case using s0(3) by (intro exI [of _ s0] exI [of _ s2] exI [of _ es]) auto
next
  case (3 e)
  let ?s = "(lc_os (t_world t))\<lparr>rpc_Cfg := b, events := events (lc_os (t_world t)) @ [CtxStop, CtxWait]\<rparr>"
  have "ELF_Load (ce_board V) (ce_taELF V) (world ?s) = (Err e, w1)" using 3 by simp
  then obtain s1 where s1: "loadApplet (ce_board V) (ce_inspect V) (ce_taELF V) ?s = (Ok (False, Some e), s1)"
    by (rule loadApplet_fails [where inspect = "ce_inspect V"])
  with 3 show ?case using dev_cfg_running(1) [OF wire link _ b ne _ s1] by simp
next
  case (4 e)
  let ?s = "(lc_os (t_world t))\<lparr>rpc_Cfg := b, events := events (lc_os (t_world t)) @ [CtxStop, CtxWait]\<rparr>"
  have "ELF_Load (ce_board V) (ce_taELF V) (world ?s) = (Err e, w1)" using 4 by simp
  then obtain s1 where s1: "loadApplet (ce_board V) (ce_inspect V) (ce_taELF V) ?s = (Ok (False, Some e), s1)" "rpc_Cfg s1 = b"
    by (rule loadApplet_fails [where inspect = "ce_inspect V"]) auto
  with 4 show ?case using dev_cfg_running(2) [OF wire link _ b ne _ s1(1)] by simp
next
  case (5 e)
  let ?s = "(lc_os (t_world t))\<lparr>rpc_Cfg := b, events := events (lc_os (t_world t)) @ [CtxStop, CtxWait]\<rparr>"
  have "ELF_Load (ce_board V) (ce_taELF V) (world ?s) = (Err e, w1)" using 5 by simp
  then obtain s1 where s1: "loadApplet (ce_board V) (ce_inspect V) (ce_taELF V) ?s = (Ok (False, Some e), s1)"
    "\<exists>m. events s1 = events ?s @ [ConfigureMMU (unat (appletStart (mem_layout (ce_board V)))) m]"
    by (rule loadApplet_fails [where inspect = "ce_inspect V"]) auto
  with 5 show ?case using dev_cfg_running(2) [OF wire link _ b ne _ s1(1)] by simp
next
  case (6 e)
  then show ?case by (simp add: dev_cfg_def bindS_apply)
qed

text \<open>The status the host shows is the device's. Over a link with codecs that decode what they
  encode, and with ASCII texts in it, \<open>witnessctl\<close>'s status request gets exactly the status the OS
  reports, and changes nothing on the device.\<close>

lemma status_end_to_end:
  assumes wire: "api_wire (ce_codec V)" and link: "linked H d V"
    and "list_all is_ascii (status_texts (getStatus (ce_build V) (ce_board V) (lc_os c)))"
  shows "dev_status H d c = (Ok (Some (getStatus (ce_build V) (ce_board V) (lc_os c)), None), c)"
  using assms(3) api_wire.status_law [OF wire, of "getStatus (ce_build V) (ce_board V) (lc_os c)"]
  by (simp add: dev_status_def tryS_apply linked_commands [OF link] linked_codec [OF link] ctl_Status_def
      list_all_iff)

section \<open>Logs over the link\<close>

text \<open>A log command of the host over the link is the reliable link of \<open>Log_Transfer\<close>, for a log source
  that returns.\<close>

lemma linked_logs:
  assumes "linked H d V" and "\<And>r c. u2f_Command H d cmd r c = (case serve_logs (ce_codec V) (ce_gzip V) source r c of
      (Ok b, c') \<Rightarrow> (Ok b, c') | (_, c') \<Rightarrow> (Err no_reply, c'))"
    and "\<And>s. source s = (Ok (fst (l s)), snd (l s))"
  shows "(\<lambda>r. command_sum (u2f_Command H d cmd r)) = reliable_link (ce_codec V) (ce_gzip V) l"
proof (intro ext)
  fix r c
  have "serve_logs (ce_codec V) (ce_gzip V) source r c
      = (case handleLogsRequest (ce_codec V) (ce_gzip V) l r c of (b, c') \<Rightarrow> (Ok b, c'))"
    by (rule serve_logs_source) (rule assms(3))
  then show "command_sum (u2f_Command H d cmd r) c = reliable_link (ce_codec V) (ce_gzip V) l r c"
    by (simp add: command_sum_def assms(2) reliable_link_def split: prod.split)
qed

lemma dev_logs_all:
  assumes "api_wire (ce_codec V)" and link: "linked H d V"
    and "\<And>r c. u2f_Command H d cmd r c = (case serve_logs (ce_codec V) (ce_gzip V) source r c of
      (Ok b, c') \<Rightarrow> (Ok b, c') | (_, c') \<Rightarrow> (Err no_reply, c'))"
    and "\<And>s. \<exists>b s'. source s = (Ok b, s')"
    and "source (lc_os c) = (Ok logs, s')" and "host_gunzip H (ce_gzip V logs) = Ok logs"
    and "length (ce_gzip V logs) div 1024 + 3 \<le> fuel"
  shows "dev_logs fuel H d cmd c = (Ok (string_of_bytes logs, None), c\<lparr>lc_os := s', lc_logBuffer := []\<rparr>)"
proof -
  let ?l = "\<lambda>s. case source s of (Ok b, s') \<Rightarrow> (b, s') | (_, s') \<Rightarrow> ([], s')"
  have src: "source s = (Ok (fst (?l s)), snd (?l s))" for s
    using assms(4) [of s] by (auto split: prod.splits res.splits)
  note ln = linked_logs [OF link assms(3) src]
  show ?thesis
    using api_wire.getLogMessages_all [OF assms(1), of "host_gunzip H" "ce_gzip V" logs ?l c s' fuel] assms(5-7)
    by (simp add: dev_logs_def linked_codec [OF link] ln)
qed

text \<open>C25: fetching logs end to end. Over the link, with codecs and gzip that decode what they encode,
  and storage that returns (with success or an error), the host's requests for the console logs
  and for the crash log end, after at most two rounds more than the compressed log has full chunks,
  with exactly the log text the device read at the first request.\<close>

theorem logs_end_to_end:
  assumes "api_wire (ce_codec V)" and "linked H d V" and "\<And>b. host_gunzip H (ce_gzip V b) = Ok b"
    and "\<And>s. \<exists>b s'. crash_log_source (ce_board V) s = (Ok b, s')"
  shows "(length (ce_gzip V (ce_consoleLogs V)) div 1024 + 3 \<le> fuel \<longrightarrow>
      dev_consoleLogs fuel H d c = (Ok (string_of_bytes (ce_consoleLogs V), None), c\<lparr>lc_logBuffer := []\<rparr>))
    \<and> (\<forall>logs s'. crash_log_source (ce_board V) (lc_os c) = (Ok logs, s') \<and> length (ce_gzip V logs) div 1024 + 3 \<le> fuel \<longrightarrow>
      dev_crashLogs fuel H d c = (Ok (string_of_bytes logs, None), c\<lparr>lc_os := s', lc_logBuffer := []\<rparr>))"
proof (intro conjI allI impI)
  assume "length (ce_gzip V (ce_consoleLogs V)) div 1024 + 3 \<le> fuel"
  then show "dev_consoleLogs fuel H d c = (Ok (string_of_bytes (ce_consoleLogs V), None), c\<lparr>lc_logBuffer := []\<rparr>)"
    unfolding dev_consoleLogs_def
    using dev_logs_all [OF assms(1,2), where source = "retS (ce_consoleLogs V)" and s' = "lc_os c" and c = c
        and fuel = fuel and logs = "ce_consoleLogs V" and cmd = "U2FHID_ARMORY_CONSOLE_LOGS (cmd_first H)"] assms(3)
    by (simp add: linked_commands [OF assms(2)] ctl_ConsoleLogs_def)
next
  fix logs s'
  assume "crash_log_source (ce_board V) (lc_os c) = (Ok logs, s') \<and> length (ce_gzip V logs) div 1024 + 3 \<le> fuel"
  then show "dev_crashLogs fuel H d c = (Ok (string_of_bytes logs, None), c\<lparr>lc_os := s', lc_logBuffer := []\<rparr>)"
    unfolding dev_crashLogs_def
    using dev_logs_all [OF assms(1,2), where source = "crash_log_source (ce_board V)" and s' = s' and c = c
        and fuel = fuel and logs = logs and cmd = "U2FHID_ARMORY_CRASH_LOGS (cmd_first H)"] assms(3,4)
    by (simp add: linked_commands [OF assms(2)] ctl_CrashLogs_def)
qed

section \<open>The command line tool\<close>

lemma open_witnesses_ok:
  assumes "open_witnesses H ds w = (Ok devs, w')"
  shows "devs = filter is_witness ds"
  using assms
proof (induction ds arbitrary: w devs)
  case (Cons d ds)
  then show ?case
    by (auto simp: bindS_apply split: if_splits prod.splits res.splits)
qed simp

text \<open>What \<open>-d\<close> selects: the devices used are witnesses; with \<open>-d\<close> naming one of them it is the only one.\<close>

lemma config_detect_ok:
  assumes "config_detect H c w = (Ok devs, w')"
  shows "devs \<noteq> []" and "list_all is_witness devs"
    and "length devs = 1 \<and> di_Path (hd devs) = wc_hidPath c \<or> wc_hidPath c \<notin> di_Path ` set devs \<or> wc_hidPath c = []"
proof -
  from assms obtain ds w1 where d: "detect H w = (Ok ds, w1)" "ds \<noteq> []"
    and sel: "devs = (if wc_hidPath c \<noteq> [] then case find (\<lambda>d. di_Path d = wc_hidPath c) ds of Some d \<Rightarrow> [d] | None \<Rightarrow> ds
      else ds)"
    by (auto simp: config_detect_def bindS_apply split: prod.splits res.splits if_splits option.splits)
  from d(1) obtain all w0 where "open_witnesses H all w0 = (Ok ds, w1)"
    by (auto simp: detect_def bindS_apply split: prod.splits res.splits)
  then have ds: "list_all is_witness ds" using open_witnesses_ok by (fastforce simp: list_all_iff)
  from sel d(2) show "devs \<noteq> []" by (auto split: if_splits option.splits)
  from sel ds show "list_all is_witness devs"
    by (auto simp: list_all_iff find_Some_iff split: if_splits option.splits)
  from sel show "length devs = 1 \<and> di_Path (hd devs) = wc_hidPath c \<or> wc_hidPath c \<notin> di_Path ` set devs \<or> wc_hidPath c = []"
    by (auto simp: find_Some_iff find_None_iff split: if_splits option.splits)
qed

text \<open>C35: fuses are blown only after a confirmation. Run with \<open>-H\<close>, the tool succeeds only if the user
  answered \<open>y\<close> and the device, a witness, then accepted the request; for every host and device.\<close>

theorem hab_needs_confirmation:
  assumes "wc_hab c" and "witnessctl_main fuel H n c t = (Ok (), t')"
  shows "\<exists>d w1 w2. is_witness d \<and> read_answer H w1 = (Ok ''y'', w2) \<and> dev_hab H d w2 = (Ok (), t_world t')"
proof -
  from assms(2) obtain devs t1 t2 where
    det: "fatal (onHost (wrapS ''detect()'' (config_detect H c))) t = (Ok devs, t1)"
    and hab: "main_hab H (hd devs) t1 = (Ok (), t2)" and t2: "t_world t' = t_world t2"
    using assms(1) by (auto simp: witnessctl_main_def elim!: bindS_OkE split: if_splits)
  from det obtain w1 where "config_detect H c (t_world t) = (Ok devs, w1)"
    by (auto simp: fatal_def tryS_apply onHost_apply wrapS_apply split: prod.splits res.splits)
  from config_detect_ok [OF this] have "is_witness (hd devs)" by (cases devs) simp_all
  moreover from hab obtain w2 w3 where "read_answer H w2 = (Ok ''y'', w3)" "dev_hab H (hd devs) w3 = (Ok (), t_world t2)"
    by (auto simp: main_hab_def confirm_def fatal_def tryS_apply onHost_apply elim!: bindS_OkE
        split: if_splits prod.splits res.splits option.splits)
  ultimately show ?thesis using t2 by auto
qed

text \<open>Run without any flag, the defaults pass every check.\<close>

lemma default_config_checks:
  "check_cfg (wc_ip default_config) (wc_mask default_config) (wc_gw default_config) (wc_dns default_config) = Ok ()"
  by code_simp

text \<open>C24: the tool has no harmless default. Run without any flag against the only witness connected,
  with no applet running, it sends the configuration of the flags' defaults, and the device takes it as the
  configuration for the applet; nothing else of the device changes. Only then are the flags' descriptions
  printed.\<close>

theorem no_flags_configures:
  assumes wire: "api_wire (ce_codec V)" and link: "linked H d V"
    and det: "config_detect H default_config (t_world t) = (Ok [d], t_world t)"
    and idle: "\<not> rpc_Ctx (lc_os (t_world t))"
    and b: "b = Configuration_Bytes (ce_codec V) \<lparr>cf_DHCP = True, cf_IP = ''10.0.0.1'', cf_Netmask = ''255.255.255.0'',
        cf_Gateway = ''10.0.0.2'', cf_Resolver = ''8.8.8.8:53'', cf_NTPServer = ''time.google.com''\<rparr>" "b \<noteq> []"
  shows "\<exists>t'. witnessctl_main fuel H 0 default_config t = (Ok (), t')
    \<and> lc_os (t_world t') = (lc_os (t_world t))\<lparr>rpc_Cfg := b\<rparr> \<and> last (t_out t') = ''usage''"
proof -
  note chk = default_config_checks
  have conf: "\<not> wc_hab default_config" "\<not> wc_status default_config" "\<not> wc_consoleLogs default_config"
    "\<not> wc_crashLogs default_config" "wc_dhcp default_config" "wc_ntp default_config = ''time.google.com''"
    "wc_ip default_config = ''10.0.0.1''" "wc_mask default_config = ''255.255.255.0''"
    "wc_gw default_config = ''10.0.0.2''" "wc_dns default_config = ''8.8.8.8:53''"
    by (simp_all add: default_config_def)
  have "dev_cfg H d True (wc_ip default_config) (wc_mask default_config) (wc_gw default_config)
      (wc_dns default_config) (wc_ntp default_config) t
    = (Ok (), t\<lparr>t_world := (t_world t)\<lparr>lc_os := (lc_os (t_world t))\<lparr>rpc_Cfg := b\<rparr>\<rparr>,
        t_out := t_out t @ [''sending configuration update to armored witness'']\<rparr>)"
    using idle b(2)
    by (simp add: dev_cfg_def chk bindS_apply tryS_apply linked_commands [OF link] linked_codec [OF link] ctl_Config_def
        onOs_apply onHost_apply api_wire.dec_EmptyResponse [OF wire], simp add: conf flip: b(1))
  with det conf show ?thesis
    by (simp add: witnessctl_main_def main_cfg_def fatal_def tryS_apply bindS_apply onHost_apply wrapS_apply)
qed

text \<open>What the host sees of a device: its descriptor, and the usage page in its HID report.\<close>

definition announce :: "'d usb_device \<Rightarrow> string \<Rightarrow> DeviceInfo" where
  "announce u path = \<lparr>di_Path = path, di_VendorID = VendorId u, di_ProductID = ProductId u,
     di_UsagePage = or (push_bit 8 (ucast (hid_report u ! 2))) (ucast (hid_report u ! 1))\<rparr>"

lemma fatal_Ok: "fatal m s = (Ok x, s') \<longleftrightarrow> m s = (Ok x, s')"
  by (auto simp: fatal_def tryS_apply split: prod.splits res.splits)

lemma ctl_Start_device:
  assumes "ctl_Start L E control uart (s, u) = (Ok (Some table), (s', u'))"
  obtains u1 u2 where "configureDevice L (hex_upper (UniqueID (key_hardware E))) u = (Ok (), u1)"
    "configureHID L u1 = (Ok table, u2)" "uart u2 = (Ok (), u')" "\<exists>irq. control = Some irq \<and> irqHandler s' irq = Some ServiceControl"
  using assms
  by (auto simp: ctl_Start_def bindS_apply onUsb_def onFst_def zoomS_apply fatal_Ok
      split: prod.splits res.splits option.splits)

text \<open>Host and device agree. Whatever the USB packages do, if the control interface starts with a
  control port (and setting up the serial port leaves the identity of the device alone): the host
  tool recognises the device, the control interrupt is served, and every command the tool sends
  reaches its own handler.\<close>

lemma started_device_is_detected:
  assumes "ctl_Start L E control uart (s, u) = (Ok (Some table), (s', u'))"
    and uart: "\<And>v v'. uart v = (Ok (), v') \<Longrightarrow> VendorId v' = VendorId v \<and> ProductId v' = ProductId v
      \<and> hid_report v' = hid_report v"
  shows "is_witness (announce u' path)
    \<and> (\<exists>irq. control = Some irq \<and> irqHandler s' irq = Some ServiceControl)
    \<and> table (U2FHID_ARMORY_INF (VendorCommandFirst L)) = Some Op_Status
    \<and> table (U2FHID_ARMORY_CFG (VendorCommandFirst L)) = Some Op_Config
    \<and> table (U2FHID_ARMORY_HAB (VendorCommandFirst L)) = Some Op_HAB
    \<and> table (U2FHID_ARMORY_CONSOLE_LOGS (VendorCommandFirst L)) = Some Op_ConsoleLogs
    \<and> table (U2FHID_ARMORY_CRASH_LOGS (VendorCommandFirst L)) = Some Op_CrashLogs"
proof -
  from assms(1) obtain u1 u2 where dev: "configureDevice L (hex_upper (UniqueID (key_hardware E))) u = (Ok (), u1)"
    and hid: "configureHID L u1 = (Ok table, u2)" and ua: "uart u2 = (Ok (), u')"
    and irq: "\<exists>irq. control = Some irq \<and> irqHandler s' irq = Some ServiceControl"
    by (rule ctl_Start_device)
  note ids = configureDevice_ids [OF dev] and t = configureHID_table [OF hid] and same = uart [OF ua]
  have "hid_report u' = put_usage_page (of_nat HIDUsagePage) (hid_report u1)" using same t(2) by simp
  moreover have "length (take 1 (hid_report u1)) = 1" using t(5) by simp
  ultimately have "hid_report u' ! 1 = 0" "hid_report u' ! 2 = 0xff"
    by (simp_all add: put_usage_page_def nth_append put_le16_def HIDUsagePage_def drop_bit_eq_div)
  then have "is_witness (announce u' path)"
    using ids t(3,4) same by (simp add: is_witness_def announce_def HIDUsagePage_def push_bit_eq_mult)
  with irq t(1) show ?thesis by (simp add: hid_lookup)
qed

section \<open>A concrete host and device\<close>

definition demo_env :: "(machine, nat \<times> nat \<times> nat) ctl_env" where
  "demo_env = \<lparr>ce_codec = proto_codec,
     ce_build = \<lparr>bi_SRKHash = hex_upper demo_srk, bi_Revision = ''r1'', bi_Build = []\<rparr>,
     ce_board = demo_board\<lparr>SNVS_Available := \<lambda>_. False\<rparr>, ce_inspect = retS (), ce_taELF = [],
     ce_gzip = (\<lambda>b. b), ce_consoleLogs = replicate 1500 72\<rparr>"

definition demo_dev :: DeviceInfo where
  "demo_dev = \<lparr>di_Path = ''1-1'', di_VendorID = 0x1209, di_ProductID = 0x2702, di_UsagePage = 0xff00\<rparr>"

definition demo_host :: "(machine, nat \<times> nat \<times> nat) ctl_state hid_host" where
  "demo_host = \<lparr>hid_Devices = retS [demo_dev], u2f_Open = (\<lambda>_. retS ()),
     u2f_Command = (\<lambda>_. usb_link demo_env (map_of (hid_commands 0x40))), host_codec = proto_codec,
     host_gunzip = Ok, partial_Status = (\<lambda>_. getStatus (ce_build demo_env) demo_board demo_os),
     read_answer = retS ''y'', cmd_first = 0x40\<rparr>"

definition demo_ctl :: "(machine, nat \<times> nat \<times> nat) ctl_state" where
  "demo_ctl = \<lparr>lc_os = demo_os\<lparr>rpc_Ctx := False\<rparr>, lc_logBuffer = []\<rparr>"

definition demo_tool :: "(machine, nat \<times> nat \<times> nat) ctl_state tool" where
  "demo_tool = \<lparr>t_world = demo_ctl, t_out = []\<rparr>"

lemma demo_env_simps [simp]:
  "ce_codec demo_env = proto_codec" "ce_gzip demo_env b = b" "ce_consoleLogs demo_env = replicate 1500 72"
  "bi_SRKHash (ce_build demo_env) = hex_upper demo_srk" "\<not> SNVS_Available (ce_board demo_env) w"
  "fuse_box (ce_board demo_env) = machine_otp" "SwitchEndianness (ce_board demo_env) = rev"
  "host_gunzip demo_host b = Ok b" "Storage (ce_board demo_env) = Some machine_card"
  by (simp_all add: demo_env_def demo_host_def)

lemma demo_linked: "linked demo_host demo_dev demo_env"
  by (simp add: linked_def demo_host_def)

lemma hex_digit_val: "n < 16 \<Longrightarrow> hex_val (hex_digit n) = Some n"
  by (auto simp: hex_val_def hex_digit_def Let_def)

lemma hex_decode_upper: "hex_decode (hex_upper bs) = Ok bs"
proof (induction bs)
  case (Cons b bs)
  have "unat b < 256" using unsigned_less [of b] by simp
  then have "unat b div 16 < 16" "unat b mod 16 < 16" by simp_all
  moreover have "(word_of_nat (16 * (unat b div 16) + unat b mod 16) :: byte) = b" by simp
  ultimately show ?case using Cons by (simp add: hex_upper_def hex_digit_val)
qed (simp add: hex_upper_def)

lemma demo_activation:
  "\<exists>w. Activate (SNVS_Available (ce_board demo_env)) machine_otp rev demo_srk (world (lc_os demo_ctl)) = (Ok (), w)"
proof -
  have "m_fuses (world (lc_os demo_ctl)) = blank_fuses" by (simp add: demo_ctl_def demo_os_def)
  then have "\<exists>w. fuse_all machine_otp (hab_table (rev demo_srk)) (world (lc_os demo_ctl)) = (Ok (), w)"
    using hab_table_total [OF mf.otp_working_axioms, of "rev demo_srk" "world (lc_os demo_ctl)"] demo_srk_ok
    by (auto simp: hab_table_def fuse_field_blank)
  then show ?thesis using demo_srk_ok by (simp add: Activate_fuse_all)
qed

theorem hab_end_to_end_witness: "\<exists>c'. dev_hab demo_host demo_dev demo_ctl = (Ok (), c')"
proof -
  obtain w where "Activate (SNVS_Available (ce_board demo_env)) machine_otp rev demo_srk (world (lc_os demo_ctl)) = (Ok (), w)"
    using demo_activation by blast
  with hab_end_to_end [OF _ demo_linked, of demo_ctl] demo_srk_ok show ?thesis
    by (auto simp: proto.api_wire_axioms hex_decode_upper)
qed

lemma demo_cfg_ok: "check_cfg ''10.0.0.1'' ''255.255.255.0'' ''10.0.0.2'' ''8.8.8.8:53'' = Ok ()"
  by code_simp

theorem cfg_end_to_end_witness:
  "(\<exists>t' s'. dev_cfg demo_host demo_dev False ''10.0.0.1'' ''255.255.255.0'' ''10.0.0.2'' ''8.8.8.8:53'' [] demo_tool = (Ok (), t')
      \<and> RPC_Config (ce_board demo_env) [7] True (lc_os (t_world t')) = (Ok (Some (Configuration_Bytes proto_codec
          \<lparr>cf_DHCP = False, cf_IP = ''10.0.0.1'', cf_Netmask = ''255.255.255.0'', cf_Gateway = ''10.0.0.2'',
            cf_Resolver = ''8.8.8.8:53'', cf_NTPServer = []\<rparr>)), s'))
    \<and> fst (dev_cfg demo_host demo_dev False ''10.0.0.1'' ''255.255.255.0'' ''10.0.0.2'' ''8.8.8.8:53'' []
        \<lparr>t_world = demo_ctl\<lparr>lc_os := demo_os\<rparr>, t_out = []\<rparr>) = Ok ()"
proof -
  have off: "\<not> rpc_Ctx (lc_os (t_world demo_tool))" by (simp add: demo_tool_def demo_ctl_def)
  have ne: "Configuration_Bytes proto_codec \<lparr>cf_DHCP = False, cf_IP = ''10.0.0.1'', cf_Netmask = ''255.255.255.0'',
      cf_Gateway = ''10.0.0.2'', cf_Resolver = ''8.8.8.8:53'', cf_NTPServer = []\<rparr> \<noteq> []"
    by (rule Configuration_Bytes_nonempty) (simp_all add: is_ascii_def)
  have B: "\<not> debug (ce_board demo_env)" "ELF_Load (ce_board demo_env) b w = (Ok 0x90010000, w)"
    "Monitor_Load (ce_board demo_env) n w = (Ok (demo_ctx\<lparr>ctx_R15 := n\<rparr>), w)" "Ctx_Run (ce_board demo_env) s = (Ok (), s)" for b n w s
    by (simp_all add: demo_env_def) (simp_all add: demo_board_def)
  note T = cfg_end_to_end [OF _ demo_linked refl _ B(1), of False "''10.0.0.1''" "''255.255.255.0''" "''10.0.0.2''" "''8.8.8.8:53''" "[]"]
  note T1 = T [of demo_tool "[7]"]
  note T2 = T [of "\<lparr>t_world = demo_ctl\<lparr>lc_os := demo_os\<rparr>, t_out = []\<rparr>" "[7]" "0x90010000" "world demo_os"
      "demo_ctx\<lparr>ctx_R15 := 0x90010000\<rparr>" "world demo_os", THEN conjunct2, THEN conjunct1]
  from T1 off ne demo_cfg_ok have "\<exists>t' s'. dev_cfg demo_host demo_dev False ''10.0.0.1'' ''255.255.255.0'' ''10.0.0.2'' ''8.8.8.8:53'' []
        demo_tool = (Ok (), t') \<and> RPC_Config (ce_board demo_env) [7] True (lc_os (t_world t')) = (Ok (Some (Configuration_Bytes proto_codec
          \<lparr>cf_DHCP = False, cf_IP = ''10.0.0.1'', cf_Netmask = ''255.255.255.0'', cf_Gateway = ''10.0.0.2'',
            cf_Resolver = ''8.8.8.8:53'', cf_NTPServer = []\<rparr>)), s')"
    by (simp add: proto.api_wire_axioms)
  moreover from T2 ne demo_cfg_ok B(2-4) have "fst (dev_cfg demo_host demo_dev False ''10.0.0.1'' ''255.255.255.0'' ''10.0.0.2'' ''8.8.8.8:53'' []
        \<lparr>t_world = demo_ctl\<lparr>lc_os := demo_os\<rparr>, t_out = []\<rparr>) = Ok ()"
    by (auto simp: proto.api_wire_axioms)
  ultimately show ?thesis by blast
qed

lemma demo_status_ascii:
  "list_all is_ascii (status_texts (getStatus (ce_build demo_env) (ce_board demo_env) (lc_os demo_ctl)))"
  by code_simp

lemma status_end_to_end_example:
  "\<exists>st. dev_status demo_host demo_dev demo_ctl = (Ok (Some st, None), demo_ctl) \<and> st_Revision st = ''r1''"
  using status_end_to_end [OF _ demo_linked demo_status_ascii]
  by (simp add: proto.api_wire_axioms getStatus_def demo_env_def)

lemma demo_crash_source: "\<exists>b s'. crash_log_source (ce_board demo_env) s = (Ok b, s')"
  by (auto simp: crash_log_source_def tryS_apply onWorld_apply machine_card_def retrieveLastCrashLog_def
      bindS_apply on_card_def zoomS_apply fake_Read_def fakeCardBlockSize_def crashLogBlock_def expectedBlockSize_def
      Let_def split: prod.splits res.splits)

text \<open>A log of two chunks.\<close>

theorem logs_end_to_end_witness:
  "dev_consoleLogs 4 demo_host demo_dev demo_ctl = (Ok (replicate 1500 (CHR ''H''), None), demo_ctl)"
proof -
  have "string_of_bytes (replicate 1500 72) = replicate 1500 (CHR ''H'')"
    by (simp add: string_of_bytes_def char_of_byte_def char_of_def bit_0)
  with logs_end_to_end [OF _ demo_linked _ demo_crash_source, where fuel = 4 and c = demo_ctl] show ?thesis
    by (simp add: proto.api_wire_axioms) (simp add: demo_ctl_def)
qed

lemma demo_detect: "config_detect demo_host c w = (Ok [demo_dev], w)"
proof -
  have "is_witness demo_dev"
    by (simp add: is_witness_def demo_dev_def HIDUsagePage_def VendorID_def ProductID_def)
  then show ?thesis
    by (simp add: config_detect_def detect_def demo_host_def bindS_apply wrapS_apply)
qed

theorem hab_needs_confirmation_witness:
  "\<exists>t' d w1 w2. witnessctl_main 3 demo_host 1 (default_config\<lparr>wc_hab := True\<rparr>) demo_tool = (Ok (), t')
    \<and> is_witness d \<and> read_answer demo_host w1 = (Ok ''y'', w2) \<and> dev_hab demo_host d w2 = (Ok (), t_world t')"
proof -
  obtain w where w: "Activate (SNVS_Available (ce_board demo_env)) machine_otp rev demo_srk (world (lc_os demo_ctl)) = (Ok (), w)"
    using demo_activation by blast
  have "ctl_handle demo_env Op_HAB [] demo_ctl = (Ok (EmptyResponse proto_codec), demo_ctl\<lparr>lc_os := (lc_os demo_ctl)\<lparr>world := w\<rparr>\<rparr>)"
    using w demo_srk_ok by (simp add: ctl_HAB_def tryS_apply hex_decode_upper sha256_Size_def onOs_apply onWorld_apply)
  then have hab: "\<exists>c. dev_hab demo_host demo_dev demo_ctl = (Ok (), c)"
    by (simp add: dev_hab_def bindS_apply linked_commands [OF demo_linked] linked_codec [OF demo_linked]
        proto.dec_EmptyResponse)
  have st: "\<exists>st. dev_status demo_host demo_dev demo_ctl = (Ok (Some st, None), demo_ctl)"
    using proto.status_law demo_status_ascii
    by (simp add: dev_status_def tryS_apply linked_commands [OF demo_linked] linked_codec [OF demo_linked]
        ctl_Status_def list_all_iff)
  have ans: "read_answer demo_host w = (Ok ''y'', w)" for w by (simp add: demo_host_def)
  from hab st ans have "\<exists>t'. witnessctl_main 3 demo_host 1 (default_config\<lparr>wc_hab := True\<rparr>) demo_tool = (Ok (), t')"
    by (auto simp: witnessctl_main_def main_hab_def confirm_def fatal_def tryS_apply bindS_apply onHost_apply wrapS_apply
        demo_detect demo_tool_def split: option.split)
  then obtain t' where run: "witnessctl_main 3 demo_host 1 (default_config\<lparr>wc_hab := True\<rparr>) demo_tool = (Ok (), t')"
    by blast
  from hab_needs_confirmation [OF _ run] run show ?thesis by (simp add: default_config_def)
qed

theorem no_flags_configures_witness:
  "\<exists>t'. witnessctl_main 3 demo_host 0 default_config demo_tool = (Ok (), t')
    \<and> rpc_Cfg (lc_os (t_world t')) = Configuration_Bytes proto_codec \<lparr>cf_DHCP = True, cf_IP = ''10.0.0.1'',
        cf_Netmask = ''255.255.255.0'', cf_Gateway = ''10.0.0.2'', cf_Resolver = ''8.8.8.8:53'', cf_NTPServer = ''time.google.com''\<rparr>
    \<and> last (t_out t') = ''usage''"
proof -
  let ?b = "Configuration_Bytes proto_codec \<lparr>cf_DHCP = True, cf_IP = ''10.0.0.1'', cf_Netmask = ''255.255.255.0'',
        cf_Gateway = ''10.0.0.2'', cf_Resolver = ''8.8.8.8:53'', cf_NTPServer = ''time.google.com''\<rparr>"
  have b: "?b \<noteq> []" by (rule Configuration_Bytes_nonempty) (simp_all add: is_ascii_def)
  have "\<not> rpc_Ctx (lc_os (t_world demo_tool))" by (simp add: demo_tool_def demo_ctl_def)
  from no_flags_configures [OF _ demo_linked demo_detect this refl, of 3] b
  show ?thesis by (auto simp: proto.api_wire_axioms)
qed

text \<open>A USB stack that accepts everything, and a device before its set-up.\<close>

definition demo_usb :: "unit usb_stack" where
  "demo_usb = \<lparr>AddString = (\<lambda>_ d. (1, d)), AddConfiguration = retS (), num_configurations = (\<lambda>_. 1),
     NewHandler = retS (), ConfigureUSB = retS (), rename_interface = (\<lambda>_ d. d), set_endpoints = (\<lambda>_ _ d. d),
     AddMapping_ok = (\<lambda>c. 0x40 \<le> c \<and> c < 0x80), VendorCommandFirst = 0x40\<rparr>"

definition blank_usb :: "unit usb_device" where
  "blank_usb = \<lparr>LanguageCodes = [], DeviceClass = 0, DeviceSubClass = 0, DeviceProtocol = 0, VendorId = 0, ProductId = 0,
     DeviceRelease = 0, ManufacturerIdx = 0, ProductIdx = 0, SerialNumberIdx = 0, QualifierConfigurations = 0,
     hid_report = [6, 0xd0, 0xf1, 9], dev_rest = ()\<rparr>"

lemma started_device_is_detected_example:
  "\<exists>table s' u'. ctl_Start demo_usb demo_board (Some 76) (retS ()) (demo_os, blank_usb) = (Ok (Some table), (s', u'))
    \<and> is_witness (announce u' ''1-1'') \<and> table 0x43 = Some Op_HAB"
proof -
  have "\<exists>table s' u'. ctl_Start demo_usb demo_board (Some 76) (retS ()) (demo_os, blank_usb) = (Ok (Some table), (s', u'))"
    by (simp add: ctl_Start_def bindS_apply onUsb_def onFst_def zoomS_apply fatal_def tryS_apply configureDevice_def
        add_string_apply onRest_apply configureHID_def hid_lookup demo_usb_def blank_usb_def)
  then obtain table s' u' where
    run: "ctl_Start demo_usb demo_board (Some 76) (retS ()) (demo_os, blank_usb) = (Ok (Some table), (s', u'))" by blast
  from started_device_is_detected [OF run, of "''1-1''"] run show ?thesis
    by (auto simp: U2FHID_ARMORY_HAB_def VendorCommand_def demo_usb_def)
qed

end
