(* ===== verification/System.thy ===== *)
theory System
  imports Applet_Requests Boot Usb_Link
begin

text \<open>
  The device as a whole: \<open>main\<close> of \<open>src/trusted_os/main.go\<close> from power-up to the point where it only
  serves interrupts, and the life of the device after it as a sequence of events, each handled by the
  definition that models the code run for it: a start of an OS image, a round of the applet goroutine, a
  request of the applet, an exception it raises, an interrupt while the OS runs, a packet on the network, a
  message of the host.
  The applet's own execution is represented by its requests and exceptions. An OS that panics or calls
  \<open>log.Fatal\<close> stays down until the next start.
\<close>

section \<open>Main\<close>

text \<open>The choice of the storage device (\<open>src/trusted_os/storage.go\<close>, and
  \<open>src/trusted_os/storage_debug.go\<close> for builds with the tag \<open>fake_storage\<close>).\<close>

datatype storage_device = MMC_card | Fake_card

definition storage :: storage_device where "storage = MMC_card"

definition storage_fake :: "bool \<Rightarrow> storage_device" where
  "storage_fake native = (if native then MMC_card else Fake_card)"

text \<open>The hardware calls of \<open>init\<close>, in their order, and the fuse timeout \<open>main\<close> sets first. \<open>dcp\<close> and
  \<open>ocotp\<close> tell whether the board has these devices, \<open>dbg\<close> is the constant of the build; a debug build
  waits for the accessory.\<close>

datatype setup_call = SetARMFreq_call nat | DCP_Init | Port_Init port | AwaitDebugAccessory | GIC_Init bool bool

definition init_hardware :: "bool \<Rightarrow> bool \<Rightarrow> bool \<Rightarrow> board_model option \<Rightarrow> setup_call list" where
  "init_hardware native dcp dbg model =
     (if native then
        SetARMFreq_call 528 # (if dcp then [DCP_Init] else [])
        @ (case model of
             Some LAN_model \<Rightarrow> [Port_Init ENET2, Port_Init USB1]
           | Some _ \<Rightarrow> [Port_Init USB1, Port_Init USB2] @ (if dbg then [AwaitDebugAccessory] else [])
           | None \<Rightarrow> [])
      else [Port_Init ENET1]) @ [GIC_Init True False]"

definition fuse_timeout :: "bool \<Rightarrow> bool \<Rightarrow> nat \<Rightarrow> nat" where
  "fuse_timeout native ocotp t = (if native \<and> ocotp then 100 else t)"

text \<open>Exactly the ports that are assigned to an interface are initialised, each once, and all of it
  happens before the interrupt controller is set up, which is last.\<close>

lemma init_hardware_ports:
  "Port_Init p \<in> set (init_hardware native dcp dbg model) \<longleftrightarrow>
     Some p \<in> {if_USB (init_interfaces native model), if_LAN (init_interfaces native model), if_Control (init_interfaces native model)}"
  "distinct (init_hardware native dcp dbg model)" "last (init_hardware native dcp dbg model) = GIC_Init True False"
  by (auto simp: init_hardware_def init_interfaces_def Let_def split: option.split board_model.split)

definition os_main :: "'d usb_stack \<Rightarrow> ('d usb_device, unit) io \<Rightarrow> int option \<Rightarrow> ('w, 'v) board \<Rightarrow> 'v os_image
    \<Rightarrow> (('w, 'v) os \<times> 'd usb_device, Bundle option \<times> (nat \<rightharpoonup> ctl_op) option) io" where
  "os_main L configureUART control E I =
     bindS (onFst (boot_prepare E I)) (\<lambda>_.
     bindS (onFst (select_applet E I)) (\<lambda>ta.
     if Native E
     then bindS (ctl_Start L E control configureUART) (\<lambda>table. retS (ta, table))
     else retS (ta, None)))"

text \<open>The goroutine that blinks the white LED every half second, for the first \<open>n\<close> rounds, and the one
  that blinks it while \<open>flashFirmware\<close> writes, which sees its channel closed after \<open>n\<close> rounds.\<close>

fun heartbeat :: "nat \<Rightarrow> bool \<Rightarrow> (string \<times> bool) list" where
  "heartbeat 0 l = []"
| "heartbeat (Suc n) l = (''white'', l) # heartbeat n (\<not> l)"

fun blink :: "nat \<Rightarrow> bool \<Rightarrow> (string \<times> bool) list" where
  "blink 0 on = [(''white'', False)]"
| "blink (Suc n) on = (''white'', \<not> on) # blink n (\<not> on)"

definition blinkenLights :: "nat \<Rightarrow> (string \<times> bool) list" where
  "blinkenLights n = blink n False"

lemma blinkenLights_ends_off: "last (blinkenLights n) = (''white'', False) \<and> length (blinkenLights n) = n + 1"
proof -
  have len: "length (blink n on) = n + 1" for n on by (induction n arbitrary: on) auto
  then have ne: "blink n on \<noteq> []" for n on by (metis add_is_0 length_0_conv one_neq_zero)
  have "last (blink n on) = (''white'', False)" for on by (induction n arbitrary: on) (auto simp: ne)
  with len show ?thesis by (simp add: blinkenLights_def)
qed

lemma heartbeat_alternates: "i < n \<Longrightarrow> heartbeat n l ! i = (''white'', l \<noteq> odd i)"
proof (induction n arbitrary: l i)
  case (Suc n)
  then show ?case by (cases i) auto
qed simp

section \<open>Events\<close>

text \<open>What the network does: a frame arrives in the ring of the Ethernet interface, or the USB driver calls
  the functions \<open>nic.Rx\<close> and \<open>nic.Tx\<close> that \<open>netStartUSB\<close> installs.\<close>

datatype net_event = LAN_frame bytes | USB_rx bytes | USB_tx

fun net_io :: "net_event \<Rightarrow> ('w, 'v, unit) osio" where
  "net_io (LAN_frame p) = modifyS (\<lambda>s. s\<lparr>lan_ring := lan_ring s @ [p]\<rparr>)"
| "net_io (USB_rx p) = asyncRx p"
| "net_io USB_tx = bindS asyncTx (\<lambda>_. retS ())"

datatype 'v sys_event =
    Sys_Boot "'v os_image"
  | Sys_Round
  | Sys_Request request
  | Sys_Exception ExecCtx
  | Sys_Interrupt
  | Sys_Net net_event
  | Sys_Control nat bytes

text \<open>What the device consists of besides its state: the environment of the control interface with the
  board, the RPC receiver's, the USB stack, its port and the device before set-up, whether \<open>newRPMB\<close>
  finds an MMC card, and Go's zero value of a version.\<close>

record ('w, 'v, 'd) sys_env =
  se_ctl :: "('w, 'v) ctl_env"
  se_rpc :: rpc_env
  se_stack :: "'d usb_stack"
  se_uart :: "('d usb_device, unit) io"
  se_port :: "int option"
  se_device :: "'d usb_device"
  se_usdhc :: bool
  se_version0 :: 'v

abbreviation se_board :: "('w, 'v, 'd) sys_env \<Rightarrow> ('w, 'v) board" where
  "se_board N \<equiv> ce_board (se_ctl N)"

record ('w, 'v) sys =
  sys_ctl :: "('w, 'v) ctl_state"
  sys_up :: bool
  sys_image :: "'v os_image option"
  sys_applet :: "Bundle option"
  sys_table :: "(nat \<rightharpoonup> ctl_op) option"

abbreviation sys_os :: "('w, 'v) sys \<Rightarrow> ('w, 'v) os" where
  "sys_os y \<equiv> lc_os (sys_ctl y)"

text \<open>A start initialises the package variables; the medium, the replay protected block, the fuses and
  the other devices are in the world and stay.\<close>

definition restart :: "('w, 'v, 'd) sys_env \<Rightarrow> ('w, 'v) os \<Rightarrow> ('w, 'v) os" where
  "restart N s = s\<lparr>appletLoadedFromBlock := 0, osLoadedFromBlock := 0, rpmb_is_usdhc := se_usdhc N,
     rpmb_partition := None, rpc_Cfg := [], rpc_Ctx := False, rxQueue := None, txQueue := None, lan_ring := [],
     stdout_buf := [], irqHandler := Map.empty, appletHandlerG := 0, appletHandlerP := 0, wHandler := None,
     osFirmwareBuffer := [], appletFirmwareBuffer := [], witnessStatus := None,
     osVersion := se_version0 N, loadedAppletVersion := se_version0 N\<rparr>"

fun halted :: "'a res \<Rightarrow> bool" where
  "halted (Halt m) = True"
| "halted r = False"

text \<open>Code of the running OS: a panic takes it down.\<close>

definition while_up :: "('w, 'v, 'a) ctlio \<Rightarrow> ('w, 'v) sys \<Rightarrow> ('w, 'v) sys" where
  "while_up m y = (if sys_up y
     then (case m (sys_ctl y) of (r, c) \<Rightarrow> y\<lparr>sys_ctl := c, sys_up := \<not> halted r\<rparr>) else y)"

definition raise_exception :: "('w, 'v) board \<Rightarrow> ExecCtx \<Rightarrow> ('w, 'v, unit) osio" where
  "raise_exception E c = bindS (modifyS (\<lambda>s. s\<lparr>ectx := c\<rparr>)) (\<lambda>_. handler E)"

fun sys_step :: "('w, 'v, 'd) sys_env \<Rightarrow> 'v sys_event \<Rightarrow> ('w, 'v) sys \<Rightarrow> ('w, 'v) sys" where
  "sys_step N (Sys_Boot I) y =
     (case os_main (se_stack N) (se_uart N) (se_port N) (se_board N) I (restart N (sys_os y), se_device N) of
        (r, (s, _)) \<Rightarrow> \<lparr>sys_ctl = \<lparr>lc_os = s, lc_logBuffer = []\<rparr>, sys_up = is_Ok r, sys_image = Some I,
          sys_applet = (case r of Ok (ta, _) \<Rightarrow> ta | _ \<Rightarrow> None), sys_table = (case r of Ok (_, t) \<Rightarrow> t | _ \<Rightarrow> None)\<rparr>)"
| "sys_step N Sys_Round y = (case (sys_image y, sys_applet y) of
     (Some I, Some ta) \<Rightarrow> while_up (onOs (applet_round (se_board N) I (ce_inspect (se_ctl N)) (ce_consoleLogs (se_ctl N)) ta)) y
   | _ \<Rightarrow> y)"
| "sys_step N (Sys_Request r) y = while_up (onOs (serve (se_board N) (se_rpc N) r)) y"
| "sys_step N (Sys_Exception c) y = while_up (onOs (raise_exception (se_board N) c)) y"
| "sys_step N Sys_Interrupt y = while_up (onOs (isr (se_board N))) y"
| "sys_step N (Sys_Net p) y = while_up (onOs (net_io p)) y"
| "sys_step N (Sys_Control cmd req) y = (case sys_table y of
     Some t \<Rightarrow> (case t cmd of Some x \<Rightarrow> while_up (ctl_handle (se_ctl N) x req) y | None \<Rightarrow> y)
   | None \<Rightarrow> y)"

text \<open>The states after each event.\<close>

fun sys_run :: "('w, 'v, 'd) sys_env \<Rightarrow> 'v sys_event list \<Rightarrow> ('w, 'v) sys \<Rightarrow> ('w, 'v) sys list" where
  "sys_run N [] y = []"
| "sys_run N (e # es) y = sys_step N e y # sys_run N es (sys_step N e y)"

lemma length_sys_run [simp]: "length (sys_run N es y) = length es"
  by (induction es arbitrary: y) simp_all

lemma leaves_onDev_partition: "leaves partition (onDev m)"
  by (auto simp: leaves_def onDev_apply split: prod.split)

lemma leaves_check: "leaves partition (checkVersion hw sv x str)"
  unfolding checkVersion_def check_version_def expectedVersion_def updateVersion_def
  by (auto simp: Let_def intro!: keeps_rules leaves_onDev_partition split: option.split)

lemma leaves_transfer: "leaves partition (rb_transfer hw x b n wr)"
  unfolding rb_transfer_def
  by (auto intro!: keeps_rules leaves_onDev_partition split: option.split sum.split)

lemma leaves_onRPMB: "leaves partition m \<Longrightarrow> leaves rpmb_partition (onRPMB m)"
  by (auto simp: leaves_def onRPMB_apply split: prod.split) (metis rb_state.select_convs(3) snd_conv)

section \<open>A board whose other devices stay away from the replay protected block\<close>

text \<open>Secured hardware with the program key flag blown, whose devices, monitor and applet execution do
  not reach the replay protected block except through the requests of the sequence. \<open>dk\<close> is the key the
  hardware derives.\<close>

locale isolated_system = isolated_board "ce_board (se_ctl N)" dkey dctr dmem
  for N :: "('w, 'v, 'd) sys_env" and dkey dctr dmem +
  fixes dk :: bytes
  assumes secured: "Native (se_board N)" "SNVS_Available (se_board N) w" "hw_MMC (rpmb_driver (se_board N)) w" "se_usdhc N"
    and derive_law: "derive_key (key_hardware (se_board N)) t = (Ok dk, t)"
    and flag_law: "ReadOCOTP (fuse_box (se_board N)) rpmbFuseBank rpmbFuseWord 0 1 w = (Ok [1], w)"
    and key_length: "length (pbkdf2_Key (key_hardware (se_board N)) dk (UniqueID (key_hardware (se_board N))) iter 32) = 32"
    and detect_leaves: "Storage (se_board N) = Some C \<Longrightarrow> leaves (\<lambda>w. (dkey w, dctr w, dmem w)) (card_Detect C)"
    and stdout_leaves: "leaves (\<lambda>w. (dkey w, dctr w, dmem w)) (Stdout_Write (se_board N) b)"
    and freq_leaves: "leaves (\<lambda>w. (dkey w, dctr w, dmem w)) (SetARMFreq (se_board N) f)"
    and irq_leaves: "leaves (\<lambda>w. (dkey w, dctr w, dmem w)) (GetInterrupt (se_board N))"
    and elf_leaves: "leaves (\<lambda>w. (dkey w, dctr w, dmem w)) (ELF_Load (se_board N) elf)"
    and load_leaves: "leaves (\<lambda>w. (dkey w, dctr w, dmem w)) (Monitor_Load (se_board N) entry)"
    and secure_leaves: "leaves (\<lambda>s. ((dkey (world s), dctr (world s), dmem (world s)), rpmb_partition s)) (SecureHandler (se_board N))"
    and run_leaves: "leaves (\<lambda>s. ((dkey (world s), dctr (world s), dmem (world s)), rpmb_partition s)) (Ctx_Run (se_board N))"
    and inspect_leaves: "leaves (\<lambda>s. ((dkey (world s), dctr (world s), dmem (world s)), rpmb_partition s)) (ce_inspect (se_ctl N))"
begin

abbreviation "E \<equiv> se_board N"

abbreviation "k0 \<equiv> pbkdf2_Key (key_hardware E) dk (UniqueID (key_hardware E)) iter 32"

lemmas leaves_more = detect_leaves [folded rview_def] stdout_leaves [folded rview_def] freq_leaves [folded rview_def]
  irq_leaves [folded rview_def] elf_leaves [folded rview_def] load_leaves [folded rview_def]
  secure_leaves [folded rview_def, folded sview_def] run_leaves [folded rview_def, folded sview_def]
  inspect_leaves [folded rview_def, folded sview_def]

lemma sview_more [simp]:
  "sview (s\<lparr>ectx := c\<rparr>) = sview s" "sview (s\<lparr>lan_ring := l\<rparr>) = sview s" "sview (s\<lparr>lan_sent := l\<rparr>) = sview s"
  "sview (s\<lparr>rpc_Ctx := b\<rparr>) = sview s" "sview (s\<lparr>wHandler := h\<rparr>) = sview s" "sview (s\<lparr>osVersion := v\<rparr>) = sview s"
  "sview (s\<lparr>loadedAppletVersion := v\<rparr>) = sview s" "sview (s\<lparr>stdout_buf := b1\<rparr>) = sview s"
  "sview (s\<lparr>osLoadedFromBlock := n\<rparr>) = sview s" "sview (s\<lparr>appletLoadedFromBlock := n\<rparr>) = sview s"
  by (simp_all add: sview_def)

subsection \<open>Interrupts and exceptions\<close>

lemma leaves_onCtx: "leaves sview (onCtx f)"
  by (auto simp: onCtx_def intro!: keeps_rules)

lemma leaves_asyncRx_sview: "leaves sview (asyncRx p)"
  by (auto simp: asyncRx_def intro!: leaves_modifyS split: option.split)

lemma leaves_receiveLAN_sview: "leaves sview (receiveLAN ring)"
  by (induction ring) (simp add: leaves_def, auto intro!: keeps_rules leaves_asyncRx_sview)

lemma leaves_send_tx: "leaves sview (send_tx b)"
  by (auto simp: leaves_def send_tx_def split: option.split)

lemma leaves_net_io: "leaves sview (net_io p)"
proof (cases p)
  case (USB_rx b)
  then show ?thesis using leaves_asyncRx_sview by simp
qed (auto simp: leaves_def asyncTx_def bindS_apply split: option.split list.split)

lemma leaves_isr_sview: "leaves sview (isr E)"
  unfolding isr_def run_irq_def
  by (auto intro!: keeps_rules leaves_world leaves_more leaves_receiveLAN_sview split: option.split irq_action.split)

lemma leaves_onStdout: "leaves sview (onStdout (bufferedStdoutLog (Stdout_Write E) b))"
proof -
  have "rview (snd (Stdout_Write E b w)) = rview w" for b w using leaves_more(2) [of b] by (simp add: leaves_def)
  then have "leaves (\<lambda>t. rview (out_dev t)) (zoomS out_dev (\<lambda>w s. s\<lparr>out_dev := w\<rparr>) (Stdout_Write E b))" for b
    by (auto simp: leaves_def zoomS_apply split: prod.split) (metis snd_conv)
  then have "leaves (\<lambda>t. rview (out_dev t)) (bufferedStdoutLog (Stdout_Write E) b)"
    unfolding bufferedStdoutLog_def by (auto intro!: keeps_rules split: sum.split)
  then show ?thesis
    by (auto simp: leaves_def onStdout_def zoomS_apply sview_def split: prod.splits) (metis snd_conv stdout_state.select_convs(1))
qed

lemma leaves_handler: "leaves sview (handler E)"
  unfolding handler_def fiqHandler_def rxFromApplet_def txFromApplet_def
  by (auto simp: Let_def intro!: keeps_rules leaves_world leaves_more leaves_isr_sview leaves_onStdout leaves_onCtx leaves_send_tx
      split: option.split list.split)


subsection \<open>Control messages and the applet goroutine\<close>

lemma leaves_onOs: "leaves sview m \<Longrightarrow> leaves (\<lambda>c. sview (lc_os c)) (onOs m)"
  by (auto simp: leaves_def onOs_apply split: prod.split) (metis snd_conv)

lemma leaves_loadApplet: "leaves sview (loadApplet E (ce_inspect (se_ctl N)) elf)"
  unfolding loadApplet_def run_applet_def
  by (auto intro!: keeps_rules leaves_world leaves_more split: sum.split)

lemma leaves_crash_source: "leaves sview (crash_log_source E)"
  unfolding crash_log_source_def retrieveLastCrashLog_def
  by (auto simp: Let_def intro!: keeps_rules leaves_world leaves_devices split: option.split sum.split)

lemma leaves_serve_logs: "leaves sview src \<Longrightarrow> leaves (\<lambda>c. sview (lc_os c)) (serve_logs K gzip src r)"
  unfolding serve_logs_def
  by (auto intro!: keeps_rules leaves_onOs, auto simp: leaves_def handleLogsRequest_def Let_def
      split: prod.split res.split)

lemma leaves_ctl_handle: "leaves (\<lambda>c. sview (lc_os c)) (ctl_handle (se_ctl N) x req)"
proof (cases x)
  case Op_Config
  then show ?thesis
    by (auto simp: ctl_Config_def intro!: keeps_rules leaves_onOs leaves_loadApplet split: option.split)
next
  case Op_HAB
  then show ?thesis
    by (auto simp: ctl_HAB_def intro!: keeps_rules leaves_onOs leaves_world leaves_hab split: sum.split)
qed (auto simp: ctl_Status_def ctl_ConsoleLogs_def ctl_CrashLogs_def intro!: keeps_rules leaves_serve_logs leaves_crash_source)

lemma leaves_applet_round: "leaves sview (applet_round E I (ce_inspect (se_ctl N)) logs ta)"
  unfolding applet_round_def configureWakeHandler_def storeAppletCrashLog_def
  by (auto simp: Let_def intro!: keeps_rules leaves_world leaves_devices leaves_loadApplet split: option.split prod.split)


subsection \<open>Start-up\<close>

definition pview :: "('w, 'v) os \<Rightarrow> (bytes option \<times> 32 word \<times> (16 word \<Rightarrow> bytes)) \<times> bool" where
  "pview s = (rview (world s), rpmb_is_usdhc s)"

lemma leaves_world_pview: "leaves rview m \<Longrightarrow> leaves pview (onWorld m)"
  by (auto simp: leaves_def pview_def onWorld_apply split: prod.split) (metis snd_conv)

lemma leaves_power_up: "leaves pview (power_up E)"
proof -
  have "leaves pview (modifyS (\<lambda>s. s\<lparr>rpmb_partition := None, rpc_Cfg := [], rpc_Ctx := False\<rparr>))"
    by (rule leaves_modifyS) (simp add: pview_def)
  moreover have "leaves pview (detect_storage E)"
    unfolding detect_storage_def fatalS_def
    by (auto intro!: keeps_rules leaves_world_pview leaves_more split: option.split sum.split)
  ultimately show ?thesis
    unfolding power_up_def led_off_def by (intro leaves_bindS leaves_tryS leaves_world_pview leaves_devices leaves_retS)
qed

definition os_epoch :: "('w, 'v) os \<Rightarrow> 'v res" where
  "os_epoch s = rb_stored (semvers E) dmem (rb_of s) osVersionSector"

abbreviation "room s \<equiv> rb_room dctr (rb_of s)"

text \<open>What a start does to the recorded OS version \<open>e\<close>: at most two writes are spent, the version does not
  go back, and if the start succeeds (\<open>ok\<close>) its version is not older than \<open>e\<close> and the new record is not
  older than it.\<close>

definition boot_result :: "'v \<Rightarrow> string \<Rightarrow> bool \<Rightarrow> ('w, 'v) os \<Rightarrow> ('w, 'v) os \<Rightarrow> bool" where
  "boot_result e ver ok s s' \<longleftrightarrow> dkey (world s') = Some k0 \<and> room s \<le> room s' + 2
     \<and> (\<exists>e'. os_epoch s' = Ok e' \<and> \<not> LessThan (semvers E) e' e)
     \<and> (ok \<longrightarrow> rb_ready dkey (rb_of s') \<and> (\<exists>v e'. NewVersion (semvers E) ver = Ok v \<and> \<not> LessThan (semvers E) v e
          \<and> os_epoch s' = Ok e' \<and> \<not> LessThan (semvers E) e' v))"

lemma boot_result_sview:
  "boot_result e ver ok s s' \<Longrightarrow> sview s'' = sview s' \<Longrightarrow> (ok' \<Longrightarrow> ok) \<Longrightarrow> boot_result e ver ok' s s''"
  by (auto simp: boot_result_def sview_def rview_def os_epoch_def rb_of_def rb_stored_def rb_room_def rb_ready_def)

lemma boot_result_pview: "pview s1 = pview s \<Longrightarrow> boot_result e ver ok s1 s' = boot_result e ver ok s s'"
  by (simp add: boot_result_def pview_def rview_def rb_of_def rb_room_def)

lemma rollback_checks_outcome:
  assumes key: "dkey (world s) = Some k0" and "rpmb_is_usdhc s" and room: "2 \<le> room s" and e: "os_epoch s = Ok e"
    and st: "\<And>v. NewVersion (semvers E) ver = Ok v \<Longrightarrow> rb_storable (semvers E) v"
    and run: "rollback_checks E ver s = (r, s')"
  shows "boot_result e ver (is_Ok r) s s'"
    and "NewVersion (semvers E) ver = Ok v \<Longrightarrow> \<not> LessThan (semvers E) v e \<Longrightarrow> is_Ok r"
proof -
  let ?hw = "rpmb_driver E" and ?sv = "semvers E"
  have ctr: "dctr (world s) \<noteq> -1" using room by (auto simp: rb_room_def rb_of_def)
  obtain r1 where r1: "init_rpmb (key_hardware E) (fuse_box E) ?hw (rb_of s) = (Ok (), r1)"
      "partition r1 = Some \<lparr>key = k0, init = True\<rparr>"
      "dkey (rb_dev r1) = Some k0" "dctr (rb_dev r1) = dctr (world s) + 1" "is_usdhc r1"
      "dmem (rb_dev r1) osVersionSector = dmem (world s) osVersionSector"
    using init_rpmb_programmed [OF rpmb_device_axioms derive_law flag_law refl key_length, of "rb_of s"] secured key ctr assms(2)
    by (auto simp: dummySector_def osVersionSector_def rb_of_def)
  define s1 where "s1 = s\<lparr>world := rb_dev r1, rpmb_partition := partition r1\<rparr>"
  have init: "onRPMB (init_rpmb (key_hardware E) (fuse_box E) ?hw) s = (Ok (), s1)"
    using r1(1) by (simp add: onRPMB_apply s1_def rb_of_def)
  have ready: "rb_ready dkey (rb_of s1)" using r1(2,3) by (simp add: rb_ready_def s1_def rb_of_def)
  have "unat (- 1 - dctr (world s) - 1) = unat (- 1 - dctr (world s)) - 1"
    using ctr by (intro unat_minus_one) (metis eq_iff_diff_eq_0)
  moreover have "- 1 - dctr (rb_dev r1) = - 1 - dctr (world s) - 1" using r1(4) by simp
  ultimately have "unat (- 1 - dctr (rb_dev r1)) = unat (- 1 - dctr (world s)) - 1" by metis
  then have room1: "room s = Suc (room s1)" using room by (simp add: rb_room_def rb_of_def s1_def)
  have e1: "rb_stored ?sv dmem (rb_of s1) osVersionSector = Ok e"
    using e r1(6) by (simp add: os_epoch_def rb_stored_def s1_def rb_of_def)
  obtain q t where chk: "checkVersion ?hw ?sv osVersionSector ver (rb_of s1) = (q, t)"
    by (cases "checkVersion ?hw ?sv osVersionSector ver (rb_of s1)")
  have pos: "0 < room s1" using room room1 by simp
  note C = check_step [OF ready pos st chk [unfolded checkVersion_def]]
  have s': "s' = s1\<lparr>world := rb_dev t, rpmb_partition := partition t\<rparr>" and ok: "is_Ok r \<longleftrightarrow> is_Ok q"
    using run init chk secured
    by (auto simp: rollback_checks_def bindS_apply fatalS_def tryS_apply onRPMB_apply [of "checkVersion _ _ _ _"] rb_of_def
        split: res.splits)
  have t: "rb_ready dkey (rb_of s') = rb_ready dkey t" "room s' = rb_room dctr t"
    "os_epoch s' = rb_stored ?sv dmem t osVersionSector"
    by (simp_all add: s' rb_of_def rb_ready_def rb_room_def os_epoch_def rb_stored_def)
  have "partition t = partition (rb_of s1)" by (rule leavesD [OF leaves_check chk])
  then have "dkey (world s') = Some k0" using C r1(2) by (auto simp: rb_ready_def rb_of_def s1_def s')
  with C e1 room1 show "boot_result e ver (is_Ok r) s s'" unfolding boot_result_def t ok by auto
  show "is_Ok r" if "NewVersion ?sv ver = Ok v" "\<not> LessThan ?sv v e"
    using check_ok [OF ready pos that(1) st [OF that(1)] e1] chk that(2) by (auto simp: ok checkVersion_def)
qed


lemma leaves_boot_rest:
  "leaves sview (case Storage E of None \<Rightarrow> haltS nil_dereference
     | Some C \<Rightarrow> tryS (determineLoadedOSBlock (boot_config E) C) (\<lambda>_. retS ()))"
  unfolding determineLoadedOSBlock_def readConfig_def
  by (auto intro!: keeps_rules leaves_world leaves_devices split: option.split)

lemma leaves_create_verifiers: "leaves sview (create_verifiers I)"
  unfolding create_verifiers_def fatalS_def by (auto intro!: keeps_rules split: sum.split)

lemma boot_prepare_outcome:
  assumes "dkey (world s) = Some k0" and "rpmb_is_usdhc s" and "2 \<le> room s" and "os_epoch s = Ok e"
    and "\<And>v. NewVersion (semvers E) (trim_prefix (img_Version I) ''v'') = Ok v \<Longrightarrow> rb_storable (semvers E) v"
    and run: "boot_prepare E I s = (r, s')"
  shows "boot_result e (trim_prefix (img_Version I) ''v'') (is_Ok r) s s'"
proof -
  let ?ver = "trim_prefix (img_Version I) ''v''"
  obtain q1 s1 where s1: "power_up E s = (q1, s1)" by (cases "power_up E s")
  have p: "pview s1 = pview s" by (rule leavesD [OF leaves_power_up s1])
  have same: "dkey (world s1) = dkey (world s)" "rpmb_is_usdhc s1 = rpmb_is_usdhc s" "room s1 = room s" "os_epoch s1 = os_epoch s"
    using p by (simp_all add: pview_def rview_def rb_of_def rb_room_def os_epoch_def rb_stored_def)
  obtain q2 s2 where s2: "rollback_checks E ?ver s1 = (q2, s2)" by (cases "rollback_checks E ?ver s1")
  have "2 \<le> room s1" using assms(3) same by simp
  then have B: "boot_result e ?ver (is_Ok q2) s s2"
    using rollback_checks_outcome(1) [OF _ _ _ _ assms(5) s2, of e] assms(1,2,4) boot_result_pview [OF p] by (simp add: same)
  show ?thesis
  proof (cases "is_Ok q1")
    case False
    with run s1 have "s' = s1" "\<not> is_Ok r" by (auto simp: boot_prepare_def bindS_apply Let_def split: res.splits)
    with same assms(1,4) less_irrefl show ?thesis by (simp add: boot_result_def)
  next
    case True
    let ?rest = "bindS (case Storage E of None \<Rightarrow> haltS nil_dereference
       | Some C \<Rightarrow> tryS (determineLoadedOSBlock (boot_config E) C) (\<lambda>_. retS ())) (\<lambda>_.
        bindS (create_verifiers I) (\<lambda>_. case NewVersion (semvers E) ?ver of
          Ok v \<Rightarrow> modifyS (\<lambda>s. s\<lparr>osVersion := v\<rparr>) | _ \<Rightarrow> retS ()))"
    have L: "leaves sview ?rest"
      by (intro leaves_bindS leaves_boot_rest leaves_create_verifiers) (auto intro!: keeps_rules split: res.split)
    have "(is_Ok q2 \<and> ?rest s2 = (r, s')) \<or> (\<not> is_Ok q2 \<and> \<not> is_Ok r \<and> s' = s2)"
      using run s1 True s2 by (cases q1; cases q2) (auto simp: boot_prepare_def bindS_apply Let_def)
    then show ?thesis using leavesD [OF L] boot_result_sview [OF B] by auto
  qed
qed

lemma leaves_select_applet: "leaves sview (select_applet E I)"
  unfolding select_applet_def read_def readConfig_def
  by (auto intro!: keeps_rules leaves_world leaves_devices split: option.split sum.split)

lemma leaves_onFst: "leaves sview m \<Longrightarrow> leaves (\<lambda>p. sview (fst p)) (onFst m)"
  by (auto simp: leaves_def onFst_def zoomS_apply split: prod.split) (metis snd_conv)

lemma leaves_onUsb: "leaves (\<lambda>p. sview (fst p)) (onUsb m)"
  by (auto simp: leaves_def onUsb_def zoomS_apply split: prod.split)

lemma leaves_ctl_Start: "leaves (\<lambda>p. sview (fst p)) (ctl_Start L E control uart)"
  unfolding ctl_Start_def
  by (auto intro!: keeps_rules leaves_onUsb leaves_onFst split: option.split)

lemma os_main_outcome:
  assumes "dkey (world s) = Some k0" and "rpmb_is_usdhc s" and "2 \<le> room s" and "os_epoch s = Ok e"
    and "\<And>v. NewVersion (semvers E) (trim_prefix (img_Version I) ''v'') = Ok v \<Longrightarrow> rb_storable (semvers E) v"
    and run: "os_main L uart control E I (s, d) = (r, (s', d'))"
  shows "boot_result e (trim_prefix (img_Version I) ''v'') (is_Ok r) s s'"
proof -
  obtain q1 s1 where s1: "boot_prepare E I s = (q1, s1)" by (cases "boot_prepare E I s")
  note B = boot_prepare_outcome [OF assms(1-5) s1]
  let ?rest = "bindS (onFst (select_applet E I)) (\<lambda>ta. if Native E
     then bindS (ctl_Start L E control uart) (\<lambda>table. retS (ta, table)) else retS (ta, None))"
  have L: "leaves (\<lambda>p. sview (fst p)) ?rest"
    by (intro leaves_bindS leaves_onFst leaves_select_applet leaves_if leaves_ctl_Start leaves_retS)
  have "(is_Ok q1 \<and> ?rest (s1, d) = (r, (s', d'))) \<or> (\<not> is_Ok q1 \<and> \<not> is_Ok r \<and> s' = s1)"
    using run s1 by (cases q1) (auto simp: os_main_def bindS_apply onFst_def zoomS_apply)
  then show ?thesis using leavesD [OF L] boot_result_sview [OF B] by auto
qed


subsection \<open>One event\<close>

lemma serve_keeps_partition: "leaves rpmb_partition (serve E V r)"
proof -
  consider (version) str where "r = Req_Version str" | (transfer) b n where "r = Req_WriteRPMB b n \<or> r = Req_ReadRPMB b n"
    | (other) "\<forall>v. r \<noteq> Req_Version v" "\<forall>b n. r \<noteq> Req_WriteRPMB b n" "\<forall>b n. r \<noteq> Req_ReadRPMB b n" by blast
  then show ?thesis
  proof cases
    case version
    have "leaves rpmb_partition Ctx_Stop" by (auto simp: Ctx_Stop_def intro!: keeps_rules)
    with version show ?thesis
      by (auto simp: RPC_Version_def intro!: keeps_rules leaves_onRPMB leaves_check split: sum.split)
  next
    case transfer
    then show ?thesis
      by (auto simp: RPC_WriteRPMB_def RPC_ReadRPMB_def intro!: leaves_discard leaves_onRPMB leaves_transfer)
  next
    case other
    then show ?thesis using serve_leaves [OF other] by (simp add: leaves_def sview_def)
  qed
qed

definition life_inv :: "'v \<Rightarrow> ('w, 'v) sys \<Rightarrow> bool" where
  "life_inv e y \<longleftrightarrow> dkey (world (sys_os y)) = Some k0 \<and> os_epoch (sys_os y) = Ok e
     \<and> (sys_up y \<longrightarrow> rb_ready dkey (rb_of (sys_os y)))"

fun event_ok :: "'v sys_event \<Rightarrow> bool" where
  "event_ok (Sys_Boot I) \<longleftrightarrow> (case NewVersion (semvers E) (trim_prefix (img_Version I) ''v'') of
     Ok v \<Rightarrow> rb_storable (semvers E) v | _ \<Rightarrow> True)"
| "event_ok _ = True"

definition event_step :: "'v \<Rightarrow> 'v sys_event \<Rightarrow> ('w, 'v) sys \<Rightarrow> ('w, 'v) sys \<Rightarrow> bool" where
  "event_step e ev y y' \<longleftrightarrow> room (sys_os y) \<le> room (sys_os y') + 2
     \<and> (\<exists>e'. life_inv e' y' \<and> \<not> LessThan (semvers E) e' e
         \<and> (\<forall>I. ev = Sys_Boot I \<and> sys_up y' \<longrightarrow> (\<exists>v. NewVersion (semvers E) (trim_prefix (img_Version I) ''v'') = Ok v
              \<and> \<not> LessThan (semvers E) v e \<and> \<not> LessThan (semvers E) e' v)))"

lemma event_step_same:
  assumes "life_inv e y" and "sview (sys_os y') = sview (sys_os y)" and "sys_up y' \<Longrightarrow> sys_up y" and "\<forall>I. ev \<noteq> Sys_Boot I"
  shows "event_step e ev y y'"
  using assms less_irrefl
  by (auto simp: event_step_def life_inv_def sview_def rview_def os_epoch_def rb_of_def rb_stored_def rb_room_def rb_ready_def)

lemma event_step_while_up:
  assumes "life_inv e y" and "leaves (\<lambda>c. sview (lc_os c)) m" and "\<forall>I. ev \<noteq> Sys_Boot I"
  shows "event_step e ev y (while_up m y)"
  using assms(1,3) leavesD [OF assms(2)]
  by (intro event_step_same) (auto simp: while_up_def split: prod.splits if_splits)

lemma request_step:
  assumes inv: "life_inv e y" and room: "2 \<le> room (sys_os y)"
  shows "event_step e (Sys_Request r) y (sys_step N (Sys_Request r) y)"
proof (cases "sys_up y")
  case False
  with inv show ?thesis by (intro event_step_same) (auto simp: while_up_def)
next
  case True
  let ?s = "sys_os y" and ?V = "se_rpc N"
  obtain q s' where run: "serve E ?V r ?s = (q, s')" by (cases "serve E ?V r ?s")
  have ready: "rb_ready dkey (rb_of ?s)" using inv True by (simp add: life_inv_def)
  have "epoch_step (long_version r) (rb_of ?s) (rb_of (snd (serve E ?V r ?s)))"
    using room by (intro serve_epoch_step ready) auto
  then have S: "epoch_step (long_version r) (rb_of ?s) (rb_of s')" by (simp add: run)
  have "rpmb_partition s' = rpmb_partition ?s" by (rule leavesD [OF serve_keeps_partition run])
  then have "dkey (world s') = dkey (world ?s)" using ready S by (auto simp: epoch_step_def rb_ready_def rb_of_def)
  with S inv less_irrefl True show ?thesis
    by (auto simp: event_step_def life_inv_def epoch_step_def os_epoch_def while_up_def onOs_apply run)
qed

lemma boot_step:
  assumes inv: "life_inv e y" and room: "2 \<le> room (sys_os y)" and ok: "event_ok (Sys_Boot I)"
  shows "event_step e (Sys_Boot I) y (sys_step N (Sys_Boot I) y)"
proof -
  let ?s = "restart N (sys_os y)"
  obtain r s' d' where run: "os_main (se_stack N) (se_uart N) (se_port N) E I (?s, se_device N) = (r, (s', d'))"
    by (metis prod.exhaust)
  have same: "dkey (world ?s) = Some k0" "rpmb_is_usdhc ?s" "2 \<le> room ?s" "os_epoch ?s = Ok e" "room ?s = room (sys_os y)"
    using inv room secured by (simp_all add: life_inv_def restart_def rb_of_def rb_room_def os_epoch_def rb_stored_def)
  have "boot_result e (trim_prefix (img_Version I) ''v'') (is_Ok r) ?s s'"
    using ok by (intro os_main_outcome [OF same(1-4) _ run]) (auto split: res.splits)
  then show ?thesis
    by (auto simp: run event_step_def boot_result_def life_inv_def same(5))
qed

lemma sys_step_event:
  assumes inv: "life_inv e y" and room: "2 \<le> room (sys_os y)" and ok: "event_ok ev"
  shows "event_step e ev y (sys_step N ev y)"
proof (cases ev)
  case (Sys_Boot I)
  with boot_step [OF inv room] ok show ?thesis by simp
next
  case (Sys_Request r)
  with request_step [OF inv room] show ?thesis by simp
next
  case Sys_Round
  then show ?thesis
    using event_step_same [OF inv refl, of ev] event_step_while_up [OF inv leaves_onOs [OF leaves_applet_round], of ev]
    by (auto split: option.split)
next
  case (Sys_Exception c)
  have "leaves sview (raise_exception E c)"
    unfolding raise_exception_def by (auto intro!: keeps_rules leaves_handler)
  then show ?thesis using event_step_while_up [OF inv leaves_onOs, of _ ev] Sys_Exception by auto
next
  case Sys_Interrupt
  then show ?thesis using event_step_while_up [OF inv leaves_onOs [OF leaves_isr_sview], of ev] by auto
next
  case (Sys_Net p)
  then show ?thesis using event_step_while_up [OF inv leaves_onOs [OF leaves_net_io], of ev] by auto
next
  case (Sys_Control cmd req)
  then show ?thesis
    using event_step_same [OF inv refl, of ev] event_step_while_up [OF inv leaves_ctl_handle, of ev]
    by (auto split: option.split)
qed


subsection \<open>Sequences of events\<close>

lemma run_floor:
  assumes "life_inv e y" and "2 * length es \<le> room (sys_os y)" and "\<forall>ev \<in> set es. event_ok ev"
    and "j < length es" and "es ! j = Sys_Boot J" and "sys_up (sys_run N es y ! j)"
  shows "\<exists>b. NewVersion (semvers E) (trim_prefix (img_Version J) ''v'') = Ok b \<and> \<not> LessThan (semvers E) b e"
  using assms
proof (induction es arbitrary: y e j)
  case (Cons ev es)
  have S: "event_step e ev y (sys_step N ev y)" using Cons.prems(1-3) by (intro sys_step_event) simp_all
  then obtain e' where e': "life_inv e' (sys_step N ev y)" "\<not> LessThan (semvers E) e' e"
    and acc: "\<forall>I. ev = Sys_Boot I \<and> sys_up (sys_step N ev y) \<longrightarrow>
      (\<exists>v. NewVersion (semvers E) (trim_prefix (img_Version I) ''v'') = Ok v \<and> \<not> LessThan (semvers E) v e)"
    by (auto simp: event_step_def)
  have room: "2 * length es \<le> room (sys_os (sys_step N ev y))"
    using S Cons.prems(2) by (simp add: event_step_def)
  show ?case
  proof (cases j)
    case 0
    with acc Cons.prems(5,6) show ?thesis by auto
  next
    case (Suc i)
    have "\<exists>b. NewVersion (semvers E) (trim_prefix (img_Version J) ''v'') = Ok b \<and> \<not> LessThan (semvers E) b e'"
      using Cons.prems(3-6) Suc by (intro Cons.IH [OF e'(1) room, of i]) simp_all
    with e'(2) show ?thesis using less_weak by blast
  qed
qed simp

lemma run_accepted:
  assumes "life_inv e y" and "2 * length es \<le> room (sys_os y)" and "\<forall>ev \<in> set es. event_ok ev"
    and "i < j" and "j < length es" and "es ! i = Sys_Boot I" and "es ! j = Sys_Boot J"
    and "sys_up (sys_run N es y ! i)" and "sys_up (sys_run N es y ! j)"
  shows "\<exists>a b. NewVersion (semvers E) (trim_prefix (img_Version I) ''v'') = Ok a
    \<and> NewVersion (semvers E) (trim_prefix (img_Version J) ''v'') = Ok b \<and> \<not> LessThan (semvers E) b a"
  using assms
proof (induction es arbitrary: y e i j)
  case (Cons ev es)
  have S: "event_step e ev y (sys_step N ev y)" using Cons.prems(1-3) by (intro sys_step_event) simp_all
  then obtain e' where e': "life_inv e' (sys_step N ev y)"
    and acc: "\<forall>I. ev = Sys_Boot I \<and> sys_up (sys_step N ev y) \<longrightarrow>
      (\<exists>v. NewVersion (semvers E) (trim_prefix (img_Version I) ''v'') = Ok v \<and> \<not> LessThan (semvers E) e' v)"
    by (auto simp: event_step_def)
  have room: "2 * length es \<le> room (sys_os (sys_step N ev y))"
    using S Cons.prems(2) by (simp add: event_step_def)
  obtain j' where j: "j = Suc j'" using Cons.prems(4) by (cases j) auto
  show ?case
  proof (cases i)
    case 0
    with acc Cons.prems(6,8) obtain a where a: "NewVersion (semvers E) (trim_prefix (img_Version I) ''v'') = Ok a"
      "\<not> LessThan (semvers E) e' a" by auto
    have "\<exists>b. NewVersion (semvers E) (trim_prefix (img_Version J) ''v'') = Ok b \<and> \<not> LessThan (semvers E) b e'"
      using Cons.prems(3,5,7,9) j by (intro run_floor [OF e' room, of j']) simp_all
    with a show ?thesis using less_weak by blast
  next
    case (Suc i')
    with Cons.prems(3-9) j show ?thesis by (intro Cons.IH [OF e' room, of i' j']) simp_all
  qed
qed simp

lemma accepted_in_order:
  assumes "dkey (world (sys_os y)) = Some k0" and "os_epoch (sys_os y) = Ok e"
    and "sys_up y \<Longrightarrow> rb_ready dkey (rb_of (sys_os y))" and "2 * length es \<le> room (sys_os y)"
    and "\<And>I v. Sys_Boot I \<in> set es \<Longrightarrow> NewVersion (semvers E) (trim_prefix (img_Version I) ''v'') = Ok v \<Longrightarrow> rb_storable (semvers E) v"
    and "i < j" and "j < length es" and "es ! i = Sys_Boot I" and "es ! j = Sys_Boot J"
    and "sys_up (sys_run N es y ! i)" and "sys_up (sys_run N es y ! j)"
  shows "\<exists>a b. NewVersion (semvers E) (trim_prefix (img_Version I) ''v'') = Ok a
    \<and> NewVersion (semvers E) (trim_prefix (img_Version J) ''v'') = Ok b \<and> \<not> LessThan (semvers E) b a"
proof (rule run_accepted [OF _ assms(4) _ assms(6-11)])
  show "life_inv e y" using assms(1-3) by (simp add: life_inv_def)
  show "\<forall>ev \<in> set es. event_ok ev"
  proof
    fix ev assume "ev \<in> set es"
    then show "event_ok ev" using assms(5) by (cases ev rule: event_ok.cases) (auto split: res.split)
  qed
qed

end

section \<open>A concrete device\<close>

definition demo_sys_env :: "(machine, nat \<times> nat \<times> nat, unit) sys_env" where
  "demo_sys_env = \<lparr>se_ctl = demo_env\<lparr>ce_board := fused_board\<rparr>,
     se_rpc = \<lparr>re_build = ce_build demo_env, re_Diversifier = [], re_consoleLogs = []\<rparr>,
     se_stack = demo_usb, se_uart = retS (), se_port = Some 76, se_device = blank_usb, se_usdhc = True, se_version0 = (0, 0, 0)\<rparr>"

lemma demo_sys_board [simp]: "ce_board (se_ctl demo_sys_env) = fused_board" "se_usdhc demo_sys_env"
  "ce_inspect (se_ctl demo_sys_env) = retS ()"
  by (simp_all add: demo_sys_env_def demo_env_def)

interpretation fused: isolated_board fused_board "\<lambda>m. e_key (m_emmc m)" "\<lambda>m. e_counter (m_emmc m)"
  "\<lambda>m. emmc_sector (m_emmc m)"
proof (intro isolated_board.intro isolated_board_axioms.intro, goal_cases)
  case 1
  show ?case using mrb.rollback_device_axioms by (simp add: fused_board_def)
qed (use demo.card_leaves demo.led_leaves demo.caam_leaves demo.dcp_leaves in \<open>auto simp: fused_board_def blown_flag_def leaves_def\<close>)

interpretation dsys: isolated_system demo_sys_env "\<lambda>m. e_key (m_emmc m)" "\<lambda>m. e_counter (m_emmc m)"
  "\<lambda>m. emmc_sector (m_emmc m)" "zeros 32"
proof (intro isolated_system.intro isolated_system_axioms.intro, goal_cases)
  case 1
  show ?case using fused.isolated_board_axioms by simp
next
  case (4 w)
  show ?case by (simp add: fused_board_def machine_rpmb_def emmc_hw_def)
next
  case (6 t)
  show ?case by (simp add: fused_board_def demo_board_def derive_key_def demo_keys_def wrapS_apply onDev_apply)
next
  case (9 C)
  then show ?case using leaves_parts(1) by (auto simp: fused_board_def machine_card_def)
qed (auto simp: fused_board_def demo_board_def demo_keys_def blown_flag_def leaves_def)

section \<open>Properties\<close>

text \<open>C5: rollback protection over the life of the device. On secured hardware with the replay protected
  block programmed, take any sequence of events: starts of OS images of whatever version, rounds of the
  applet goroutine, requests and exceptions of the applet, interrupts, packets and messages of the host. If the
  OS image of an earlier start came up, no later start of an older image comes up.\<close>

theorem device_never_rolls_back:
  assumes "isolated_system N dkey dctr dmem dk"
    and "dkey (world (sys_os y)) = Some (pbkdf2_Key (key_hardware (se_board N)) dk (UniqueID (key_hardware (se_board N))) iter 32)"
    and "rb_stored (semvers (se_board N)) dmem (rb_of (sys_os y)) osVersionSector = Ok e"
    and "sys_up y \<Longrightarrow> rb_ready dkey (rb_of (sys_os y))" and "2 * length es \<le> rb_room dctr (rb_of (sys_os y))"
    and "\<And>I v. Sys_Boot I \<in> set es \<Longrightarrow> NewVersion (semvers (se_board N)) (trim_prefix (img_Version I) ''v'') = Ok v
      \<Longrightarrow> rb_storable (semvers (se_board N)) v"
    and "i < j" and "j < length es" and "es ! i = Sys_Boot I" and "es ! j = Sys_Boot J"
    and "NewVersion (semvers (se_board N)) (trim_prefix (img_Version I) ''v'') = Ok a"
    and "NewVersion (semvers (se_board N)) (trim_prefix (img_Version J) ''v'') = Ok b"
    and "LessThan (semvers (se_board N)) b a" and "sys_up (sys_run N es y ! i)"
  shows "\<not> sys_up (sys_run N es y ! j)"
proof
  assume "sys_up (sys_run N es y ! j)"
  from isolated_system.accepted_in_order [OF assms(1,2) _ assms(4-10,14) this, of e] assms(3,11-13) show False
    by (simp add: isolated_system.os_epoch_def [OF assms(1)])
qed

text \<open>The device for a concrete run, before its first start, and an older image.\<close>

definition demo_sys :: "(machine, nat \<times> nat \<times> nat) sys" where
  "demo_sys = \<lparr>sys_ctl = \<lparr>lc_os = demo_os, lc_logBuffer = []\<rparr>, sys_up = False, sys_image = None, sys_applet = None,
     sys_table = None\<rparr>"

definition old_image :: "(nat \<times> nat \<times> nat) os_image" where
  "old_image = demo_image\<lparr>img_Version := ''v1.2.2''\<rparr>"

lemma demo_versions:
  "trim_prefix (img_Version demo_image) ''v'' = ''1.2.3''" "trim_prefix (img_Version old_image) ''v'' = ''1.2.2''"
  by (simp_all add: demo_image_def old_image_def trim_prefix_def)

lemma fused_simps: "semvers fused_board = tiny_semver" "key_hardware fused_board = demo_keys"
  "Storage fused_board = Some machine_card" "Native fused_board" "pbkdf2_Key demo_keys (zeros 32) u n 32 = zeros 32"
  by (simp_all add: fused_board_def) (simp_all add: demo_board_def demo_keys_def)

lemma fused_power_up: "power_up fused_board s = (Ok (), s\<lparr>rpmb_partition := None, rpc_Cfg := [], rpc_Ctx := False\<rparr>)"
  by (simp add: power_up_def led_off_def detect_storage_def fatalS_def tryS_apply bindS_apply onWorld_apply fused_board_def)
    (simp add: demo_board_def machine_card_def on_card_def zoomS_apply fake_Detect_def tryS_apply bindS_apply onWorld_apply)

lemma demo_card_reads:
  assumes "off \<in> {osConfBlock * 512, taConfBlock * 512, taBlockA * 512}" and "0 \<le> n" and "n \<le> 40960"
    and "card_Read machine_card off n w = (r, w')"
  shows "r \<noteq> Halt m"
  using assms
  by (auto simp: machine_card_def on_card_def zoomS_apply fake_Read_def layout_defs fakeCardBlockSize_def int64_def Let_def
      go_rem_def split: prod.splits if_splits)

lemma demo_config_reads:
  assumes "blk \<in> {osConfBlock, taConfBlock}" and "readConfig tiny_boot_codec machine_card blk w = (r, w')"
  shows "r \<noteq> Halt m" and "r = Ok c \<Longrightarrow> cfg_Offset c = taBlockA * 512 \<and> 0 \<le> cfg_Size c \<and> cfg_Size c < 256"
proof -
  obtain q v where q: "card_Read machine_card (blk * 512) 40960 w = (q, v)"
    by (cases "card_Read machine_card (blk * 512) 40960 w")
  from demo_card_reads [OF _ _ _ q] assms q show "r \<noteq> Halt m"
    by (cases q) (auto simp: readConfig_def bindS_apply tiny_boot_codec_def expectedBlockSize_def)
  have "uint b < 256" for b :: byte using uint_bounded [of b] by simp
  with assms q show "r = Ok c \<Longrightarrow> cfg_Offset c = taBlockA * 512 \<and> 0 \<le> cfg_Size c \<and> cfg_Size c < 256"
    by (cases q) (auto simp: readConfig_def bindS_apply tiny_boot_codec_def expectedBlockSize_def)
qed

lemma demo_comes_up:
  assumes "rollback_checks fused_board ''1.2.3'' (s\<lparr>rpmb_partition := None, rpc_Cfg := [], rpc_Ctx := False\<rparr>) = (Ok (), s2)"
  shows "is_Ok (fst (os_main demo_usb (retS ()) (Some 76) fused_board demo_image (s, blank_usb)))"
proof -
  have bc: "boot_config fused_board = tiny_boot_codec" by (simp add: fused_board_def)
  have "\<exists>s3. boot_prepare fused_board demo_image s = (Ok (), s3)"
  proof -
    obtain q s3 where d: "determineLoadedOSBlock (boot_config fused_board) machine_card s2 = (q, s3)"
      by (cases "determineLoadedOSBlock (boot_config fused_board) machine_card s2")
    have "\<forall>m. q \<noteq> Halt m" using d demo_config_reads(1) [of osConfBlock]
      by (auto simp: bc determineLoadedOSBlock_def bindS_apply wrapS_apply onWorld_apply split: if_splits prod.splits res.splits)
    then show ?thesis
      using assms d demo_versions(1) tiny_parse(1)
      by (cases q) (simp_all add: boot_prepare_def bindS_apply fused_power_up Let_def fused_simps tryS_apply
          create_verifiers_def fatalS_def createBundleVerifier_def demo_image_def)
  qed
  moreover have "\<exists>ta s4. select_applet fused_board demo_image s3 = (Ok ta, s4)" for s3
  proof -
    obtain q1 w1 where c: "readConfig tiny_boot_codec machine_card taConfBlock (world s3) = (q1, w1)"
      by (cases "readConfig tiny_boot_codec machine_card taConfBlock (world s3)")
    obtain q s4 where d: "read (boot_config fused_board) machine_card s3 = (q, s4)"
      by (cases "read (boot_config fused_board) machine_card s3")
    have nh: "q \<noteq> Halt m" for m
    proof (cases q1)
      case (Ok f)
      have f: "cfg_Offset f = taBlockA * 512" "0 \<le> cfg_Size f" "cfg_Size f \<le> 40960"
        using demo_config_reads(2) [OF _ c, of f] Ok by auto
      obtain q2 w2 where r: "card_Read machine_card (cfg_Offset f) (cfg_Size f) w1 = (q2, w2)"
        by (cases "card_Read machine_card (cfg_Offset f) (cfg_Size f) w1")
      have "\<forall>m. q2 \<noteq> Halt m" using demo_card_reads [OF _ f(2,3) r] f(1) by simp
      with d c r Ok show ?thesis
        by (cases q2) (auto simp: bc read_def bindS_apply wrapS_apply onWorld_apply split: if_splits)
    next
      case (Halt m')
      with demo_config_reads(1) [OF _ c] show ?thesis by blast
    qed (use d c in \<open>auto simp: bc read_def bindS_apply wrapS_apply onWorld_apply split: if_splits\<close>)
    with d show ?thesis
      using nh by (cases q) (auto simp: select_applet_def fused_simps tryS_apply demo_image_def)
  qed
  moreover have "\<exists>t p. ctl_Start demo_usb fused_board (Some 76) (retS ()) (s4, blank_usb) = (Ok t, p)" for s4
    by (simp add: ctl_Start_def bindS_apply onUsb_def onFst_def zoomS_apply fatal_def tryS_apply configureDevice_def
        add_string_apply onRest_apply configureHID_def hid_lookup demo_usb_def blank_usb_def)
  ultimately obtain s3 ta s4 t p where "boot_prepare fused_board demo_image s = (Ok (), s3)"
    "select_applet fused_board demo_image s3 = (Ok ta, s4)"
    "ctl_Start demo_usb fused_board (Some 76) (retS ()) (s4, blank_usb) = (Ok t, p)" by metis
  then show ?thesis by (simp add: os_main_def bindS_apply onFst_def zoomS_apply fused_simps)
qed

lemma demo_life: "dsys.life_inv (0, 0, 0) demo_sys" "6 \<le> rb_room (\<lambda>m. e_counter (m_emmc m)) (rb_of (sys_os demo_sys))"
  using demo_rb_ready(2) demo_rb_ready(3) [of osVersionSector]
  by (simp_all add: dsys.life_inv_def dsys.os_epoch_def demo_sys_def rb_of_def rb_room_def rb_stored_def demo_rb_def
      fused_simps)

lemma demo_first_boot: "sys_up (sys_step demo_sys_env (Sys_Boot demo_image) demo_sys)"
proof -
  let ?s = "restart demo_sys_env demo_os\<lparr>rpmb_partition := None, rpc_Cfg := [], rpc_Ctx := False\<rparr>"
  obtain r s2 where run: "rollback_checks fused_board ''1.2.3'' ?s = (r, s2)"
    by (cases "rollback_checks fused_board ''1.2.3'' ?s")
  have w: "world ?s = world demo_os" "rpmb_is_usdhc ?s" by (simp_all add: restart_def)
  have "is_Ok r"
    using dsys.rollback_checks_outcome(2) [of ?s "(0, 0, 0)" "''1.2.3''" r s2 "(1, 2, 3)"] run w demo_life tiny_parse(1) tiny_storable
    by (simp add: dsys.life_inv_def dsys.os_epoch_def demo_sys_def rb_of_def rb_room_def rb_stored_def fused_simps)
      (simp add: tiny_semver_def tiny_less_def)
  then have "r = Ok ()" by (simp add: is_Ok_iff)
  with run demo_comes_up [of "restart demo_sys_env demo_os" s2] show ?thesis
    by (auto simp: demo_sys_def demo_sys_env_def demo_env_def split: prod.split)
qed

theorem device_never_rolls_back_witness:
  "sys_up (sys_run demo_sys_env [Sys_Boot demo_image, Sys_Request Req_Reboot, Sys_Boot old_image] demo_sys ! 0)
    \<and> \<not> sys_up (sys_run demo_sys_env [Sys_Boot demo_image, Sys_Request Req_Reboot, Sys_Boot old_image] demo_sys ! 2)"
proof -
  have lt: "LessThan tiny_semver (1, 2, 2) (1, 2, 3)" by (simp add: tiny_semver_def tiny_less_def)
  have "\<not> sys_up (sys_run demo_sys_env [Sys_Boot demo_image, Sys_Request Req_Reboot, Sys_Boot old_image] demo_sys ! 2)"
    by (rule device_never_rolls_back [OF dsys.isolated_system_axioms, where i = 0 and e = "(0, 0, 0)" and a = "(1, 2, 3)" and b = "(1, 2, 2)"])
      (use demo_life demo_first_boot lt in \<open>auto simp: dsys.life_inv_def dsys.os_epoch_def fused_simps demo_versions tiny_parse tiny_storable
        simp del: sys_step.simps\<close>)
  with demo_first_boot show ?thesis by simp
qed

end
