(* ===== verification/System_Inv.thy ===== *)
theory System_Inv
  imports System
begin

text \<open>
  A well-formedness invariant of the OS state (the package variables of \<open>src/trusted_os\<close>) and that every
  event of the device's life keeps it: the packet queues stay within the capacities of their channels,
  the output buffer within its limit, the addresses the interrupt handler wakes are unset or in applet
  memory, and the wake handler is set whenever an applet was loaded.
\<close>

section \<open>The invariant\<close>

definition os_inv :: "('w, 'v) board \<Rightarrow> ('w, 'v) os \<Rightarrow> bool" where
  "os_inv E s \<longleftrightarrow> (\<forall>q. rxQueue s = Some q \<longrightarrow> length q \<le> RXQueueSize)
     \<and> (\<forall>q. txQueue s = Some q \<longrightarrow> length q \<le> TXQueueSize)
     \<and> length (stdout_buf s) \<le> outputLimit
     \<and> (appletHandlerG s = 0 \<or> isAppletMemory (mem_layout E) (appletHandlerG s))
     \<and> (appletHandlerP s = 0 \<or> isAppletMemory (mem_layout E) (appletHandlerP s))
     \<and> (rpc_Ctx s \<longrightarrow> wHandler s \<noteq> None)"

text \<open>What the invariant looks at.\<close>

definition iview :: "('w, 'v) os \<Rightarrow> bytes list option \<times> bytes list option \<times> bytes \<times> 32 word \<times> 32 word \<times> bool \<times> wake_handler option" where
  "iview s = (rxQueue s, txQueue s, stdout_buf s, appletHandlerG s, appletHandlerP s, rpc_Ctx s, wHandler s)"

lemma os_inv_iview: "iview s' = iview s \<Longrightarrow> os_inv E s' = os_inv E s"
  by (simp add: iview_def os_inv_def)

lemma keeps_iview: "leaves iview m \<Longrightarrow> keeps (os_inv E) m"
  using os_inv_iview by (auto simp: leaves_def keeps_def)

lemma keeps_emit: "keeps (os_inv E) (emit e)"
  by (simp add: keeps_def os_inv_def)

lemma iview_updates [simp]:
  "iview (s\<lparr>world := w\<rparr>) = iview s" "iview (s\<lparr>events := x\<rparr>) = iview s" "iview (s\<lparr>rpc_Cfg := c\<rparr>) = iview s"
  "iview (s\<lparr>witnessStatus := ws\<rparr>) = iview s" "iview (s\<lparr>osFirmwareBuffer := b\<rparr>) = iview s"
  "iview (s\<lparr>appletFirmwareBuffer := b\<rparr>) = iview s" "iview (s\<lparr>irqHandler := h\<rparr>) = iview s"
  "iview (s\<lparr>ectx := e\<rparr>) = iview s" "iview (s\<lparr>lan_ring := l\<rparr>) = iview s" "iview (s\<lparr>lan_sent := l\<rparr>) = iview s"
  "iview (s\<lparr>osVersion := v\<rparr>) = iview s" "iview (s\<lparr>loadedAppletVersion := v\<rparr>) = iview s"
  "iview (s\<lparr>rpmb_partition := p\<rparr>) = iview s" "iview (s\<lparr>osLoadedFromBlock := n\<rparr>) = iview s"
  "iview (s\<lparr>appletLoadedFromBlock := n\<rparr>) = iview s"
  by (simp_all add: iview_def)

lemma leaves_onRPMB_iview: "leaves iview (onRPMB m)"
  by (auto simp: leaves_def onRPMB_apply split: prod.split)

lemma leaves_onCtx_iview: "leaves iview (onCtx f)"
  by (auto simp: onCtx_def intro!: keeps_rules)

lemma leaves_flashFirmware_iview: "leaves iview (flashFirmware K st t elf pb)"
  unfolding flashFirmware_def by (auto intro!: keeps_rules split: option.split)

lemma leaves_discard_gen: "leaves f m \<Longrightarrow> leaves f (discard m)"
  by (simp add: discard_def keeps_rules)

lemma keeps_discard: "keeps I m \<Longrightarrow> keeps I (discard m)"
  by (simp add: discard_def keeps_rules)

section \<open>Operations that change what the invariant looks at\<close>

lemma keeps_asyncRx: "keeps (os_inv E) (asyncRx p)"
  by (auto simp: keeps_def asyncRx_def os_inv_def RXQueueSize_def split: option.split)

lemma keeps_receiveLAN: "keeps (os_inv E) (receiveLAN ring)"
proof (induction ring)
  case Nil
  show ?case by (rule keeps_iview) (simp add: leaves_def)
next
  case (Cons p ring)
  then show ?case by (auto intro!: keeps_bindS keeps_asyncRx keeps_emit)
qed

lemma keeps_net_io: "keeps (os_inv E) (net_io p)"
proof (cases p)
  case (USB_rx b)
  then show ?thesis using keeps_asyncRx by simp
qed (auto simp: keeps_def asyncTx_def bindS_apply os_inv_def split: option.splits list.splits)

lemma keeps_isr: "keeps (os_inv E) (isr E)"
  unfolding isr_def run_irq_def
  by (auto intro!: keeps_bindS keeps_receiveLAN keeps_getS keeps_retS split: option.split irq_action.split)
    (auto intro!: keeps_iview keeps_rules)

lemma keeps_rx: "keeps (os_inv E) (rxFromApplet E')"
  by (auto simp: keeps_def rxFromApplet_def bindS_apply os_inv_def Let_def split: option.splits list.splits res.splits prod.splits)

lemma keeps_tx: "keeps (os_inv E) (txFromApplet E')"
  by (auto simp: keeps_def txFromApplet_def bindS_apply os_inv_def send_tx_def Let_def
      split: option.splits list.splits res.splits prod.splits)

lemma stdout_buffer_bounded:
  assumes "length (log_buf t) \<le> outputLimit" and run: "bufferedStdoutLog W b t = (r, t')"
  shows "length (log_buf t') \<le> outputLimit \<or> halted r"
proof -
  obtain q w where "W (log_buf t @ [b]) (out_dev t) = (q, w)" by (cases "W (log_buf t @ [b]) (out_dev t)")
  with assms show ?thesis
    by (cases q) (auto simp: bufferedStdoutLog_def bindS_apply tryS_apply zoomS_apply not_less split: if_splits)
qed

lemma keeps_netStart: "keeps (os_inv E) (netStart E')"
proof -
  have "keeps (os_inv E) (netStartLAN E')" by (simp add: keeps_def netStartLAN_def bindS_apply os_inv_def)
  moreover have "keeps (os_inv E) (netStartUSB E')"
    by (cases "NIC_Init E' (hardware_addr hostMAC) (hardware_addr deviceMAC)")
      (simp_all add: keeps_def netStartUSB_def bindS_apply os_inv_def)
  ultimately show ?thesis by (simp add: netStart_def keeps_retS)
qed

lemma keeps_Register: "keeps (os_inv E) (RPC_Register E h)"
  by (auto simp: keeps_def RPC_Register_def bindS_apply os_inv_def)

lemma keeps_configureWakeHandler: "keeps (os_inv E) (configureWakeHandler E' v)"
  by (auto simp: keeps_def configureWakeHandler_def bindS_apply os_inv_def split: res.splits)

text \<open>A step that does not take the OS down keeps the invariant.\<close>

definition keeps_up :: "('s \<Rightarrow> bool) \<Rightarrow> ('s, 'a) io \<Rightarrow> bool" where
  "keeps_up I m \<longleftrightarrow> (\<forall>s r s'. I s \<longrightarrow> m s = (r, s') \<longrightarrow> \<not> halted r \<longrightarrow> I s')"

lemma keeps_up_keeps: "keeps I m \<Longrightarrow> keeps_up I m"
  by (metis keepsD keeps_up_def)

lemma keeps_up_stdout: "keeps_up (os_inv E) (onStdout (bufferedStdoutLog W b))"
proof (unfold keeps_up_def, intro allI impI)
  fix s :: "('a, 'b) os" and r s' assume I: "os_inv E s" and run: "onStdout (bufferedStdoutLog W b) s = (r, s')" and up: "\<not> halted r"
  let ?t = "\<lparr>out_dev = world s, log_buf = stdout_buf s\<rparr>"
  obtain t' where t': "bufferedStdoutLog W b ?t = (r, t')" "s' = s\<lparr>world := out_dev t', stdout_buf := log_buf t'\<rparr>"
    using run by (auto simp: onStdout_def zoomS_apply split: prod.splits)
  with stdout_buffer_bounded [OF _ t'(1)] I up show "os_inv E s'" by (auto simp: os_inv_def)
qed

lemma keeps_fiqHandler: "keeps (os_inv E) (fiqHandler E)"
  unfolding fiqHandler_def
  by (auto intro!: keeps_bindS keeps_getS keeps_if keeps_haltS keeps_emit keeps_isr keeps_iview [OF leaves_onCtx_iview] split: option.split)

lemma keeps_up_if: "(b \<Longrightarrow> keeps_up I m) \<Longrightarrow> (\<not> b \<Longrightarrow> keeps_up I m') \<Longrightarrow> keeps_up I (if b then m else m')"
  by simp

lemma keeps_up_getS: "(\<And>c. keeps_up I (f c)) \<Longrightarrow> keeps_up I (bindS (getS g) f)"
  by (simp add: keeps_up_def bindS_apply)

lemma keeps_onWorld: "keeps (os_inv E) (onWorld m)"
  by (rule keeps_iview) (auto intro!: keeps_rules)

lemma keeps_up_handler:
  assumes "keeps (os_inv E) (SecureHandler E)"
  shows "keeps_up (os_inv E) (handler E)"
  unfolding handler_def
  by (intro keeps_up_getS keeps_up_if keeps_up_stdout; rule keeps_up_keeps)
    (intro keeps_fiqHandler keeps_rx keeps_bindS keeps_emit keeps_tx keeps_iview [OF leaves_onCtx_iview] keeps_onWorld
      keeps_haltS assms)+

section \<open>Requests of the applet\<close>

lemma leaves_update_iview: "leaves iview (updateOS K v st elf pb)" "leaves iview (updateApplet K v st elf pb)"
  unfolding updateOS_def updateApplet_def by (auto intro!: keeps_rules leaves_flashFirmware_iview)

lemma leaves_Ctx_Stop_iview: "leaves iview Ctx_Stop"
  by (auto simp: Ctx_Stop_def intro!: keeps_rules)

lemma keeps_serve: "keeps (os_inv E) (serve E V r)"
proof (cases r)
  case (Req_Config c p)
  have "keeps (os_inv E) (modifyS (\<lambda>s. s\<lparr>rpc_Cfg := c\<rparr>))" by (rule keeps_iview) (auto intro!: keeps_rules)
  with Req_Config show ?thesis
    by (auto simp: RPC_Config_def intro!: keeps_discard keeps_bindS keeps_getS keeps_if keeps_retS keeps_netStart)
next
  case (Req_Register h)
  then show ?thesis by (simp add: keeps_Register)
next
  case (Req_SetWitnessStatus w)
  then show ?thesis by (simp add: RPC_SetWitnessStatus_def keeps_def os_inv_def)
qed (auto simp: RPC_Version_def RPC_Address_def RPC_Status_def RPC_SetWitnessStatus_def RPC_LED_def RPC_CardInfo_def
    RPC_WriteBlocks_def RPC_Read_def RPC_WriteRPMB_def RPC_ReadRPMB_def RPC_DeriveKey_def RPC_HAB_def
    RPC_GetInstalledVersions_def RPC_InstallOS_def RPC_InstallApplet_def RPC_Reboot_def RPC_ConsoleLog_def RPC_CrashLog_def
    Let_def intro!: keeps_iview leaves_discard_gen keeps_rules leaves_onRPMB_iview leaves_update_iview leaves_Ctx_Stop_iview
    split: option.split sum.split)

section \<open>Loading an applet\<close>

text \<open>The wake handler is chosen before the applet is loaded.\<close>

definition os_ready :: "('w, 'v) board \<Rightarrow> ('w, 'v) os \<Rightarrow> bool" where
  "os_ready E s \<longleftrightarrow> os_inv E s \<and> wHandler s \<noteq> None"

lemma keeps_ready_iview: "leaves iview m \<Longrightarrow> keeps (os_ready E) m"
proof (unfold keeps_def, intro allI impI)
  fix s assume m: "leaves iview m" and s: "os_ready E s"
  then have "iview (snd (m s)) = iview s" by (simp add: leaves_def)
  with s os_inv_iview [OF this] show "os_ready E (snd (m s))" by (simp add: os_ready_def) (simp add: iview_def)
qed

lemma keeps_sum: "(\<And>a. keeps I (f a)) \<Longrightarrow> (\<And>b. keeps I (g b)) \<Longrightarrow> keeps I (case_sum f g r)"
  by (cases r) simp_all

lemma keeps_option: "keeps I m \<Longrightarrow> (\<And>x. keeps I (f x)) \<Longrightarrow> keeps I (case_option m f r)"
  by (cases r) simp_all

lemma keeps_then:
  assumes "\<And>s r s'. I s \<Longrightarrow> m s = (r, s') \<Longrightarrow> I s' \<and> (is_Ok r \<longrightarrow> J s')" and "\<And>x. keeps J (f x)" and "\<And>s. J s \<Longrightarrow> I s"
  shows "keeps I (bindS m f)"
proof (unfold keeps_def, intro allI impI)
  fix s assume s: "I s"
  obtain r s1 where r: "m s = (r, s1)" by (cases "m s")
  note A = assms(1) [OF s r]
  show "I (snd (bindS m f s))"
  proof (cases r)
    case (Ok x)
    with A have "J (snd (f x s1))" using assms(2) [of x] by (simp add: keeps_def)
    with Ok r assms(3) show ?thesis by (simp add: bindS_apply)
  qed (use A r in \<open>simp_all add: bindS_apply\<close>)
qed

lemma keeps_loadApplet:
  assumes "leaves iview (Ctx_Run E)" and "leaves iview inspect"
  shows "keeps (os_ready E) (loadApplet E inspect elf)"
proof -
  have run: "leaves iview (run_applet E inspect)"
    unfolding run_applet_def using assms by (auto intro!: keeps_rules split: sum.split)
  have m: "keeps (os_ready E) (modifyS (\<lambda>s. s\<lparr>rpc_Ctx := True, ectx := c\<rparr>))" for c
    by (rule keeps_modifyS) (simp add: os_ready_def os_inv_def)
  have e: "keeps (os_ready E) (emit x)" for x by (intro keeps_ready_iview leaves_emit) simp
  have w': "keeps (os_ready E) (onWorld n)" for n :: "('a, ExecCtx) io" by (intro keeps_ready_iview leaves_onWorld) simp
  have w'': "keeps (os_ready E) (onWorld n)" for n :: "('a, 32 word) io" by (intro keeps_ready_iview leaves_onWorld) simp
  show ?thesis
    unfolding loadApplet_def
    by (intro keeps_bindS keeps_tryS keeps_sum keeps_retS keeps_ready_iview [OF run] m e w' w'')
qed

lemma configureWakeHandler_ready:
  assumes "os_inv E s" and "configureWakeHandler E' v s = (r, s')"
  shows "os_inv E s' \<and> (is_Ok r \<longrightarrow> os_ready E s')"
  using assms by (auto simp: configureWakeHandler_def bindS_apply os_inv_def os_ready_def split: res.splits)

lemma keeps_applet_round:
  assumes "leaves iview (Ctx_Run E)" and "leaves iview inspect"
  shows "keeps (os_inv E) (applet_round E I inspect logs ta)"
proof -
  have w: "keeps (os_ready E) (onWorld n)" for n :: "('a, unit) io" by (intro keeps_ready_iview leaves_onWorld) simp
  have e: "keeps (os_ready E) (emit x)" for x by (intro keeps_ready_iview leaves_emit) simp
  have v: "keeps (os_inv E) (modifyS (\<lambda>s. s\<lparr>loadedAppletVersion := tag\<rparr>))" for tag
    by (rule keeps_modifyS) (simp add: os_inv_def)
  define tail where "tail = bindS (tryS (onWorld (board_LED E ''white'' True)) (\<lambda>_. retS ())) (\<lambda>_.
     bindS (loadApplet E inspect (fb_Firmware ta)) (\<lambda>(loaded, err).
     if \<not> loaded then haltS nil_dereference
     else bindS (emit CtxWait) (\<lambda>_. case Storage E of
         None \<Rightarrow> haltS nil_dereference
       | Some C \<Rightarrow> tryS (onWorld (storeAppletCrashLog C logs)) (\<lambda>_. retS ()))))"
  have "keeps (os_ready E) tail"
    unfolding tail_def
    by (intro keeps_bindS keeps_tryS keeps_retS keeps_loadApplet assms w)
      (auto intro!: keeps_bindS keeps_tryS keeps_retS keeps_if keeps_haltS e w split: option.split)
  note tail = this
  have c: "keeps (os_inv E) (bindS (configureWakeHandler E rt) (\<lambda>_. tail))" for rt
  proof (rule keeps_then [where J = "os_ready E"])
    show "os_inv E s' \<and> (is_Ok r \<longrightarrow> os_ready E s')" if "os_inv E s" "configureWakeHandler E rt s = (r, s')" for s r s'
      using that by (rule configureWakeHandler_ready)
    show "os_inv E s" if "os_ready E s" for s using that by (simp add: os_ready_def)
  qed (rule tail)
  show ?thesis
    unfolding applet_round_def tail_def [symmetric]
  proof (rule keeps_tryS)
    show "keeps (os_inv E) (liftRes (AppletBundle_Verify E ta))" by (simp add: keeps_def)
    show "keeps (os_inv E) (case manifest_versions I ta (r = Inr ()) of (tag, rt) \<Rightarrow>
        bindS (modifyS (\<lambda>s. s\<lparr>loadedAppletVersion := tag\<rparr>)) (\<lambda>_. bindS (configureWakeHandler E rt) (\<lambda>_. tail)))" for r
      by (cases "manifest_versions I ta (r = Inr ())") (simp only: prod.case, rule keeps_bindS [OF v c])
  qed
qed

section \<open>Start-up and control messages\<close>

lemma restart_inv: "os_inv E (restart N s)"
  by (simp add: restart_def os_inv_def)

lemma keeps_boot_prepare: "keeps (os_inv E) (boot_prepare E' I)"
proof -
  have "keeps (os_inv E) (modifyS (\<lambda>s. s\<lparr>rpmb_partition := None, rpc_Cfg := [], rpc_Ctx := False\<rparr>))"
    by (rule keeps_modifyS) (simp add: os_inv_def)
  then have p: "keeps (os_inv E) (power_up E')"
    unfolding power_up_def led_off_def detect_storage_def fatalS_def
    by (intro keeps_bindS keeps_tryS keeps_retS keeps_onWorld keeps_haltS keeps_sum keeps_option)
  have r: "keeps (os_inv E) (rollback_checks E' ver)" for ver
    unfolding rollback_checks_def fatalS_def
    by (intro keeps_iview) (auto intro!: keeps_rules leaves_onRPMB_iview split: sum.split)
  have b: "keeps (os_inv E) (case Storage E' of None \<Rightarrow> haltS nil_dereference
      | Some C \<Rightarrow> tryS (determineLoadedOSBlock (boot_config E') C) (\<lambda>_. retS ()))"
    unfolding determineLoadedOSBlock_def by (intro keeps_iview) (auto intro!: keeps_rules split: option.split)
  have c: "keeps (os_inv E) (create_verifiers I)"
    unfolding create_verifiers_def fatalS_def by (intro keeps_iview) (auto intro!: keeps_rules split: sum.split)
  have v: "keeps (os_inv E) (case x of Ok v \<Rightarrow> modifyS (\<lambda>s. s\<lparr>osVersion := v\<rparr>) | _ \<Rightarrow> retS ())" for x :: "'b res"
    by (intro keeps_iview) (auto intro!: keeps_rules split: res.split)
  show ?thesis unfolding boot_prepare_def Let_def by (intro keeps_bindS p r b c v)
qed

lemma keeps_select_applet: "keeps (os_inv E) (select_applet E' I)"
  unfolding select_applet_def read_def
  by (intro keeps_iview) (auto intro!: keeps_rules split: option.split sum.split)

lemma keeps_onFst: "keeps I m \<Longrightarrow> keeps (\<lambda>p. I (fst p)) (onFst m)"
  by (auto simp: keeps_def onFst_def zoomS_apply split: prod.split)

lemma keeps_onUsb: "keeps (\<lambda>p. I (fst p)) (onUsb m)"
  by (auto simp: keeps_def onUsb_def zoomS_apply split: prod.split)

lemma keeps_ctl_Start: "keeps (\<lambda>p. os_inv E (fst p)) (ctl_Start L E' control uart)"
proof -
  have "keeps (os_inv E) (modifyS (\<lambda>s. s\<lparr>irqHandler := f s\<rparr>))" for f by (rule keeps_modifyS) (simp add: os_inv_def)
  then show ?thesis
    unfolding ctl_Start_def
    by (intro keeps_bindS keeps_onUsb keeps_onFst keeps_emit keeps_retS keeps_option)
qed

lemma keeps_os_main: "keeps (\<lambda>p. os_inv E (fst p)) (os_main L uart control E' I)"
  unfolding os_main_def
  by (intro keeps_bindS keeps_onFst keeps_boot_prepare keeps_select_applet keeps_if keeps_ctl_Start keeps_retS)

lemma keeps_onOs: "keeps I m \<Longrightarrow> keeps (\<lambda>c. I (lc_os c)) (onOs m)"
  by (auto simp: keeps_def onOs_apply split: prod.split)

text \<open>Only a running applet is reloaded by a new configuration, and then the wake handler is set.\<close>

lemma keeps_ctl_Config:
  assumes "leaves iview (Ctx_Run E)" and "leaves iview inspect"
  shows "keeps (\<lambda>c. os_inv E (lc_os c)) (ctl_Config K E inspect taELF req)"
proof -
  define R where "R = bindS (emit CtxStop) (\<lambda>_. bindS (emit CtxWait) (\<lambda>_. bindS (loadApplet E inspect taELF) (\<lambda>(_, err).
     case err of Some e \<Rightarrow> retS (ErrorResponse K e) | None \<Rightarrow> retS (EmptyResponse K))))"
  have e: "keeps (os_ready E) (emit x)" for x by (intro keeps_ready_iview leaves_emit) simp
  have "keeps (os_ready E) R"
    unfolding R_def by (intro keeps_bindS e keeps_loadApplet assms) (auto intro!: keeps_option keeps_retS split: prod.split)
  note R = this
  have reload: "os_inv E (snd (R s))" if s: "os_inv E s" "rpc_Ctx s" for s
  proof -
    have "wHandler s \<noteq> None" using s by (simp only: os_inv_def) blast
    with s(1) have "os_ready E s" by (simp add: os_ready_def)
    with R have "os_ready E (snd (R s))" by (simp add: keeps_def)
    then show ?thesis by (simp add: os_ready_def)
  qed
  have "keeps (os_inv E) (bindS (getS rpc_Ctx) (\<lambda>running. if running then R else retS (EmptyResponse K)))"
    using reload by (auto simp: keeps_def bindS_apply [of "getS _"])
  moreover have "keeps (os_inv E) (modifyS (\<lambda>s. s\<lparr>rpc_Cfg := req\<rparr>))" by (rule keeps_modifyS) (simp add: os_inv_def)
  ultimately have "keeps (os_inv E) (bindS (modifyS (\<lambda>s. s\<lparr>rpc_Cfg := req\<rparr>)) (\<lambda>_. bindS (getS rpc_Ctx) (\<lambda>running.
      if running then R else retS (EmptyResponse K))))" by (intro keeps_bindS [of "os_inv E" "modifyS _"])
  then show ?thesis
    unfolding ctl_Config_def R_def [symmetric] by (intro keeps_if keeps_retS keeps_onOs)
qed

lemma keeps_serve_logs: "keeps (os_inv E) src \<Longrightarrow> keeps (\<lambda>c. os_inv E (lc_os c)) (serve_logs K gzip src r)"
  unfolding serve_logs_def
  by (intro keeps_bindS keeps_if keeps_onOs keeps_retS)
    (auto simp: keeps_def handleLogsRequest_def Let_def split: prod.split res.split)

lemma keeps_ctl_handle:
  assumes "leaves iview (Ctx_Run (ce_board V))" and "leaves iview (ce_inspect V)"
  shows "keeps (\<lambda>c. os_inv (ce_board V) (lc_os c)) (ctl_handle V x req)"
proof (cases x)
  case Op_Config
  then show ?thesis using keeps_ctl_Config [OF assms] by simp
next
  case Op_HAB
  then show ?thesis
    by (auto simp: ctl_HAB_def intro!: keeps_tryS keeps_if keeps_retS keeps_onOs keeps_onWorld keeps_sum)
      (simp add: keeps_def)
next
  case Op_CrashLogs
  have "keeps (os_inv (ce_board V)) (crash_log_source (ce_board V))"
    unfolding crash_log_source_def by (intro keeps_option keeps_haltS keeps_tryS keeps_onWorld keeps_sum keeps_retS)
  with Op_CrashLogs show ?thesis by (simp add: ctl_CrashLogs_def keeps_serve_logs)
qed (simp_all add: ctl_Status_def ctl_ConsoleLogs_def keeps_getS keeps_serve_logs keeps_retS)

section \<open>Properties\<close>

lemma while_up_inv:
  assumes "sys_up y \<Longrightarrow> I (sys_ctl y)" and "keeps_up I m" and "sys_up (while_up m y)"
  shows "I (sys_ctl (while_up m y))"
  using assms by (auto simp: while_up_def keeps_up_def split: prod.splits if_splits)

lemma keeps_up_onOs: "keeps_up I m \<Longrightarrow> keeps_up (\<lambda>c. I (lc_os c)) (onOs m)"
  by (auto simp: keeps_up_def onOs_apply split: prod.splits)

lemma sys_step_inv:
  assumes ext: "leaves iview (SecureHandler (se_board N))" "leaves iview (Ctx_Run (se_board N))" "leaves iview (ce_inspect (se_ctl N))"
    and inv: "sys_up y \<Longrightarrow> os_inv (se_board N) (sys_os y)" and up: "sys_up (sys_step N ev y)"
  shows "os_inv (se_board N) (sys_os (sys_step N ev y))"
proof (cases ev)
  case (Sys_Boot I)
  obtain r s d where run: "os_main (se_stack N) (se_uart N) (se_port N) (se_board N) I (restart N (sys_os y), se_device N) = (r, (s, d))"
    by (metis prod.exhaust)
  have "os_inv (se_board N) s" using keepsD [OF keeps_os_main [of "se_board N"] _ run] restart_inv [of "se_board N" N "sys_os y"] by simp
  with Sys_Boot run show ?thesis by simp
next
  case Sys_Round
  note step = while_up_inv [where I = "\<lambda>c. os_inv (se_board N) (lc_os c)", OF inv keeps_up_onOs [OF keeps_up_keeps [OF keeps_applet_round [OF ext(2,3)]]]]
  show ?thesis using up step inv by (auto simp: Sys_Round split: option.splits)
next
  case (Sys_Request r)
  note step = while_up_inv [where I = "\<lambda>c. os_inv (se_board N) (lc_os c)", OF inv keeps_up_onOs [OF keeps_up_keeps [OF keeps_serve]]]
  show ?thesis using up step by (simp add: Sys_Request)
next
  case (Sys_Exception c)
  have "keeps_up (os_inv (se_board N)) (raise_exception (se_board N) c)"
  proof (unfold keeps_up_def, intro allI impI)
    fix s r s' assume "os_inv (se_board N) s" "raise_exception (se_board N) c s = (r, s')" and nh: "\<not> halted r"
    then have "os_inv (se_board N) (s\<lparr>ectx := c\<rparr>)" "handler (se_board N) (s\<lparr>ectx := c\<rparr>) = (r, s')"
      by (simp_all add: raise_exception_def bindS_apply os_inv_iview [of "s\<lparr>ectx := c\<rparr>" s])
    with keeps_up_handler [OF keeps_iview [OF ext(1)]] nh show "os_inv (se_board N) s'" unfolding keeps_up_def by blast
  qed
  note step = while_up_inv [where I = "\<lambda>c. os_inv (se_board N) (lc_os c)", OF inv keeps_up_onOs [OF this]]
  show ?thesis using up step by (simp add: Sys_Exception)
next
  case Sys_Interrupt
  note step = while_up_inv [where I = "\<lambda>c. os_inv (se_board N) (lc_os c)", OF inv keeps_up_onOs [OF keeps_up_keeps [OF keeps_isr]]]
  show ?thesis using up step by (simp add: Sys_Interrupt)
next
  case (Sys_Net p)
  note step = while_up_inv [where I = "\<lambda>c. os_inv (se_board N) (lc_os c)", OF inv keeps_up_onOs [OF keeps_up_keeps [OF keeps_net_io]]]
  show ?thesis using up step by (simp add: Sys_Net)
next
  case (Sys_Control cmd req)
  note step = while_up_inv [where I = "\<lambda>c. os_inv (se_board N) (lc_os c)", OF inv keeps_up_keeps [OF keeps_ctl_handle [OF ext(2,3)]]]
  show ?thesis using up step inv by (auto simp: Sys_Control split: option.splits)
qed

text \<open>C10: an invariant of the whole OS. Whatever happens in the life of the device (starts, rounds of the
  applet goroutine, any requests and exceptions of the applet, interrupts, packets, host messages), as long as
  the OS is up: the packet queues hold at most 1000 packets, the buffered output at most 1024 bytes, the
  addresses the interrupt handler wakes are zero or in applet memory, and the wake handler is set if an
  applet was loaded, so that serving its interrupts does not dereference nil. The monitor, the execution
  of the applet and the debug inspection are assumed not to touch these variables themselves.\<close>

theorem os_invariant:
  assumes "leaves iview (SecureHandler (se_board N))" and "leaves iview (Ctx_Run (se_board N))"
    and "leaves iview (ce_inspect (se_ctl N))"
    and "sys_up y \<Longrightarrow> os_inv (se_board N) (sys_os y)" and "z \<in> set (sys_run N es y)" and "sys_up z"
  shows "os_inv (se_board N) (sys_os z)"
  using assms(4-6)
proof (induction es arbitrary: y)
  case (Cons ev es)
  note step = sys_step_inv [OF assms(1-3) Cons.prems(1)]
  from Cons.prems(2) consider "z = sys_step N ev y" | "z \<in> set (sys_run N es (sys_step N ev y))" by auto
  then show ?case
  proof cases
    case 1
    with step Cons.prems(3) show ?thesis by blast
  next
    case 2
    with Cons.IH [OF step] Cons.prems(3) show ?thesis by blast
  qed
qed simp

theorem os_invariant_witness:
  "os_inv fused_board (sys_os (sys_run demo_sys_env [Sys_Boot demo_image, Sys_Control 0x40 []] demo_sys ! 0))"
proof -
  have l: "leaves iview (retS ())" by (rule leaves_retS)
  have b: "SecureHandler fused_board = retS ()" "Ctx_Run fused_board = retS ()" by (simp_all add: fused_board_def) (simp add: demo_board_def)
  from os_invariant [of demo_sys_env demo_sys "sys_run demo_sys_env [Sys_Boot demo_image, Sys_Control 0x40 []] demo_sys ! 0"
      "[Sys_Boot demo_image, Sys_Control 0x40 []]"] demo_first_boot l
  show ?thesis by (simp add: b demo_sys_def del: sys_step.simps)
qed

end
