(* ===== verification/Spec2Isabelle.thy ===== *)
theory Spec2Isabelle
  imports Rollback_Fake Debug_Build Proofbundle Rpmb_Concurrent Flash_Update Interrupt_Path System_Inv
begin

text \<open>
  A verification development for the ArmoredWitness Trusted OS: the Secure World operating system of a
  witness device (\<open>src/trusted_os\<close>), its replay protected storage (\<open>src/rpmb\<close>), the activation of
  secure boot (\<open>src/internal/hab\<close>), the control messages (\<open>src/api\<close>), and the two command line tools
  (\<open>src/cmd/witnessctl\<close>, \<open>src/cmd/proofbundle\<close>).

  \<^bold>\<open>The program.\<close> At start-up the OS checks its own version against an epoch kept in the eMMC's replay
  protected memory block, reads the Trusted Applet from one of two slots of the storage, verifies it and
  runs it in user mode. The applet asks for services through system calls (packets, output) and RPC
  requests (storage, keys, updates, its own rollback check). A host talks to the OS over USB HID:
  status, configuration, logs, and fusing the device. An update is verified, written to the slot not in
  use, and takes effect when the configuration block that points to it has been written.

  \<^bold>\<open>How Go is modelled.\<close> \<open>Prelude\<close>: a call that can fail gives a \<open>res\<close> (\<open>Ok\<close>, \<open>Err\<close>, or \<open>Halt\<close>
  when control does not come back: a panic, \<open>log.Fatal\<close>); code with effects is a function of the state
  (\<open>io\<close>), with combinators for early return (\<open>bindS\<close>), for looking at an error (\<open>tryS\<close>, \<open>wrapS\<close>)
  and for acting on a part of the state (\<open>zoomS\<close>); \<open>keeps\<close> and \<open>leaves\<close> state preservation. Integers
  that can wrap are words. \<open>Go_Std\<close> has what is used of Go's library: byte orders, SHA-256, HMAC,
  hexadecimal, gob strings; \<open>Net_Addr\<close> has the address checks of package \<open>net\<close>. A struct is a record,
  an enumeration a datatype, package variables are the fields of \<open>os\<close> (theory \<open>Os\<close>). Drivers, board
  support, the GoTEE monitor, protocol buffers, semantic versions, the transparency log and the other
  packages outside the repository are parameters: the records \<open>rpmb_hw\<close>, \<open>Card\<close>, \<open>otp\<close>,
  \<open>semver\<close>, \<open>boot_codec\<close>, \<open>api_codec\<close>, \<open>key_hw\<close>, \<open>board\<close>, \<open>usb_stack\<close>, \<open>hid_host\<close>,
  \<open>ring\<close>, \<open>elf_tools\<close>, \<open>pb_env\<close>. What the code relies on from them is stated in locales, each
  interpreted on an executable instance: \<open>rpmb_device\<close> (the exchanges of JESD84-B51), \<open>card_frame\<close> and
  \<open>block_card\<close> (storage; the in-memory card of \<open>storage_debug.go\<close> is one), \<open>otp_fuses\<close> and
  \<open>otp_working\<close>, \<open>semver_ops\<close>, \<open>api_wire\<close> (met by the instance in \<open>Proto_Wire\<close>),
  \<open>log_ring\<close>, \<open>config_codec\<close>, \<open>strict_rpmb_device\<close> (one that refuses old counters), and \<open>faulty_card\<close>, a card
  whose writes may fail and then leave anything in the blocks written; \<open>pb_files\<close> (reading a file changes
  none) and \<open>applet_memory\<close> (what is written to the applet's memory can be read there). Interfaces between
  components of the program are locales too: \<open>version_store\<close> (met by the RPMB store through the
  sublocale of \<open>rollback_device\<close>), \<open>drop_queue\<close> (met by both packet queues), \<open>heap_search\<close> (met by
  the searches of two wake handlers), \<open>isolated_board\<close> and its extension \<open>isolated_system\<close>.

  \<^bold>\<open>Theories and sources.\<close>
  \<^item> \<open>Rpmb_Frame\<close>, \<open>Rpmb_Op\<close>, \<open>Rpmb_Device\<close>: \<open>rpmb/op.go\<close>, \<open>rpmb/rpmb.go\<close>. Frame layout and
    its inverse; \<open>op\<close> accepts only authentic answers to this request, from any card; a write that
    succeeds advanced the counter by one; write then read on a device that follows the standard.
    \<open>Rpmb_Concurrent\<close>: goroutines that share an instance, interleaved where the mutex is free; one order
    of the successful writes explains every run.
  \<^item> \<open>Card\<close>, \<open>Fake_Card\<close>, \<open>Flash\<close>, \<open>Flash_Props\<close>: \<open>trusted_os/flash.go\<close>,
    \<open>trusted_os/storage_debug.go\<close>. Boot configuration, A/B slots, the block writer (total, by a measure on
    the buffer), updates that can be interrupted anywhere, crash log. \<open>Flash_Update\<close>: sequences of
    updates and power cycles on a card that fails are runs of a register that holds a verified bundle, and
    is undefined after a write of the configuration itself has failed.
  \<^item> \<open>Otp\<close>, \<open>Hab\<close>: \<open>internal/hab/hab.go\<close>. The device is closed only with its key hash fused and
    locked; activation succeeds on working blank fuses.
  \<^item> \<open>Versions\<close>, \<open>Rollback\<close>, \<open>Rollback_Fake\<close>: \<open>trusted_os/rpmb.go\<close>, \<open>trusted_os/rpmb_fake.go\<close>.
    Rollback protection over any sequence of checks, and the refinement of abstract registers that only
    advance; key programming happens once. \<open>Semver\<close>: semantic versions as an instance of the
    version package, and checks with release candidates on it.
  \<^item> \<open>Memory_Map\<close>, \<open>Console_Log\<close>, \<open>Net\<close>, \<open>Handler\<close>: \<open>mem.go\<close>, \<open>mem_bee.go\<close>, \<open>dma.go\<close>,
    \<open>log.go\<close>, \<open>net.go\<close>, \<open>handler.go\<close>, \<open>load.go\<close>. Disjoint regions, output buffering, packet
    queues under any interleaving, interrupt masking, running the applet between watchdog and interrupt
    routing. \<open>Wake_Handlers\<close>: \<open>handler.s\<close>, the assembly routines on a memory of bytes; which timer
    they wake, what they write, when they end. \<open>Interrupt_Path\<close>: from the exception to the applet's
    timer, the handler, the registered addresses and the routine together.
  \<^item> \<open>Api\<close>, \<open>Os\<close>, \<open>Machine\<close>, \<open>Rpc\<close>, \<open>Applet_Requests\<close>: \<open>api/api.go\<close>, \<open>api/rpc/rpc.go\<close>,
    \<open>trusted_os/rpc.go\<close>. Messages; the OS state; a machine for concrete runs; one definition per RPC
    method; runs of an applet that sends any requests (an inductive relation) and the epochs they keep, or
    make unreadable.
  \<^item> \<open>Boot\<close>, \<open>System\<close>, \<open>System_Inv\<close>: \<open>trusted_os/main.go\<close>, \<open>trusted_os/storage.go\<close>. Interfaces,
    rollback checks, verifiers, choice of the applet, a round of the applet loop; \<open>main\<close> as a whole and
    the life of the device as a sequence of events, each handled by the definitions of the components
    (starts, applet rounds, requests, exceptions, interrupts, host messages): an older OS never comes up
    after a newer one, and an invariant of the OS state holds while it is up.
  \<^item> \<open>Log_Transfer\<close>, \<open>Control\<close>, \<open>Witnessctl\<close>, \<open>Usb_Link\<close>: \<open>trusted_os/ctl.go\<close>,
    \<open>trusted_os/usb_hid.go\<close>, \<open>cmd/witnessctl\<close>. Both ends of the USB link and their composition.
    \<open>Proto_Wire\<close>: an instance of the codec parameter for concrete runs, the documented protocol buffer
    format with the field numbers of \<open>api/api.pb.go\<close>.
  \<^item> \<open>Debug_Build\<close>: \<open>trusted_os/console.go\<close>, \<open>trusted_os/debug.go\<close>. What the console keeps; where log messages
    go; inspecting a stopped applet.
  \<^item> \<open>Proofbundle\<close>: \<open>cmd/proofbundle/main.go\<close>; the bundle written is the one of the files named by the flags,
    and the OS selects what was written.
  \<^item> This theory: from an install request to the next start-up.

  \<^bold>\<open>Fuel.\<close> The only loop that another party could keep going is the host's fetching of logs
  (\<open>fetch_logs\<close>); it has fuel, and \<open>Usb_Link\<close> shows that the number of full kibibytes of the
  compressed log plus three rounds are enough, for every larger fuel as well. The searches of the wake
  handlers (\<open>go124_check\<close>, \<open>go123_check\<close>) run over memory of the applet and may never end; there \<open>None\<close>
  is the value of a search that does not return, and \<open>Wake_Handlers\<close> shows when it returns and when
  not. All other loops are structural or have a termination proof.

  \<^bold>\<open>Not modelled.\<close> Concurrency between the applet loop, interrupt handlers and control messages is
  modelled by interleavings of whole operations; inside package \<open>rpmb\<close>, whose mutex is the only one the
  code locks, by interleavings of its critical sections. Waiting for the applet to stop is an event. The
  applet's execution appears as the requests and exceptions it causes; faults of the memory management
  unit are left out. The sequences of events in \<open>System\<close> have no byte memory; there the call of a wake
  handler is recorded, and \<open>Interrupt_Path\<close> carries out such calls for a single exception. The LED
  goroutines are the sequences of their settings. Hardware calls of \<open>init\<close> and of the network's start
  are recorded in order, without the devices' reaction. The texts of the OS's own log messages, the
  generated accessors and reflection tables of \<open>api.pb.go\<close> and the libraries that are parameters above
  are not modelled. Error texts are kept up to formatting.

  \<^bold>\<open>What the proofs brought up.\<close> Some properties describe behaviour that differs from the comments or
  from what was intended: the applet loop runs an applet that failed verification (\<open>Boot\<close>); the
  applet's RPMB transfer hides failures (\<open>Rollback\<close>); a fused program key flag without a programmed key
  is final (\<open>Boot\<close>); long versions cannot be read back (\<open>Rollback\<close>), so that an applet
  can make its own epoch unreadable (\<open>Applet_Requests\<close>); a failed write of the configuration can leave no
  bootable firmware (\<open>Flash_Update\<close>); the fake version check always
  fails (\<open>Rollback_Fake\<close>); the console keeps the oldest output (\<open>Debug_Build\<close>); the host tool without
  flags reconfigures the device, and a new configuration restarts the embedded image (\<open>Usb_Link\<close>); wake
  handlers follow unchecked pointers of the applet and may never return (\<open>Wake_Handlers\<close>); concurrent
  RPMB writes can fail each other (\<open>Rpmb_Concurrent\<close>); the log that
  production builds discard is switched on again by a later \<open>init\<close> (\<open>Debug_Build\<close>).
\<close>

section \<open>From an install request to the next start-up\<close>

text \<open>C19: installing an applet and starting it. On a working card large enough for the layout, with a
  configuration codec that decodes what it encodes (whatever follows it on the medium), while an
  applet runs from its slot: an image that verifies and fits a slot, sent in any chunks, is installed
  without error and the device resets; and the next start-up of an OS without an embedded applet,
  in whatever state but with that storage, selects exactly the bundle that was verified, from the slot
  that was not in use.\<close>

theorem install_then_boot:
  fixes s :: "('w, 'v) os"
  assumes bc: "block_card C img I cap" and inv0: "I (world s)" and cap: "taBlockB + 0xFD000 \<le> cap"
    and E: "Storage E = Some C" "boot_config E = K" and run: "rpc_Ctx s"
    and chunks: "cs \<noteq> []" "pb_Checkpoint pb \<noteq> []"
    and verified: "AppletBundle_Verify E (bundle_of (concat cs) pb) = Ok ()" and fits: "int (length (concat cs)) < slotBytes"
    and t: "flash_target s Firmware_Applet = Some (taConfBlock, elfBlock)"
    and conf: "c = \<lparr>cfg_Size = int (length (concat cs)), cfg_Offset = elfBlock * 512, cfg_Bundle = pb\<rparr>"
    and enc: "cfg_Encode K c = Ok enc" and dec: "\<forall>rest. cfg_Decode K (enc @ rest) = Ok c"
    and len: "length enc < 40960" "int (length enc) \<le> MaxLength K" "MaxLength K \<le> 40960"
    and embedded: "img_taELF J = []"
  shows "\<exists>s1. install_seq (RPC_InstallApplet E) (chunked 0 cs pb) s = (Ok (), s1)
    \<and> events s1 = events s @ [CtxStop, BoardReset] \<and> elfBlock \<noteq> appletLoadedFromBlock s
    \<and> (\<forall>b. world b = world s1 \<longrightarrow> (\<exists>b'. select_applet E J b = (Ok (Some (bundle_of (concat cs) pb)), b')
        \<and> appletLoadedFromBlock b' = elfBlock))"
proof -
  let ?fw = "concat cs" and ?s = "s\<lparr>appletFirmwareBuffer := concat cs\<rparr>"
  have t': "flash_target ?s Firmware_Applet = Some (taConfBlock, elfBlock)" using t by (simp add: flash_target_def)
  have "I (world ?s)" using inv0 by simp
  from updateApplet_reads_back [where verify = "AppletBundle_Verify E" and elf = ?fw and s = ?s,
      OF bc this cap verified fits t' conf enc dec len]
  obtain w1 where w1: "updateApplet K (AppletBundle_Verify E) (Some C) ?fw pb ?s = (Ok (), ?s\<lparr>world := w1\<rparr>)"
      "elfBlock \<noteq> appletLoadedFromBlock s"
    and rd: "\<And>b :: ('w, 'v) os. world b = w1 \<Longrightarrow> \<exists>w3. read K C b = (Ok (bundle_of ?fw pb), b\<lparr>world := w3, appletLoadedFromBlock := elfBlock\<rparr>)"
    by auto
  have "install_seq (RPC_InstallApplet E) (chunked 0 cs pb) s
      = RPC_InstallApplet E \<lparr>fu_Sequence = 0, fu_Image = ?fw, fu_Proof = pb\<rparr> s"
    by (rule install_seq_whole [where rpc = "RPC_InstallApplet E", OF InstallApplet_join chunks(1)])
  also have "\<dots> = (Ok (), ?s\<lparr>world := w1, events := events s @ [CtxStop, BoardReset]\<rparr>)"
    using E w1(1) run chunks(2) by (simp add: RPC_InstallApplet_def bindS_apply Ctx_Stop_apply RPC_Reboot_def)
  finally have "install_seq (RPC_InstallApplet E) (chunked 0 cs pb) s
      = (Ok (), ?s\<lparr>world := w1, events := events s @ [CtxStop, BoardReset]\<rparr>)" .
  moreover have "\<exists>b'. select_applet E J b = (Ok (Some (bundle_of ?fw pb)), b') \<and> appletLoadedFromBlock b' = elfBlock"
    if "world b = w1" for b
    using rd [OF that] E embedded by (auto simp: select_applet_def tryS_apply)
  ultimately show ?thesis using w1(2) by simp
qed

theorem install_then_boot_witness:
  "\<exists>s1 b'. install_seq (RPC_InstallApplet demo_board) (chunked 0 [[1, 2], [3]] tiny_pb) demo_os = (Ok (), s1)
    \<and> events s1 = [CtxStop, BoardReset]
    \<and> select_applet demo_board demo_image (demo_booted\<lparr>world := world s1\<rparr>) = (Ok (Some (bundle_of [1, 2, 3] tiny_pb)), b')"
proof -
  have t: "flash_target demo_os Firmware_Applet = Some (taConfBlock, taBlockA)"
    by (simp add: flash_target_def layout_defs)
  have v: "AppletBundle_Verify demo_board (bundle_of (concat [[1, 2], [3]]) tiny_pb) = Ok ()"
    by (simp add: demo_board_def bundle_of_def tiny_pb_def)
  have inv: "fake_inv (m_card (world demo_os))" "taBlockB + 0xFD000 \<le> fakeCardNumBlocks" "rpc_Ctx demo_os"
    "[[1, 2], [3 :: byte]] \<noteq> []" "pb_Checkpoint tiny_pb \<noteq> []" "int (length (concat [[1, 2], [3 :: byte]])) < slotBytes"
    by (simp_all add: tiny_pb_def slotBytes_def layout_defs fakeCardNumBlocks_def fakeCardBlockSize_def)
  have enc: "cfg_Encode tiny_boot_codec
      \<lparr>cfg_Size = int (length (concat [[1, 2], [3 :: byte]])), cfg_Offset = taBlockA * 512, cfg_Bundle = tiny_pb\<rparr> = Ok [3]"
    and dec: "\<forall>rest. cfg_Decode tiny_boot_codec ([3] @ rest)
      = Ok \<lparr>cfg_Size = int (length (concat [[1, 2], [3 :: byte]])), cfg_Offset = taBlockA * 512, cfg_Bundle = tiny_pb\<rparr>"
    and len: "length [3 :: byte] < 40960" "int (length [3 :: byte]) \<le> MaxLength tiny_boot_codec" "MaxLength tiny_boot_codec \<le> 40960"
    and emb: "img_taELF demo_image = []"
    by (simp_all add: tiny_boot_codec_def demo_image_def)
  have fw: "concat [[1, 2], [3 :: byte]] = [1, 2, 3]" by simp
  obtain s1 where "install_seq (RPC_InstallApplet demo_board) (chunked 0 [[1, 2], [3]] tiny_pb) demo_os = (Ok (), s1)"
    "events s1 = events demo_os @ [CtxStop, BoardReset]"
    and sel: "\<forall>b. world b = world s1 \<longrightarrow> (\<exists>b'. select_applet demo_board demo_image b
      = (Ok (Some (bundle_of [1, 2, 3] tiny_pb)), b') \<and> appletLoadedFromBlock b' = taBlockA)"
    using install_then_boot [where cs = "[[1, 2], [3]]" and s = demo_os and J = demo_image,
        OF mc.block_card_axioms inv(1,2) demo_board_simps(7,11) inv(3-5) v inv(6) t refl enc dec len emb]
    unfolding fw by blast
  moreover obtain b' where "select_applet demo_board demo_image (demo_booted\<lparr>world := world s1\<rparr>)
      = (Ok (Some (bundle_of [1, 2, 3] tiny_pb)), b')"
    using sel [rule_format, of "demo_booted\<lparr>world := world s1\<rparr>"] by auto
  ultimately show ?thesis by (intro exI [of _ s1] exI [of _ b']) (simp only: demo_os_simps append_Nil simp_thms)
qed

end
